theory Spec2Isabelle
  imports Complex_Main "HOL-Library.Sublist"
begin

section \<open>JavaScript values and coercions\<close>

text \<open>
  The code under study is \<^verbatim>\<open>tjsims/src/utils/pdfGenerator.js\<close> (four document generators
  built on jsPDF) and the data preparation of \<^verbatim>\<open>ReportsController.getSalesReport\<close>.
  JavaScript numbers are IEEE doubles; they are idealised here as rationals plus \<open>NaN\<close>.
  All layout coordinates of the source are small integers or short decimals, on which the
  idealisation is exact. Strings are sequences of code units.
\<close>

datatype jsnum = NaN | Num rat

datatype jsval = JUndefined | JNull | JBool bool | JNumber jsnum | JString string

text \<open>
  Everything the generators obtain from the JavaScript runtime, from jsPDF or from the
  browser is collected in one record and passed explicitly: the page widths reported by
  jsPDF for the millimetre and the point document, whether the logo could be loaded, the
  string-to-number conversion, number and date formatting, the clock, text wrapping and the
  stored user name. \<open>toLocaleString rt v loc\<close> stands for
  \<^verbatim>\<open>v.toLocaleString(loc, {minimumFractionDigits: 2, maximumFractionDigits: 2})\<close>.
  \<open>formatPeriodText\<close> of the source consists of \<^verbatim>\<open>Date\<close> calls only and is taken whole.
\<close>

record runtime =
  pageWidth :: rat
  pageWidthPt :: rat
  logoDataUrl :: bool
  StringToNumber :: "string \<Rightarrow> jsnum"
  toLocaleString :: "rat \<Rightarrow> string \<Rightarrow> string"
  numberToString :: "jsnum \<Rightarrow> string"
  toLocaleDateString :: "jsval \<Rightarrow> string"
  formatPeriodText :: "jsval \<Rightarrow> jsval \<Rightarrow> string \<Rightarrow> string"
  today :: string
  toLocaleDateTime :: "jsval \<Rightarrow> string"
  splitTextToSize :: "string \<Rightarrow> rat \<Rightarrow> string list"
  username :: "string option"

text \<open>\<^verbatim>\<open>Number(v)\<close>.\<close>

fun Number :: "runtime \<Rightarrow> jsval \<Rightarrow> jsnum" where
  "Number rt JUndefined = NaN"
| "Number rt JNull = Num 0"
| "Number rt (JBool b) = Num (if b then 1 else 0)"
| "Number rt (JNumber n) = n"
| "Number rt (JString s) = StringToNumber rt s"

text \<open>\<^verbatim>\<open>n || 0\<close> on a number: \<open>NaN\<close> and zero are falsy.\<close>

fun or_zero :: "jsnum \<Rightarrow> rat" where
  "or_zero NaN = 0"
| "or_zero (Num q) = q"

fun truthy :: "jsval \<Rightarrow> bool" where
  "truthy JUndefined = False"
| "truthy JNull = False"
| "truthy (JBool b) = b"
| "truthy (JNumber NaN) = False"
| "truthy (JNumber (Num q)) = (q \<noteq> 0)"
| "truthy (JString s) = (s \<noteq> [])"

text \<open>\<^verbatim>\<open>a || b\<close> on values.\<close>

definition js_or :: "jsval \<Rightarrow> jsval \<Rightarrow> jsval" where
  "js_or a b = (if truthy a then a else b)"

text \<open>Multiplication of numbers; \<open>NaN\<close> is absorbing.\<close>

fun js_times :: "jsnum \<Rightarrow> jsnum \<Rightarrow> jsnum" where
  "js_times (Num a) (Num b) = Num (a * b)"
| "js_times _ _ = NaN"

text \<open>\<^verbatim>\<open>a > b\<close> on numbers: false as soon as one side is \<open>NaN\<close>.\<close>

fun js_gt :: "jsnum \<Rightarrow> jsnum \<Rightarrow> bool" where
  "js_gt (Num a) (Num b) = (a > b)"
| "js_gt _ _ = False"

section \<open>Formatting helpers of pdfGenerator.js\<close>

definition formatCurrency :: "runtime \<Rightarrow> jsval \<Rightarrow> string" where
  "formatCurrency rt amount =
     (let num = or_zero (Number rt amount)
      in ''PHP '' @ toLocaleString rt num ''en-US'')"

text \<open>The receipt's local formatter \<open>peso\<close>.\<close>

definition peso :: "runtime \<Rightarrow> jsval \<Rightarrow> string" where
  "peso rt n =
     (let v = or_zero (Number rt n); sym = ''PHP ''
      in sym @ toLocaleString rt v ''en-PH'')"

definition formatDate :: "runtime \<Rightarrow> jsval \<Rightarrow> string" where
  "formatDate rt dateString =
     (if \<not> truthy dateString then ''N/A'' else toLocaleDateString rt dateString)"

text \<open>
  The truncation written inline in every row loop:
  \<^verbatim>\<open>s.length > max ? s.substring(0, max) + '...' : s\<close>.
\<close>

definition truncateText :: "nat \<Rightarrow> string \<Rightarrow> string" where
  "truncateText maxLen s = (if length s > maxLen then take maxLen s @ ''...'' else s)"

text \<open>
  The returns report's variant on an optional field (\<open>None\<close> is undefined or null):
  \<^verbatim>\<open>f?.length > max ? f.substring(0, max) + '...' : f || 'N/A'\<close>.
\<close>

definition truncate_or_na :: "nat \<Rightarrow> string option \<Rightarrow> string" where
  "truncate_or_na maxLen f =
     (case f of
        None \<Rightarrow> ''N/A''
      | Some s \<Rightarrow> if length s > maxLen then take maxLen s @ ''...''
                  else if s \<noteq> [] then s else ''N/A'')"

section \<open>The drawing surface\<close>

text \<open>
  A jsPDF document is modelled as the log of the calls made on it, kept per page, together
  with the index of the page that receives the next call. \<open>addPage\<close> appends a page and
  selects it; \<open>setPage\<close> takes a page number counted from one.
\<close>

datatype align = AlignLeft | AlignCenter | AlignRight

datatype cmd =
    Text string rat rat align
  | TextLines "string list" rat rat
  | Line rat rat rat rat
  | Rect rat rat rat rat
  | AddImage rat rat rat rat
  | SetFont string string
  | SetFontSize rat
  | SetLineWidth rat
  | SetTextColor "nat list"
  | SetFillColor nat nat nat
  | SetDrawColor nat nat nat

record doc =
  pages :: "cmd list list"
  cur :: nat

definition new_jsPDF :: doc where
  "new_jsPDF = \<lparr>pages = [[]], cur = 0\<rparr>"

definition emit :: "cmd \<Rightarrow> doc \<Rightarrow> doc" where
  "emit c d = d\<lparr>pages := (pages d)[cur d := pages d ! cur d @ [c]]\<rparr>"

definition emits :: "cmd list \<Rightarrow> doc \<Rightarrow> doc" where
  "emits cs d = fold emit cs d"

definition addPage :: "doc \<Rightarrow> doc" where
  "addPage d = \<lparr>pages = pages d @ [[]], cur = length (pages d)\<rparr>"

definition setPage :: "nat \<Rightarrow> doc \<Rightarrow> doc" where
  "setPage i d = d\<lparr>cur := i - 1\<rparr>"

definition getNumberOfPages :: "doc \<Rightarrow> nat" where
  "getNumberOfPages d = length (pages d)"

text \<open>
  While a document is laid out the selected page is the last one; only the footer pass
  selects earlier pages again.
\<close>

definition at_last :: "doc \<Rightarrow> bool" where
  "at_last d = (pages d \<noteq> [] \<and> cur d = length (pages d) - 1)"

text \<open>All calls made on the document, in page order.\<close>

definition stream :: "doc \<Rightarrow> cmd list" where
  "stream d = concat (pages d)"

section \<open>Report data\<close>

text \<open>
  The sales report receives the orders as the server sends them. \<open>items\<close> is an array and
  \<open>productName\<close> a string for every order the controller builds; the generator reads
  \<^verbatim>\<open>order.items.filter\<close> and \<^verbatim>\<open>item.productName.length\<close> without a guard, so these two are
  typed accordingly. The numeric fields may hold any value and are coerced by the generator.
\<close>

record sale_item =
  productName :: string
  brand :: string
  quantity :: jsval
  unitPrice :: jsval
  totalPrice :: jsval

record sale_order =
  order_id :: jsval
  orderId :: jsval
  customerName :: jsval
  contact :: jsval
  orderDate :: jsval
  totalAmount :: jsval
  paymentMethod :: jsval
  status :: jsval
  itemCount :: nat
  calculatedTotal :: jsnum
  items :: "sale_item list"

text \<open>One element of \<open>flattenedData\<close>.\<close>

record sales_row =
  row_orderId :: jsval
  row_customerName :: jsval
  row_orderDate :: string
  row_productName :: string
  row_quantity :: rat
  row_unitPrice :: rat
  row_totalPrice :: rat

abbreviation jn :: "rat \<Rightarrow> jsval" where
  "jn q \<equiv> JNumber (Num q)"

text \<open>\<^verbatim>\<open>Number(v) || 0\<close>.\<close>

definition num_or_zero :: "runtime \<Rightarrow> jsval \<Rightarrow> rat" where
  "num_or_zero rt v = or_zero (Number rt v)"

definition allowedStatuses :: "jsval list" where
  "allowedStatuses = [JString ''Completed'', JString ''Partially Returned'', JString ''Pending'', JNull]"

definition js_includes :: "jsval list \<Rightarrow> jsval \<Rightarrow> bool" where
  "js_includes xs v = (v \<in> set xs)"

definition flattenedData :: "runtime \<Rightarrow> sale_order list \<Rightarrow> sales_row list" where
  "flattenedData rt filteredOrders =
     concat (map (\<lambda>order.
       map (\<lambda>item. \<lparr>row_orderId = orderId order,
                     row_customerName = customerName order,
                     row_orderDate = formatDate rt (orderDate order),
                     row_productName = productName item,
                     row_quantity = num_or_zero rt (quantity item),
                     row_unitPrice = num_or_zero rt (unitPrice item),
                     row_totalPrice = num_or_zero rt (totalPrice item)\<rparr>)
           (filter (\<lambda>item. js_includes allowedStatuses (status order)) (items order)))
       filteredOrders)"

section \<open>The tally object and the best-selling product\<close>

text \<open>
  \<open>productCounts\<close> is an object used as a dictionary. It is modelled by its own properties
  in creation order. \<^verbatim>\<open>productCounts[k] = (productCounts[k] || 0) + q\<close> updates an existing
  property in place and appends a new one. (Product names that collide with a property
  inherited from \<^verbatim>\<open>Object.prototype\<close> are outside the model.)
\<close>

fun tally :: "string \<Rightarrow> rat \<Rightarrow> (string \<times> rat) list \<Rightarrow> (string \<times> rat) list" where
  "tally k q [] = [(k, 0 + q)]"
| "tally k q ((k', v) # m) = (if k = k' then (k', v + q) # m else (k', v) # tally k q m)"

definition productCounts :: "sales_row list \<Rightarrow> (string \<times> rat) list" where
  "productCounts flattened =
     foldl (\<lambda>m item. tally (row_productName item) (row_quantity item) m) [] flattened"

text \<open>
  \<^verbatim>\<open>Object.keys\<close> lists the properties that are array indices (canonical decimal numerals
  below \<open>2^32 - 1\<close>) in ascending numeric order, then all others in creation order.
\<close>

definition is_digit :: "char \<Rightarrow> bool" where
  "is_digit c = (48 \<le> (of_char c :: nat) \<and> (of_char c :: nat) \<le> 57)"

definition digits_value :: "string \<Rightarrow> nat" where
  "digits_value s = foldl (\<lambda>n c. 10 * n + (of_char c - 48)) 0 s"

definition array_index :: "string \<Rightarrow> nat option" where
  "array_index s =
     (if s \<noteq> [] \<and> list_all is_digit s \<and> (hd s \<noteq> CHR ''0'' \<or> length s = 1)
         \<and> digits_value s < 2 ^ 32 - 1
      then Some (digits_value s) else None)"

definition Object_keys :: "(string \<times> 'v) list \<Rightarrow> string list" where
  "Object_keys m =
     (let ks = map fst m
      in sort_key (\<lambda>k. the (array_index k)) (filter (\<lambda>k. array_index k \<noteq> None) ks)
         @ filter (\<lambda>k. array_index k = None) ks)"

text \<open>\<^verbatim>\<open>productCounts[k]\<close> as an operand of \<^verbatim>\<open>>\<close>: a missing property is undefined, hence \<open>NaN\<close>.\<close>

definition count_of :: "(string \<times> rat) list \<Rightarrow> string \<Rightarrow> jsnum" where
  "count_of m k = (case map_of m k of None \<Rightarrow> NaN | Some q \<Rightarrow> Num q)"

text \<open>
  \<^verbatim>\<open>Object.keys(productCounts).reduce((a, b) => productCounts[a] > productCounts[b] ? a : b, 'N/A')\<close>
\<close>

definition bestSellingProduct :: "(string \<times> rat) list \<Rightarrow> string" where
  "bestSellingProduct m =
     foldl (\<lambda>a b. if js_gt (count_of m a) (count_of m b) then a else b) ''N/A'' (Object_keys m)"

section \<open>generateSalesReportPDF\<close>

definition sales_title :: "runtime \<Rightarrow> jsval \<Rightarrow> jsval \<Rightarrow> string \<Rightarrow> doc \<times> rat" where
  "sales_title rt startDate endDate rangeLabel =
     (let doc = new_jsPDF;
          pw = pageWidth rt;
          centerX = pw / 2;
          yPosition = 20;
          (doc, yPosition) =
            (if logoDataUrl rt
             then (emit (AddImage ((pw - 30) / 2) yPosition 30 22) doc, yPosition + (22 + 5))
             else (doc, yPosition));
          doc = emits [SetFontSize 18, SetFont ''helvetica'' ''bold'',
                       Text ''Sales Report'' centerX yPosition AlignCenter] doc;
          yPosition = yPosition + 7;
          doc = emits [SetFontSize 10, SetFont ''helvetica'' ''normal'',
                       Text (''Period: '' @ formatPeriodText rt startDate endDate rangeLabel)
                            centerX yPosition AlignCenter] doc;
          yPosition = yPosition + 10
      in (doc, yPosition))"

text \<open>The calls of \<open>drawTableHeaders(y)\<close>; the column positions are 15, 50, 110, 130, 160.\<close>

definition tableHeaderCmds :: "runtime \<Rightarrow> rat \<Rightarrow> cmd list" where
  "tableHeaderCmds rt y =
     [SetFont ''helvetica'' ''bold'',
      Text ''Date'' 15 y AlignLeft,
      Text ''Product Name'' 50 y AlignLeft,
      Text ''Qty'' 110 y AlignLeft,
      Text ''Unit Price'' 130 y AlignLeft,
      Text ''Total'' 160 y AlignLeft,
      SetLineWidth (1 / 2),
      Line 15 (y + 3) (pageWidth rt - 15) (y + 3)]"

definition drawTableHeaders :: "runtime \<Rightarrow> rat \<Rightarrow> doc \<Rightarrow> doc" where
  "drawTableHeaders rt y doc = emits (tableHeaderCmds rt y) doc"

text \<open>The page-break check at the head of the row callback.\<close>

definition sales_page_break :: "runtime \<Rightarrow> doc \<times> rat \<Rightarrow> doc \<times> rat" where
  "sales_page_break rt st =
     (case st of (doc, yPosition) \<Rightarrow>
        if yPosition > 270
        then (emits [SetFont ''helvetica'' ''normal'', SetFontSize 8]
                (drawTableHeaders rt 20 (addPage doc)), 20 + 8)
        else (doc, yPosition))"

text \<open>The calls that draw one row at \<open>yPosition\<close>.\<close>

definition sales_row_cmds :: "runtime \<Rightarrow> nat \<Rightarrow> sales_row \<Rightarrow> rat \<Rightarrow> cmd list" where
  "sales_row_cmds rt index item yPosition =
     (if index mod 2 = 0
      then [SetFillColor 245 245 245, Rect 15 (yPosition - 4) (pageWidth rt - 30) 6]
      else [])
     @ [SetTextColor [0, 0, 0],
        Text (row_orderDate item) 15 yPosition AlignLeft,
        Text (truncateText 30 (row_productName item)) 50 yPosition AlignLeft,
        Text (numberToString rt (Num (num_or_zero rt (jn (row_quantity item))))) 110 yPosition AlignLeft,
        Text (formatCurrency rt (jn (num_or_zero rt (jn (row_unitPrice item))))) 130 yPosition AlignLeft,
        Text (formatCurrency rt (jn (num_or_zero rt (jn (row_totalPrice item))))) 160 yPosition AlignLeft]"

text \<open>One run of the \<open>forEach\<close> callback on the state (document, yPosition, grandTotal).\<close>

definition sales_row_step ::
  "runtime \<Rightarrow> nat \<Rightarrow> sales_row \<Rightarrow> doc \<times> rat \<times> rat \<Rightarrow> doc \<times> rat \<times> rat" where
  "sales_row_step rt index item st =
     (case st of (doc, yPosition, grandTotal) \<Rightarrow>
        (case sales_page_break rt (doc, yPosition) of (doc, yPosition) \<Rightarrow>
           (emits (sales_row_cmds rt index item yPosition) doc,
            yPosition + 6,
            grandTotal + num_or_zero rt (jn (row_totalPrice item)))))"

fun sales_rows ::
  "runtime \<Rightarrow> nat \<Rightarrow> sales_row list \<Rightarrow> doc \<times> rat \<times> rat \<Rightarrow> doc \<times> rat \<times> rat" where
  "sales_rows rt index [] st = st"
| "sales_rows rt index (item # rest) st = sales_rows rt (Suc index) rest (sales_row_step rt index item st)"

text \<open>The document, cursor and running total once the last row is drawn.\<close>

definition sales_table ::
  "runtime \<Rightarrow> sales_row list \<Rightarrow> jsval \<Rightarrow> jsval \<Rightarrow> string \<Rightarrow> doc \<times> rat \<times> rat" where
  "sales_table rt flattened startDate endDate rangeLabel =
     (case sales_title rt startDate endDate rangeLabel of (doc, yPosition) \<Rightarrow>
        let doc = emits [SetFontSize 9, SetFont ''helvetica'' ''bold''] doc;
            doc = drawTableHeaders rt yPosition doc;
            yPosition = yPosition + 8;
            doc = emits [SetFont ''helvetica'' ''normal'', SetFontSize 8] doc;
            grandTotal = 0
        in sales_rows rt 0 flattened (doc, yPosition, grandTotal))"

definition sales_grand_total :: "runtime \<Rightarrow> doc \<times> rat \<times> rat \<Rightarrow> doc \<times> rat" where
  "sales_grand_total rt st =
     (case st of (doc, yPosition, grandTotal) \<Rightarrow>
        let (doc, yPosition) = (if yPosition > 265 then (addPage doc, 20) else (doc, yPosition));
            yPosition = yPosition + 2;
            doc = emits [SetLineWidth (1 / 2),
                         Line 15 yPosition (pageWidth rt - 15) yPosition] doc;
            yPosition = yPosition + 6;
            doc = emits [SetFont ''helvetica'' ''bold'', SetFontSize 9,
                         Text ''Grand Total:'' 130 yPosition AlignLeft,
                         Text (formatCurrency rt (jn grandTotal)) 160 yPosition AlignLeft] doc;
            yPosition = yPosition + 10
        in (doc, yPosition))"

definition relevantOrders :: "sale_order list \<Rightarrow> sale_order list" where
  "relevantOrders filteredOrders =
     filter (\<lambda>order. js_includes allowedStatuses (status order)) filteredOrders"

definition totalRevenue :: "runtime \<Rightarrow> sale_order list \<Rightarrow> rat" where
  "totalRevenue rt filteredOrders =
     foldl (\<lambda>sum order. sum + num_or_zero rt (totalAmount order)) 0 (relevantOrders filteredOrders)"

definition totalItems :: "sales_row list \<Rightarrow> rat" where
  "totalItems flattened = foldl (\<lambda>sum item. sum + row_quantity item) 0 flattened"

definition totalTransactions :: "sale_order list \<Rightarrow> nat" where
  "totalTransactions filteredOrders = length (relevantOrders filteredOrders)"

definition avgTransactionValue :: "runtime \<Rightarrow> sale_order list \<Rightarrow> rat" where
  "avgTransactionValue rt filteredOrders =
     (if totalTransactions filteredOrders > 0
      then totalRevenue rt filteredOrders / of_nat (totalTransactions filteredOrders)
      else 0)"

definition sales_summary ::
  "runtime \<Rightarrow> sale_order list \<Rightarrow> sales_row list \<Rightarrow> doc \<times> rat \<Rightarrow> doc" where
  "sales_summary rt filteredOrders flattened st =
     (case st of (doc, yPosition) \<Rightarrow>
        let pw = pageWidth rt;
            centerX = pw / 2;
            (doc, yPosition) = (if yPosition + 35 > 280 then (addPage doc, 30) else (doc, yPosition));
            doc = emits [SetFillColor 240 240 240,
                         Rect 15 (yPosition - 5) (pw - 30) 8,
                         SetFontSize 10, SetFont ''helvetica'' ''bold'',
                         Text ''Sales Summary'' centerX yPosition AlignCenter] doc;
            yPosition = yPosition + 8;
            doc = emits [SetFont ''helvetica'' ''normal'', SetFontSize 9,
                         Text (''Total Revenue: '' @ formatCurrency rt (jn (totalRevenue rt filteredOrders)))
                              20 yPosition AlignLeft,
                         Text (''Avg Transaction Value: ''
                                 @ formatCurrency rt (jn (avgTransactionValue rt filteredOrders)))
                              (pw / 2 + 10) yPosition AlignLeft] doc;
            yPosition = yPosition + 6;
            doc = emits [Text (''Total Items Sold: '' @ numberToString rt (Num (totalItems flattened)))
                              20 yPosition AlignLeft,
                         Text (''Best Selling Product: '' @ bestSellingProduct (productCounts flattened))
                              (pw / 2 + 10) yPosition AlignLeft] doc;
            yPosition = yPosition + 6;
            doc = emits [Text (''Total Transactions: ''
                                 @ numberToString rt (Num (of_nat (totalTransactions filteredOrders))))
                              20 yPosition AlignLeft] doc
        in doc)"

text \<open>The footer block stamped on page \<open>i\<close>; it is the same in the three report generators.\<close>

definition footerCmds :: "runtime \<Rightarrow> string \<Rightarrow> nat \<Rightarrow> nat \<Rightarrow> cmd list" where
  "footerCmds rt adminName i pageCount =
     (let footerY = 285
      in [SetFontSize 7, SetFont ''helvetica'' ''normal'', SetTextColor [100],
          Text (''Generated by: '' @ adminName) 15 footerY AlignLeft,
          Text (''Report Generated: '' @ formatDate rt (JString (today rt))) 15 (footerY + 4) AlignLeft,
          Text (''Page '' @ numberToString rt (Num (of_nat i)) @ '' of ''
                  @ numberToString rt (Num (of_nat pageCount)))
               (pageWidth rt - 15) footerY AlignRight])"

definition stampFooters :: "runtime \<Rightarrow> string \<Rightarrow> doc \<Rightarrow> doc" where
  "stampFooters rt adminName doc =
     (let pageCount = getNumberOfPages doc
      in fold (\<lambda>i d. emits (footerCmds rt adminName i pageCount) (setPage i d))
           [1 ..< pageCount + 1] doc)"

definition generateSalesReportPDF ::
  "runtime \<Rightarrow> sale_order list option \<Rightarrow> jsval \<Rightarrow> jsval \<Rightarrow> string \<Rightarrow> string \<Rightarrow> doc" where
  "generateSalesReportPDF rt salesData startDate endDate adminName rangeLabel =
     (let filteredOrders = (case salesData of None \<Rightarrow> [] | Some orders \<Rightarrow> orders);
          flattened = flattenedData rt filteredOrders;
          st = sales_table rt flattened startDate endDate rangeLabel;
          st = sales_grand_total rt st;
          doc = sales_summary rt filteredOrders flattened st
      in stampFooters rt adminName doc)"

section \<open>generateInventoryReportPDF\<close>

record inventory_item =
  inv_productName :: string
  inv_category :: string
  inv_brand :: string
  inv_currentStock :: rat
  inv_stockStatus :: string

text \<open>
  The logo block sits in a \<^verbatim>\<open>try\<close>: when no image could be loaded, \<open>addImage\<close> raises on the
  null data before anything is drawn and the handler only logs a warning.
\<close>

definition report_title :: "runtime \<Rightarrow> string \<Rightarrow> jsval \<Rightarrow> jsval \<Rightarrow> doc \<times> rat" where
  "report_title rt title startDate endDate =
     (let doc = new_jsPDF;
          pw = pageWidth rt;
          yPosition = 20;
          (doc, yPosition) =
            (if logoDataUrl rt
             then (emit (AddImage ((pw - 30) / 2) yPosition 30 22) doc, yPosition + (22 + 5))
             else (doc, yPosition));
          doc = emits [SetFont ''helvetica'' ''bold'', SetFontSize 18,
                       Text title (pw / 2) yPosition AlignCenter] doc;
          yPosition = yPosition + 7;
          doc = emits [SetFont ''helvetica'' ''normal'', SetFontSize 10,
                       Text (''Period: '' @ formatDate rt startDate @ '' - '' @ formatDate rt endDate)
                            (pw / 2) yPosition AlignCenter] doc;
          yPosition = yPosition + 10
      in (doc, yPosition))"

text \<open>The five column labels, at 20, 70, 110, 150 and 175.\<close>

definition inventoryLabelCmds :: "rat \<Rightarrow> cmd list" where
  "inventoryLabelCmds y =
     [Text ''Product Name'' 20 y AlignLeft,
      Text ''Category'' 70 y AlignLeft,
      Text ''Brand'' 110 y AlignLeft,
      Text ''Remaining Qty'' 150 y AlignLeft,
      Text ''Status'' 175 y AlignLeft]"

definition inventory_page_break :: "runtime \<Rightarrow> doc \<times> rat \<Rightarrow> doc \<times> rat" where
  "inventory_page_break rt st =
     (case st of (doc, yPosition) \<Rightarrow>
        if yPosition > 270
        then (let doc = addPage doc;
                  yPosition = 20;
                  doc = emits (SetFont ''helvetica'' ''bold'' # inventoryLabelCmds yPosition) doc;
                  yPosition = yPosition + 3;
                  doc = emit (Line 15 yPosition (pageWidth rt - 15) yPosition) doc;
                  yPosition = yPosition + 5;
                  doc = emits [SetFont ''helvetica'' ''normal'', SetFontSize 8] doc
              in (doc, yPosition))
        else (doc, yPosition))"

definition inventory_row_cmds :: "runtime \<Rightarrow> nat \<Rightarrow> inventory_item \<Rightarrow> rat \<Rightarrow> cmd list" where
  "inventory_row_cmds rt index item yPosition =
     (if index mod 2 = 0
      then [SetFillColor 245 245 245, Rect 15 (yPosition - 4) (pageWidth rt - 30) 6]
      else [])
     @ [SetTextColor [0, 0, 0],
        Text (truncateText 35 (inv_productName item)) 20 yPosition AlignLeft,
        Text (inv_category item) 70 yPosition AlignLeft,
        Text (inv_brand item) 110 yPosition AlignLeft,
        Text (numberToString rt (Num (inv_currentStock item))) 150 yPosition AlignLeft,
        Text (inv_stockStatus item) 175 yPosition AlignLeft]"

definition inventory_row_step ::
  "runtime \<Rightarrow> nat \<Rightarrow> inventory_item \<Rightarrow> doc \<times> rat \<Rightarrow> doc \<times> rat" where
  "inventory_row_step rt index item st =
     (case inventory_page_break rt st of (doc, yPosition) \<Rightarrow>
        (emits (inventory_row_cmds rt index item yPosition) doc, yPosition + 6))"

fun inventory_rows ::
  "runtime \<Rightarrow> nat \<Rightarrow> inventory_item list \<Rightarrow> doc \<times> rat \<Rightarrow> doc \<times> rat" where
  "inventory_rows rt index [] st = st"
| "inventory_rows rt index (item # rest) st =
     inventory_rows rt (Suc index) rest (inventory_row_step rt index item st)"

definition inventory_table ::
  "runtime \<Rightarrow> inventory_item list \<Rightarrow> jsval \<Rightarrow> jsval \<Rightarrow> doc \<times> rat" where
  "inventory_table rt inventoryData startDate endDate =
     (case report_title rt ''Inventory Report'' startDate endDate of (doc, yPosition) \<Rightarrow>
        let doc = emits (SetFont ''helvetica'' ''bold'' # SetFontSize 9 # inventoryLabelCmds yPosition) doc;
            yPosition = yPosition + 3;
            doc = emits [SetLineWidth (1 / 2),
                         Line 15 yPosition (pageWidth rt - 15) yPosition] doc;
            yPosition = yPosition + 5;
            doc = emits [SetFont ''helvetica'' ''normal'', SetFontSize 8] doc
        in inventory_rows rt 0 inventoryData (doc, yPosition))"

definition inventory_summary :: "runtime \<Rightarrow> inventory_item list \<Rightarrow> doc \<times> rat \<Rightarrow> doc" where
  "inventory_summary rt inventoryData st =
     (case st of (doc, yPosition) \<Rightarrow>
        let pw = pageWidth rt;
            yPosition = yPosition + 5;
            doc = emit (Line 15 yPosition (pw - 15) yPosition) doc;
            yPosition = yPosition + 10;
            totalItems = length inventoryData;
            lowStockItems = length (filter (\<lambda>item. inv_stockStatus item = ''Low Stock'') inventoryData);
            totalRemaining = foldl (\<lambda>sum item. sum + inv_currentStock item) 0 inventoryData;
            (doc, yPosition) = (if yPosition + 30 > 280 then (addPage doc, 30) else (doc, yPosition));
            doc = emits [SetFillColor 240 240 240,
                         Rect 15 (yPosition - 5) (pw - 30) 8,
                         SetFontSize 12, SetFont ''helvetica'' ''bold'',
                         Text ''Inventory Summary'' 20 yPosition AlignLeft] doc;
            yPosition = yPosition + 8;
            doc = emits [SetFontSize 10, SetFont ''helvetica'' ''normal'',
                         Text (''Total Items: '' @ numberToString rt (Num (of_nat totalItems)))
                              20 yPosition AlignLeft] doc;
            yPosition = yPosition + 6;
            doc = emit (Text (''Low Stock Items: '' @ numberToString rt (Num (of_nat lowStockItems)))
                             20 yPosition AlignLeft) doc;
            yPosition = yPosition + 6;
            doc = emit (Text (''Total Remaining: '' @ numberToString rt (Num totalRemaining))
                             20 yPosition AlignLeft) doc
        in doc)"

definition generateInventoryReportPDF ::
  "runtime \<Rightarrow> inventory_item list \<Rightarrow> jsval \<Rightarrow> jsval \<Rightarrow> string \<Rightarrow> doc" where
  "generateInventoryReportPDF rt inventoryData startDate endDate adminName =
     stampFooters rt adminName
       (inventory_summary rt inventoryData (inventory_table rt inventoryData startDate endDate))"

section \<open>generateReturnsReportPDF\<close>

text \<open>The optional text fields are \<open>None\<close> when undefined or null.\<close>

record return_row =
  return_id :: string
  sale_number :: string
  customer_name :: "string option"
  return_date :: jsval
  return_reason :: "string option"
  refund_amount :: jsval
  restocked :: jsval

text \<open>\<open>drawTableHeaders(y)\<close> of the returns report; the columns are at 15, 50, 80, 120, 150, 180.\<close>

definition returnsHeaderCmds :: "runtime \<Rightarrow> rat \<Rightarrow> cmd list" where
  "returnsHeaderCmds rt y =
     [SetFont ''helvetica'' ''bold'', SetFontSize 9,
      Text ''Return ID'' 15 y AlignLeft,
      Text ''Order ID'' 50 y AlignLeft,
      Text ''Customer'' 80 y AlignLeft,
      Text ''Date'' 120 y AlignLeft,
      Text ''Reason'' 150 y AlignLeft,
      Text ''Amount'' 180 y AlignLeft,
      SetLineWidth (1 / 2),
      Line 15 (y + 3) (pageWidth rt - 15) (y + 3)]"

definition returns_page_break :: "runtime \<Rightarrow> doc \<times> rat \<Rightarrow> doc \<times> rat" where
  "returns_page_break rt st =
     (case st of (doc, yPosition) \<Rightarrow>
        if yPosition > 270
        then (emits [SetFont ''helvetica'' ''normal'', SetFontSize 8]
                (emits (returnsHeaderCmds rt 20) (addPage doc)), 20 + 8)
        else (doc, yPosition))"

definition returns_row_cmds :: "runtime \<Rightarrow> nat \<Rightarrow> return_row \<Rightarrow> rat \<Rightarrow> cmd list" where
  "returns_row_cmds rt index item yPosition =
     (let customerName = truncate_or_na 20 (customer_name item);
          reason = truncate_or_na 15 (return_reason item)
      in (if index mod 2 = 0
          then [SetFillColor 245 245 245, Rect 15 (yPosition - 4) (pageWidth rt - 30) 6]
          else [])
         @ [SetTextColor [0, 0, 0],
            Text (return_id item) 15 yPosition AlignLeft,
            Text (sale_number item) 50 yPosition AlignLeft,
            Text customerName 80 yPosition AlignLeft,
            Text (formatDate rt (return_date item)) 120 yPosition AlignLeft,
            Text reason 150 yPosition AlignLeft,
            Text (formatCurrency rt (refund_amount item)) 180 yPosition AlignLeft])"

definition returns_row_step ::
  "runtime \<Rightarrow> nat \<Rightarrow> return_row \<Rightarrow> doc \<times> rat \<times> rat \<Rightarrow> doc \<times> rat \<times> rat" where
  "returns_row_step rt index item st =
     (case st of (doc, yPosition, totalRefundAmount) \<Rightarrow>
        (case returns_page_break rt (doc, yPosition) of (doc, yPosition) \<Rightarrow>
           (emits (returns_row_cmds rt index item yPosition) doc,
            yPosition + 6,
            totalRefundAmount + num_or_zero rt (refund_amount item))))"

fun returns_rows ::
  "runtime \<Rightarrow> nat \<Rightarrow> return_row list \<Rightarrow> doc \<times> rat \<times> rat \<Rightarrow> doc \<times> rat \<times> rat" where
  "returns_rows rt index [] st = st"
| "returns_rows rt index (item # rest) st =
     returns_rows rt (Suc index) rest (returns_row_step rt index item st)"

definition returns_table ::
  "runtime \<Rightarrow> return_row list \<Rightarrow> jsval \<Rightarrow> jsval \<Rightarrow> doc \<times> rat \<times> rat" where
  "returns_table rt returnsData startDate endDate =
     (case report_title rt ''Returns Report'' startDate endDate of (doc, yPosition) \<Rightarrow>
        let doc = emits (returnsHeaderCmds rt yPosition) doc;
            yPosition = yPosition + 8;
            doc = emits [SetFont ''helvetica'' ''normal'', SetFontSize 8] doc;
            totalRefundAmount = 0
        in returns_rows rt 0 returnsData (doc, yPosition, totalRefundAmount))"

definition returns_summary :: "runtime \<Rightarrow> return_row list \<Rightarrow> doc \<times> rat \<times> rat \<Rightarrow> doc" where
  "returns_summary rt returnsData st =
     (case st of (doc, yPosition, totalRefundAmount) \<Rightarrow>
        let pw = pageWidth rt;
            yPosition = yPosition + 5;
            doc = emit (Line 15 yPosition (pw - 15) yPosition) doc;
            yPosition = yPosition + 10;
            (doc, yPosition) = (if yPosition + 35 > 280 then (addPage doc, 30) else (doc, yPosition));
            doc = emits [SetFillColor 240 240 240,
                         Rect 15 (yPosition - 5) (pw - 30) 8,
                         SetFontSize 12, SetFont ''helvetica'' ''bold'',
                         Text ''Returns Summary'' 20 yPosition AlignLeft] doc;
            yPosition = yPosition + 8;
            totalReturns = length returnsData;
            defectiveReturns =
              length (filter (\<lambda>r. return_reason r = Some ''Defective/Damaged'') returnsData);
            restockedCount = length (filter (\<lambda>r. truthy (restocked r)) returnsData);
            doc = emits [SetFontSize 10, SetFont ''helvetica'' ''normal'',
                         Text (''Total Returns Processed: '' @ numberToString rt (Num (of_nat totalReturns)))
                              20 yPosition AlignLeft,
                         Text (''Total Refunded Amount: '' @ formatCurrency rt (jn totalRefundAmount))
                              (pw / 2 + 10) yPosition AlignLeft] doc;
            yPosition = yPosition + 6;
            doc = emits [Text (''Defective/Damaged Items: '' @ numberToString rt (Num (of_nat defectiveReturns)))
                              20 yPosition AlignLeft,
                         Text (''Items Restocked: '' @ numberToString rt (Num (of_nat restockedCount)))
                              (pw / 2 + 10) yPosition AlignLeft] doc
        in doc)"

definition generateReturnsReportPDF ::
  "runtime \<Rightarrow> return_row list \<Rightarrow> jsval \<Rightarrow> jsval \<Rightarrow> string \<Rightarrow> doc" where
  "generateReturnsReportPDF rt returnsData startDate endDate adminName =
     stampFooters rt adminName
       (returns_summary rt returnsData (returns_table rt returnsData startDate endDate))"

section \<open>generateSaleReceipt\<close>

text \<open>\<^verbatim>\<open>String(v)\<close> and template interpolation.\<close>

fun js_String :: "runtime \<Rightarrow> jsval \<Rightarrow> string" where
  "js_String rt JUndefined = ''undefined''"
| "js_String rt JNull = ''null''"
| "js_String rt (JBool b) = (if b then ''true'' else ''false'')"
| "js_String rt (JNumber n) = numberToString rt n"
| "js_String rt (JString s) = s"

text \<open>A destructuring default applies to an undefined argument only.\<close>

definition default_to :: "jsval \<Rightarrow> jsval \<Rightarrow> jsval" where
  "default_to v d = (if v = JUndefined then d else v)"

definition toLowerCase :: "string \<Rightarrow> string" where
  "toLowerCase s =
     map (\<lambda>c. if 65 \<le> (of_char c :: nat) \<and> (of_char c :: nat) \<le> 90
               then char_of ((of_char c :: nat) + 32) else c) s"

record receipt_item =
  it_name :: jsval
  it_product_name :: jsval
  it_productName :: jsval
  it_serialNumbers :: "string list option"
  it_serial_numbers :: "string list option"
  it_quantity :: jsval
  it_price :: jsval
  it_unitPrice :: jsval

record receipt_args =
  saleNumber :: jsval
  rc_customerName :: jsval
  rc_items :: "receipt_item list"
  rc_totalAmount :: jsval
  rc_paymentMethod :: jsval
  tenderedAmount :: jsval
  changeAmount :: jsval
  address :: jsval
  shippingOption :: jsval
  createdAt :: jsval

datatype error = TypeError

definition margin :: rat where "margin = 40"
definition FONT_SIZE_BODY :: rat where "FONT_SIZE_BODY = 10"
definition FONT_SIZE_SMALL :: rat where "FONT_SIZE_SMALL = 8"
definition FONT_SIZE_HEADER :: rat where "FONT_SIZE_HEADER = 12"
definition LINE_HEIGHT :: rat where "LINE_HEIGHT = 12 / 10 * FONT_SIZE_BODY"
definition SMALL_LINE_HEIGHT :: rat where "SMALL_LINE_HEIGHT = 12 / 10 * FONT_SIZE_SMALL"
definition minRowHeight :: rat where "minRowHeight = 25"

definition contentWidth :: "runtime \<Rightarrow> rat" where
  "contentWidth rt = pageWidthPt rt - margin * 2"

definition colAmt_Right :: "runtime \<Rightarrow> rat" where
  "colAmt_Right rt = pageWidthPt rt - margin - 5"

definition colUnit_Right :: "runtime \<Rightarrow> rat" where
  "colUnit_Right rt = colAmt_Right rt - 90"

definition colQty_Center :: "runtime \<Rightarrow> rat" where
  "colQty_Center rt = colUnit_Right rt - 45"

definition colName_Left :: rat where
  "colName_Left = margin + 5"

definition colName_Width :: "runtime \<Rightarrow> rat" where
  "colName_Width rt = colQty_Center rt - 25 - colName_Left"

text \<open>Company header, title and the two information panels; the result is the table's top.\<close>

definition receipt_head :: "runtime \<Rightarrow> receipt_args \<Rightarrow> string \<Rightarrow> doc \<times> rat" where
  "receipt_head rt args pm =
     (let doc = new_jsPDF;
          pw = pageWidthPt rt;
          y = margin;
          (doc, y) =
            (if logoDataUrl rt
             then (emit (AddImage ((pw - 80) / 2) y 80 59) doc, y + (59 + 10))
             else (doc, y));
          doc = emits [SetFont ''helvetica'' ''bold'', SetFontSize FONT_SIZE_HEADER,
                       Text ''TJC AUTO SUPPLY'' (pw / 2) y AlignCenter] doc;
          y = y + LINE_HEIGHT;
          doc = emits [SetFont ''helvetica'' ''normal'', SetFontSize FONT_SIZE_BODY,
                       Text ''General Hizon Avenue, Santa Lucia, City of San Fernando, Pampanga''
                            (pw / 2) y AlignCenter] doc;
          y = y + LINE_HEIGHT;
          doc = emit (Text ''0912 345 6789 | tjcautosupply@gmail.com'' (pw / 2) y AlignCenter) doc;
          y = y + 25;
          doc = emits [SetFont ''helvetica'' ''bold'', SetFontSize 16,
                       Text ''OFFICIAL RECEIPT'' (pw / 2) y AlignCenter] doc;
          y = y + 30;
          panel1_X = margin;
          panel2_X = margin + (contentWidth rt / 2) + 10;
          panelWidth = (contentWidth rt / 2) - 10;
          adminName = (case username rt of None \<Rightarrow> ''Admin''
                       | Some u \<Rightarrow> if u \<noteq> [] then u else ''Admin'');
          dateStr = toLocaleDateTime rt (createdAt args);
          y1 = y;
          addressLines =
            splitTextToSize rt
              (js_String rt
                 (js_or (default_to (address args) (JString []))
                    (if default_to (shippingOption args) (JString ''In-Store Pickup'')
                          = JString ''In-Store Pickup''
                     then JString ''In-Store Pickup'' else JString ''N/A'')))
              (panelWidth - 70);
          doc = emits [SetFont ''helvetica'' ''normal'', SetFontSize FONT_SIZE_BODY,
                       Text ''Order #:'' panel1_X y1 AlignLeft,
                       Text ''Customer:'' panel1_X (y1 + LINE_HEIGHT) AlignLeft,
                       Text ''Address:'' panel1_X (y1 + (LINE_HEIGHT * 2)) AlignLeft,
                       SetFont ''helvetica'' ''bold'',
                       Text (js_String rt (saleNumber args)) (panel1_X + 70) y1 AlignLeft,
                       Text (js_String rt (js_or (rc_customerName args) (JString ''N/A'')))
                            (panel1_X + 70) (y1 + LINE_HEIGHT) AlignLeft,
                       TextLines addressLines (panel1_X + 70) (y1 + (LINE_HEIGHT * 2))] doc;
          y2 = y;
          doc = emits [SetFont ''helvetica'' ''normal'',
                       Text ''Date:'' panel2_X y2 AlignLeft,
                       Text ''Cashier:'' panel2_X (y2 + LINE_HEIGHT) AlignLeft,
                       Text ''Payment:'' panel2_X (y2 + (LINE_HEIGHT * 2)) AlignLeft,
                       SetFont ''helvetica'' ''bold'',
                       Text dateStr (panel2_X + 80) y2 AlignLeft,
                       Text adminName (panel2_X + 80) (y2 + LINE_HEIGHT) AlignLeft,
                       Text pm (panel2_X + 80) (y2 + (LINE_HEIGHT * 2)) AlignLeft] doc;
          y = max (y1 + ((of_nat (length addressLines) + 1) * LINE_HEIGHT)) (y2 + (LINE_HEIGHT * 3)) + 20
      in (doc, y))"

text \<open>The column header of the items table, drawn once at \<open>tableHeaderY\<close>.\<close>

definition receiptHeaderCmds :: "runtime \<Rightarrow> rat \<Rightarrow> cmd list" where
  "receiptHeaderCmds rt tableHeaderY =
     [SetFillColor 241 243 245,
      Rect margin tableHeaderY (contentWidth rt) 20,
      SetFont ''helvetica'' ''bold'', SetFontSize FONT_SIZE_BODY,
      Text ''Item Description'' colName_Left (tableHeaderY + 14) AlignLeft,
      Text ''Qty'' (colQty_Center rt) (tableHeaderY + 14) AlignCenter,
      Text ''Unit Price'' (colUnit_Right rt) (tableHeaderY + 14) AlignRight,
      Text ''Amount'' (colAmt_Right rt) (tableHeaderY + 14) AlignRight]"

definition receipt_page_break :: "doc \<times> rat \<Rightarrow> doc \<times> rat" where
  "receipt_page_break st =
     (case st of (doc, y) \<Rightarrow> if y > 750 then (addPage doc, margin) else (doc, y))"

definition nameLines :: "runtime \<Rightarrow> receipt_item \<Rightarrow> string list" where
  "nameLines rt it =
     splitTextToSize rt
       (js_String rt (js_or (it_name it) (js_or (it_product_name it) (js_or (it_productName it) (JString [])))))
       (colName_Width rt)"

text \<open>\<open>join(', ')\<close>.\<close>

fun join_comma :: "string list \<Rightarrow> string" where
  "join_comma [] = []"
| "join_comma [x] = x"
| "join_comma (x # y # ys) = x @ '', '' @ join_comma (y # ys)"

definition serialLines :: "runtime \<Rightarrow> receipt_item \<Rightarrow> string list" where
  "serialLines rt it =
     (let serials = (case it_serialNumbers it of Some xs \<Rightarrow> xs
                     | None \<Rightarrow> (case it_serial_numbers it of Some ys \<Rightarrow> ys | None \<Rightarrow> []))
      in if length serials > 0
         then splitTextToSize rt (''Serials: '' @ join_comma serials) (colName_Width rt - 5)
         else [])"

definition nameHeight :: "runtime \<Rightarrow> receipt_item \<Rightarrow> rat" where
  "nameHeight rt it = of_nat (length (nameLines rt it)) * LINE_HEIGHT"

definition rowHeight :: "runtime \<Rightarrow> receipt_item \<Rightarrow> rat" where
  "rowHeight rt it =
     (let serialHeight = of_nat (length (serialLines rt it)) * SMALL_LINE_HEIGHT
      in max minRowHeight (nameHeight rt it + serialHeight + 10))"

definition it_qty :: "runtime \<Rightarrow> receipt_item \<Rightarrow> jsnum" where
  "it_qty rt it = Number rt (js_or (it_quantity it) (jn 0))"

definition it_unit :: "runtime \<Rightarrow> receipt_item \<Rightarrow> jsnum" where
  "it_unit rt it = Number rt (js_or (it_price it) (js_or (it_unitPrice it) (jn 0)))"

definition it_sub :: "runtime \<Rightarrow> receipt_item \<Rightarrow> jsnum" where
  "it_sub rt it = js_times (it_unit rt it) (it_qty rt it)"

definition receipt_row_cmds :: "runtime \<Rightarrow> receipt_item \<Rightarrow> rat \<Rightarrow> cmd list" where
  "receipt_row_cmds rt it y =
     (let yTextStart = y + 16
      in [SetFont ''helvetica'' ''normal'', SetFontSize FONT_SIZE_BODY,
          TextLines (nameLines rt it) colName_Left yTextStart]
         @ (if length (serialLines rt it) > 0
            then [SetFont ''helvetica'' ''italic'', SetFontSize FONT_SIZE_SMALL,
                  TextLines (serialLines rt it) (colName_Left + 5) (yTextStart + nameHeight rt it),
                  SetFont ''helvetica'' ''normal'', SetFontSize FONT_SIZE_BODY]
            else [])
         @ [Text (numberToString rt (it_qty rt it)) (colQty_Center rt) yTextStart AlignCenter,
            Text (peso rt (JNumber (it_unit rt it))) (colUnit_Right rt) yTextStart AlignRight,
            Text (peso rt (JNumber (it_sub rt it))) (colAmt_Right rt) yTextStart AlignRight,
            SetLineWidth (1 / 2),
            SetDrawColor 222 226 230,
            Line margin (y + rowHeight rt it) (pageWidthPt rt - margin) (y + rowHeight rt it)])"

definition receipt_row_step :: "runtime \<Rightarrow> receipt_item \<Rightarrow> doc \<times> rat \<Rightarrow> doc \<times> rat" where
  "receipt_row_step rt it st =
     (case receipt_page_break st of (doc, y) \<Rightarrow>
        (emits (receipt_row_cmds rt it y) doc, y + rowHeight rt it))"

fun receipt_rows :: "runtime \<Rightarrow> receipt_item list \<Rightarrow> doc \<times> rat \<Rightarrow> doc \<times> rat" where
  "receipt_rows rt [] st = st"
| "receipt_rows rt (it # rest) st = receipt_rows rt rest (receipt_row_step rt it st)"

definition receipt_table :: "runtime \<Rightarrow> receipt_args \<Rightarrow> string \<Rightarrow> doc \<times> rat" where
  "receipt_table rt args pm =
     (case receipt_head rt args pm of (doc, y) \<Rightarrow>
        let tableHeaderY = y;
            doc = emits (receiptHeaderCmds rt tableHeaderY) doc;
            y = tableHeaderY + 20;
            doc = emits [SetFont ''helvetica'' ''normal'', SetFontSize FONT_SIZE_BODY] doc
        in receipt_rows rt (rc_items args) (doc, y))"

definition receipt_totals :: "runtime \<Rightarrow> receipt_args \<Rightarrow> string \<Rightarrow> doc \<times> rat \<Rightarrow> doc" where
  "receipt_totals rt args pm st =
     (case st of (doc, y) \<Rightarrow>
        let totalAmount = default_to (rc_totalAmount args) (jn 0);
            tendered = default_to (tenderedAmount args) (jn 0);
            change = default_to (changeAmount args) (jn 0);
            y = y + 15;
            totalLabelX = contentWidth rt - 100;
            totalValueX = pageWidthPt rt - margin - 5;
            doc = emits [SetFont ''helvetica'' ''normal'', SetFontSize FONT_SIZE_BODY,
                         Text ''Subtotal:'' totalLabelX y AlignRight,
                         Text (peso rt totalAmount) totalValueX y AlignRight] doc;
            y = y + LINE_HEIGHT;
            (doc, y) =
              (if toLowerCase pm = ''cash'' \<and> js_gt (Number rt tendered) (Num 0)
               then (let doc = emits [Text ''Cash Tendered:'' totalLabelX y AlignRight,
                                      Text (peso rt tendered) totalValueX y AlignRight] doc;
                         y = y + LINE_HEIGHT;
                         doc = emits [Text ''Change:'' totalLabelX y AlignRight,
                                      Text (peso rt change) totalValueX y AlignRight] doc;
                         y = y + (LINE_HEIGHT * (15 / 10))
                     in (doc, y))
               else (doc, y));
            doc = emits [SetFont ''helvetica'' ''bold'', SetFontSize (FONT_SIZE_HEADER + 2),
                         Text ''TOTAL:'' totalLabelX y AlignRight,
                         Text (peso rt totalAmount) totalValueX y AlignRight] doc;
            y = y + (LINE_HEIGHT * 2);
            y = max y 800;
            doc = emits [SetFont ''helvetica'' ''italic'', SetFontSize FONT_SIZE_BODY,
                         Text ''Thank you for your purchase!'' (pageWidthPt rt / 2) y AlignCenter] doc
        in doc)"

text \<open>
  \<open>paymentMethod\<close> is interpolated into the information panel and then lower-cased; the
  method call raises a \<open>TypeError\<close> unless the value (after the default \<open>'Cash'\<close>) is a string.
\<close>

definition generateSaleReceipt :: "runtime \<Rightarrow> receipt_args \<Rightarrow> error + doc" where
  "generateSaleReceipt rt args =
     (case default_to (rc_paymentMethod args) (JString ''Cash'') of
        JString pm \<Rightarrow> Inr (receipt_totals rt args pm (receipt_table rt args pm))
      | _ \<Rightarrow> Inl TypeError)"

section \<open>ReportsController.getSalesReport: preparing the items of a sale\<close>

text \<open>
  A row of \<open>Sales.getSaleItems\<close>. The text columns are \<open>None\<close> when null; the numeric
  columns are values as the database driver returns them (numbers, decimal strings or null).
\<close>

record db_item =
  db_product_name :: "string option"
  db_brand :: "string option"
  db_quantity :: jsval
  db_returned_quantity :: jsval
  db_price :: jsval
  db_subtotal :: jsval

record db_sale =
  db_id :: jsval
  db_sale_number :: jsval
  db_customer_name :: jsval
  db_contact :: jsval
  db_total :: jsval
  db_payment :: jsval
  db_created_at :: jsval
  db_status :: jsval

text \<open>What the controller takes from the server's runtime.\<close>

record server_runtime =
  client :: runtime
  parseFloat :: "jsval \<Rightarrow> jsnum"
  plusEightHoursISO :: "jsval \<Rightarrow> string"

fun js_minus :: "jsnum \<Rightarrow> jsnum \<Rightarrow> jsnum" where
  "js_minus (Num a) (Num b) = Num (a - b)"
| "js_minus _ _ = NaN"

fun js_plus :: "jsnum \<Rightarrow> jsnum \<Rightarrow> jsnum" where
  "js_plus (Num a) (Num b) = Num (a + b)"
| "js_plus _ _ = NaN"

text \<open>\<^verbatim>\<open>a <= b\<close> on numbers.\<close>

fun js_le :: "jsnum \<Rightarrow> jsnum \<Rightarrow> bool" where
  "js_le (Num a) (Num b) = (a \<le> b)"
| "js_le _ _ = False"

text \<open>\<^verbatim>\<open>s || 'N/A'\<close> on an optional string.\<close>

definition or_na :: "string option \<Rightarrow> string" where
  "or_na f = (case f of None \<Rightarrow> ''N/A'' | Some s \<Rightarrow> if s \<noteq> [] then s else ''N/A'')"

definition actualQty :: "server_runtime \<Rightarrow> db_item \<Rightarrow> jsnum" where
  "actualQty srt item =
     (let returnedQty = js_or (db_returned_quantity item) (jn 0)
      in js_minus (Number (client srt) (js_or (db_quantity item) (jn 0)))
                  (Number (client srt) returnedQty))"

text \<open>The callback of \<open>items.map\<close>: \<open>None\<close> is the returned \<open>null\<close>.\<close>

definition prepare_item :: "server_runtime \<Rightarrow> db_item \<Rightarrow> sale_item option" where
  "prepare_item srt item =
     (if js_le (actualQty srt item) (Num 0) then None
      else (let actualPrice = js_times (Number (client srt) (js_or (db_price item) (jn 0)))
                                       (actualQty srt item)
            in Some \<lparr>productName = or_na (db_product_name item),
                      brand = or_na (db_brand item),
                      quantity = JNumber (actualQty srt item),
                      unitPrice = js_or (db_price item) (jn 0),
                      totalPrice = JNumber actualPrice\<rparr>))"

text \<open>\<^verbatim>\<open>items.map(...).filter(item => item !== null)\<close>\<close>

definition prepare_items :: "server_runtime \<Rightarrow> db_item list \<Rightarrow> sale_item list" where
  "prepare_items srt its = map the (filter (\<lambda>item. item \<noteq> None) (map (prepare_item srt) its))"

definition convertToPhilippineTime :: "server_runtime \<Rightarrow> jsval \<Rightarrow> jsval" where
  "convertToPhilippineTime srt utcDateString =
     (if \<not> truthy utcDateString then JNull else JString (plusEightHoursISO srt utcDateString))"

text \<open>
  One element of \<open>salesWithItems\<close>. The second argument is the outcome of
  \<open>Sales.getSaleItems(sale.id)\<close>; \<open>None\<close> is the caught failure, which adds the sale without
  items.
\<close>

definition prepare_sale :: "server_runtime \<Rightarrow> db_sale \<times> db_item list option \<Rightarrow> sale_order" where
  "prepare_sale srt p =
     (case p of (sale, fetched) \<Rightarrow>
        (case fetched of
           Some its \<Rightarrow>
             \<lparr>order_id = db_id sale,
              orderId = db_sale_number sale,
              customerName = db_customer_name sale,
              contact = db_contact sale,
              orderDate = convertToPhilippineTime srt (db_created_at sale),
              totalAmount = db_total sale,
              paymentMethod = db_payment sale,
              status = js_or (db_status sale) (JString ''N/A''),
              itemCount = length its,
              calculatedTotal =
                foldl (\<lambda>sum item. js_plus sum (parseFloat srt (js_or (db_subtotal item) (jn 0))))
                      (Num 0) its,
              items = prepare_items srt its\<rparr>
         | None \<Rightarrow>
             \<lparr>order_id = db_id sale,
              orderId = db_sale_number sale,
              customerName = db_customer_name sale,
              contact = db_contact sale,
              orderDate = convertToPhilippineTime srt (db_created_at sale),
              totalAmount = db_total sale,
              paymentMethod = db_payment sale,
              status = js_or (db_status sale) (JString ''N/A''),
              itemCount = 0,
              calculatedTotal = Num 0,
              items = []\<rparr>))"

section \<open>A reference runtime\<close>

text \<open>
  Concrete runtime functions for evaluating the generators on sample inputs. Numbers are
  formatted as the \<open>en-US\<close> and \<open>en-PH\<close> locales do with two fraction digits (rounding half away
  from zero, groups of three digits); integers print in decimal; date strings are shown as
  given; text is not wrapped; the page widths are those of an A4 sheet (595.28 pt).
\<close>

definition digit_char :: "int \<Rightarrow> char" where
  "digit_char d = ''0123456789'' ! nat d"

function digits_of :: "int \<Rightarrow> string" where
  "digits_of n = (if n < 10 then [digit_char n] else digits_of (n div 10) @ [digit_char (n mod 10)])"
  by pat_completeness auto
termination
  by (relation "measure nat") auto

fun group3_rev :: "string \<Rightarrow> string" where
  "group3_rev (a # b # c # d # rest) = a # b # c # CHR '','' # group3_rev (d # rest)"
| "group3_rev xs = xs"

definition group3 :: "string \<Rightarrow> string" where
  "group3 s = rev (group3_rev (rev s))"

definition two_decimals :: "rat \<Rightarrow> string" where
  "two_decimals q =
     (let cents = \<lfloor>\<bar>q\<bar> * 100 + 1 / 2\<rfloor>
      in (if q < 0 then ''-'' else [])
         @ group3 (digits_of (cents div 100))
         @ ''.'' @ [digit_char (cents mod 100 div 10), digit_char (cents mod 10)])"

fun frac_digits :: "nat \<Rightarrow> rat \<Rightarrow> string" where
  "frac_digits 0 r = []"
| "frac_digits (Suc n) r =
     (if r = 0 then []
      else (let d = \<lfloor>r * 10\<rfloor> in digit_char d # frac_digits n (r * 10 - of_int d)))"

fun decimal_string :: "jsnum \<Rightarrow> string" where
  "decimal_string NaN = ''NaN''"
| "decimal_string (Num q) =
     (let whole = \<lfloor>\<bar>q\<bar>\<rfloor>; r = \<bar>q\<bar> - of_int whole
      in (if q < 0 then ''-'' else []) @ digits_of whole
         @ (if r = 0 then [] else ''.'' @ frac_digits 17 r))"

declare digits_of.simps [simp del]

declare decimal_string.simps [simp del]

fun parse_decimal :: "string \<Rightarrow> jsnum" where
  "parse_decimal s =
     (let whole = takeWhile is_digit s; rest = dropWhile is_digit s
      in if s = [] then Num 0
         else if whole = [] then NaN
         else if rest = [] then Num (of_nat (digits_value whole))
         else if hd rest = CHR ''.'' \<and> tl rest \<noteq> [] \<and> list_all is_digit (tl rest)
         then Num (of_nat (digits_value whole) + of_nat (digits_value (tl rest)) / 10 ^ length (tl rest))
         else NaN)"

definition reference_runtime :: runtime where
  "reference_runtime =
     \<lparr>pageWidth = 59528 / 100 * (254 / 10) / 72,
      pageWidthPt = 59528 / 100,
      logoDataUrl = False,
      StringToNumber = parse_decimal,
      toLocaleString = (\<lambda>v loc. two_decimals v),
      numberToString = decimal_string,
      toLocaleDateString = (\<lambda>v. case v of JString s \<Rightarrow> s | _ \<Rightarrow> ''Invalid Date''),
      formatPeriodText = (\<lambda>s e label. label),
      today = ''2026-01-15'',
      toLocaleDateTime = (\<lambda>v. case v of JString s \<Rightarrow> s | _ \<Rightarrow> ''Invalid Date''),
      splitTextToSize = (\<lambda>s w. [s]),
      username = None\<rparr>"

definition reference_server :: server_runtime where
  "reference_server =
     \<lparr>client = reference_runtime,
      parseFloat = (\<lambda>v. case v of JNumber n \<Rightarrow> n | JString s \<Rightarrow> parse_decimal s | _ \<Rightarrow> NaN),
      plusEightHoursISO = (\<lambda>v. case v of JString s \<Rightarrow> s | _ \<Rightarrow> ''Invalid Date'')\<rparr>"

section \<open>Sample inputs\<close>

text \<open>One completed order with two products sold five times each.\<close>

definition two_tied_products :: "sale_order list" where
  "two_tied_products =
     [\<lparr>order_id = jn 1, orderId = JString ''S-1'', customerName = JString ''Ana'', contact = JNull,
       orderDate = JNull, totalAmount = jn 100, paymentMethod = JString ''Cash'',
       status = JString ''Completed'', itemCount = 2, calculatedTotal = Num 100,
       items = [\<lparr>productName = ''Brake Pad'', brand = ''N/A'', quantity = jn 5,
                 unitPrice = jn 10, totalPrice = jn 50\<rparr>,
                \<lparr>productName = ''Oil Filter'', brand = ''N/A'', quantity = jn 5,
                 unitPrice = jn 10, totalPrice = jn 50\<rparr>]\<rparr>]"

text \<open>A sale as fetched, with the fully returned items taken out beforehand.\<close>

definition without_returned ::
  "server_runtime \<Rightarrow> db_sale \<times> db_item list option \<Rightarrow> db_sale \<times> db_item list option" where
  "without_returned srt p =
     (case p of (sale, fetched) \<Rightarrow>
        (sale, map_option (filter (\<lambda>item. \<not> js_le (actualQty srt item) (Num 0))) fetched))"

text \<open>A sale of two items of which the first was returned in full.\<close>

definition returned_sale :: "db_sale \<times> db_item list option" where
  "returned_sale =
     (\<lparr>db_id = jn 7, db_sale_number = JString ''S-7'', db_customer_name = JString ''Ben'',
       db_contact = JNull, db_total = JString ''300.00'', db_payment = JString ''Cash'',
       db_created_at = JNull, db_status = JString ''Partially Returned''\<rparr>,
      Some [\<lparr>db_product_name = Some ''Spark Plug'', db_brand = Some ''NGK'', db_quantity = jn 2,
             db_returned_quantity = jn 2, db_price = JString ''50.00'', db_subtotal = JString ''100.00''\<rparr>,
            \<lparr>db_product_name = Some ''Wiper'', db_brand = None, db_quantity = jn 3,
             db_returned_quantity = jn 1, db_price = JString ''100.00'', db_subtotal = JString ''300.00''\<rparr>])"

text \<open>Rows with a long product name, a long customer name and an empty customer name.\<close>

definition long_named_row :: sales_row where
  "long_named_row =
     \<lparr>row_orderId = JString ''S-1'', row_customerName = JNull, row_orderDate = ''N/A'',
      row_productName = ''Heavy Duty Ceramic Brake Pad Set Front X'',
      row_quantity = 1, row_unitPrice = 100, row_totalPrice = 100\<rparr>"

definition sample_return :: return_row where
  "sample_return =
     \<lparr>return_id = ''R-1'', sale_number = ''S-1'', customer_name = Some ''Maria Cristina Dela Cruz Jr'',
      return_date = JNull, return_reason = Some ''Changed mind'', refund_amount = JString ''150.00'',
      restocked = JBool True\<rparr>"

definition anonymous_return :: return_row where
  "anonymous_return =
     \<lparr>return_id = ''R-2'', sale_number = ''S-2'', customer_name = Some [],
      return_date = JNull, return_reason = None, refund_amount = JNull,
      restocked = JBool False\<rparr>"

section \<open>Views of a document used in the properties\<close>

text \<open>
  A document whose selected page is the last one, given by its finished pages and the page
  being drawn; a document \<open>extends\<close> another if it has all of its pages, each possibly
  continued; a single-line text call lies at or above a baseline limit; the cells drawn in the
  Total column (at 160) of the sales report, without the column label.
\<close>

definition mk_doc :: "cmd list list \<Rightarrow> cmd list \<Rightarrow> doc" where
  "mk_doc ps p = \<lparr>pages = ps @ [p], cur = length ps\<rparr>"

definition extends :: "doc \<Rightarrow> doc \<Rightarrow> bool" where
  "extends d d' =
     (length (pages d) \<le> length (pages d')
      \<and> (\<forall>i < length (pages d). prefix (pages d ! i) (pages d' ! i)))"

definition baseline_at_most :: "rat \<Rightarrow> cmd \<Rightarrow> bool" where
  "baseline_at_most limit c =
     (case c of Text s x y a \<Rightarrow> y \<le> limit | _ \<Rightarrow> True)"

fun total_cell :: "cmd \<Rightarrow> string option" where
  "total_cell (Text s x y a) = (if x = 160 \<and> s \<noteq> ''Total'' then Some s else None)"
| "total_cell _ = None"


text \<open>The cursor below the optional logo of a report.\<close>

definition report_top :: "runtime \<Rightarrow> rat" where
  "report_top rt = (if logoDataUrl rt then 20 + (22 + 5) else 20)"

text \<open>The calls of the Grand Total row drawn from cursor \<open>y\<close>, and of the summary panel at \<open>y\<close>.\<close>

definition grandTotalCmds :: "runtime \<Rightarrow> rat \<Rightarrow> rat \<Rightarrow> cmd list" where
  "grandTotalCmds rt y grandTotal =
     [SetLineWidth (1 / 2),
      Line 15 (y + 2) (pageWidth rt - 15) (y + 2),
      SetFont ''helvetica'' ''bold'', SetFontSize 9,
      Text ''Grand Total:'' 130 (y + 8) AlignLeft,
      Text (formatCurrency rt (jn grandTotal)) 160 (y + 8) AlignLeft]"

definition summaryCmds :: "runtime \<Rightarrow> sale_order list \<Rightarrow> sales_row list \<Rightarrow> rat \<Rightarrow> cmd list" where
  "summaryCmds rt filteredOrders flattened y =
     [SetFillColor 240 240 240,
      Rect 15 (y - 5) (pageWidth rt - 30) 8,
      SetFontSize 10, SetFont ''helvetica'' ''bold'',
      Text ''Sales Summary'' (pageWidth rt / 2) y AlignCenter,
      SetFont ''helvetica'' ''normal'', SetFontSize 9,
      Text (''Total Revenue: '' @ formatCurrency rt (jn (totalRevenue rt filteredOrders))) 20 (y + 8) AlignLeft,
      Text (''Avg Transaction Value: '' @ formatCurrency rt (jn (avgTransactionValue rt filteredOrders)))
           (pageWidth rt / 2 + 10) (y + 8) AlignLeft,
      Text (''Total Items Sold: '' @ numberToString rt (Num (totalItems flattened))) 20 (y + 14) AlignLeft,
      Text (''Best Selling Product: '' @ bestSellingProduct (productCounts flattened))
           (pageWidth rt / 2 + 10) (y + 14) AlignLeft,
      Text (''Total Transactions: '' @ numberToString rt (Num (of_nat (totalTransactions filteredOrders))))
           20 (y + 20) AlignLeft]"

text \<open>The first page of the sales report down to the column header.\<close>

definition salesFirstPage :: "runtime \<Rightarrow> jsval \<Rightarrow> jsval \<Rightarrow> string \<Rightarrow> cmd list" where
  "salesFirstPage rt startDate endDate rangeLabel =
     (if logoDataUrl rt then [AddImage ((pageWidth rt - 30) / 2) 20 30 22] else [])
     @ [SetFontSize 18, SetFont ''helvetica'' ''bold'',
        Text ''Sales Report'' (pageWidth rt / 2) (report_top rt) AlignCenter,
        SetFontSize 10, SetFont ''helvetica'' ''normal'',
        Text (''Period: '' @ formatPeriodText rt startDate endDate rangeLabel)
             (pageWidth rt / 2) (report_top rt + 7) AlignCenter,
        SetFontSize 9, SetFont ''helvetica'' ''bold'']
     @ tableHeaderCmds rt (report_top rt + 17)
     @ [SetFont ''helvetica'' ''normal'', SetFontSize 8]"


text \<open>An order without items.\<close>

definition order_without_items :: sale_order where
  "order_without_items =
     \<lparr>order_id = jn 3, orderId = JString ''S-3'', customerName = JString ''Cara'', contact = JNull,
      orderDate = JNull, totalAmount = jn 100, paymentMethod = JString ''Cash'',
      status = JString ''Completed'', itemCount = 0, calculatedTotal = Num 0, items = []\<rparr>"

text \<open>The cursor of the receipt's information panels, below the company header and the title.\<close>

definition receipt_info_top :: "runtime \<Rightarrow> rat" where
  "receipt_info_top rt = (if logoDataUrl rt then 40 + (59 + 10) else 40) + 12 + 12 + 25 + 30"

text \<open>The address shown on the receipt, before wrapping.\<close>

definition receipt_address :: "runtime \<Rightarrow> receipt_args \<Rightarrow> string" where
  "receipt_address rt args =
     js_String rt
       (js_or (default_to (address args) (JString []))
          (if default_to (shippingOption args) (JString ''In-Store Pickup'') = JString ''In-Store Pickup''
           then JString ''In-Store Pickup'' else JString ''N/A''))"

text \<open>The calls of the left information panel (order number, customer, address) at \<open>y1\<close>.\<close>

definition receiptPanelCmds :: "runtime \<Rightarrow> receipt_args \<Rightarrow> rat \<Rightarrow> cmd list" where
  "receiptPanelCmds rt args y1 =
     [SetFont ''helvetica'' ''normal'', SetFontSize 10,
      Text ''Order #:'' 40 y1 AlignLeft,
      Text ''Customer:'' 40 (y1 + 12) AlignLeft,
      Text ''Address:'' 40 (y1 + 24) AlignLeft,
      SetFont ''helvetica'' ''bold'',
      Text (js_String rt (saleNumber args)) 110 y1 AlignLeft,
      Text (js_String rt (js_or (rc_customerName args) (JString ''N/A''))) 110 (y1 + 12) AlignLeft,
      TextLines (splitTextToSize rt (receipt_address rt args) (contentWidth rt / 2 - 10 - 70))
                110 (y1 + 24)]"

text \<open>The receipt's first page down to the end of the information panels.\<close>

definition receiptHeadCmds :: "runtime \<Rightarrow> receipt_args \<Rightarrow> string \<Rightarrow> cmd list" where
  "receiptHeadCmds rt args pm =
     (let pw = pageWidthPt rt; t = (if logoDataUrl rt then 109 else 40); y1 = receipt_info_top rt;
          p2 = 50 + contentWidth rt / 2
      in (if logoDataUrl rt then [AddImage ((pw - 80) / 2) 40 80 59] else [])
         @ [SetFont ''helvetica'' ''bold'', SetFontSize 12,
            Text ''TJC AUTO SUPPLY'' (pw / 2) t AlignCenter,
            SetFont ''helvetica'' ''normal'', SetFontSize 10,
            Text ''General Hizon Avenue, Santa Lucia, City of San Fernando, Pampanga''
                 (pw / 2) (t + 12) AlignCenter,
            Text ''0912 345 6789 | tjcautosupply@gmail.com'' (pw / 2) (t + 24) AlignCenter,
            SetFont ''helvetica'' ''bold'', SetFontSize 16,
            Text ''OFFICIAL RECEIPT'' (pw / 2) (t + 49) AlignCenter]
         @ receiptPanelCmds rt args y1
         @ [SetFont ''helvetica'' ''normal'',
            Text ''Date:'' p2 y1 AlignLeft,
            Text ''Cashier:'' p2 (y1 + 12) AlignLeft,
            Text ''Payment:'' p2 (y1 + 24) AlignLeft,
            SetFont ''helvetica'' ''bold'',
            Text (toLocaleDateTime rt (createdAt args)) (p2 + 80) y1 AlignLeft,
            Text (case username rt of None \<Rightarrow> ''Admin'' | Some u \<Rightarrow> if u \<noteq> [] then u else ''Admin'')
                 (p2 + 80) (y1 + 12) AlignLeft,
            Text pm (p2 + 80) (y1 + 24) AlignLeft])"

text \<open>The top of the items table.\<close>

definition receipt_table_top :: "runtime \<Rightarrow> receipt_args \<Rightarrow> rat" where
  "receipt_table_top rt args =
     max (receipt_info_top rt
            + (of_nat (length (splitTextToSize rt (receipt_address rt args) (contentWidth rt / 2 - 10 - 70))) + 1) * 12)
         (receipt_info_top rt + 36) + 20"

text \<open>The calls of the totals section drawn from cursor \<open>y\<close>.\<close>

definition receiptTotalsCmds :: "runtime \<Rightarrow> receipt_args \<Rightarrow> string \<Rightarrow> rat \<Rightarrow> cmd list" where
  "receiptTotalsCmds rt args pm y =
     (let totalAmount = default_to (rc_totalAmount args) (jn 0);
          lx = contentWidth rt - 100; vx = pageWidthPt rt - 40 - 5;
          cash = (toLowerCase pm = ''cash''
                  \<and> js_gt (Number rt (default_to (tenderedAmount args) (jn 0))) (Num 0));
          y2 = (if cash then y + 15 + 12 + 12 + 18 else y + 15 + 12)
      in [SetFont ''helvetica'' ''normal'', SetFontSize 10,
          Text ''Subtotal:'' lx (y + 15) AlignRight,
          Text (peso rt totalAmount) vx (y + 15) AlignRight]
         @ (if cash
            then [Text ''Cash Tendered:'' lx (y + 27) AlignRight,
                  Text (peso rt (default_to (tenderedAmount args) (jn 0))) vx (y + 27) AlignRight,
                  Text ''Change:'' lx (y + 39) AlignRight,
                  Text (peso rt (default_to (changeAmount args) (jn 0))) vx (y + 39) AlignRight]
            else [])
         @ [SetFont ''helvetica'' ''bold'', SetFontSize 14,
            Text ''TOTAL:'' lx y2 AlignRight,
            Text (peso rt totalAmount) vx y2 AlignRight,
            SetFont ''helvetica'' ''italic'', SetFontSize 10,
            Text ''Thank you for your purchase!'' (pageWidthPt rt / 2) (max (y2 + 24) 800) AlignCenter])"

text \<open>A walk-in sale without customer name and address, and a sale whose stated total (5)
  is not the amount of its single line (1 x 10).\<close>

definition walk_in_receipt :: receipt_args where
  "walk_in_receipt =
     \<lparr>saleNumber = JString ''S-9'', rc_customerName = JNull, rc_items = [],
      rc_totalAmount = JUndefined, rc_paymentMethod = JUndefined, tenderedAmount = JUndefined,
      changeAmount = JUndefined, address = JUndefined, shippingOption = JUndefined,
      createdAt = JString ''2026-01-15''\<rparr>"

definition mismatched_receipt :: receipt_args where
  "mismatched_receipt =
     \<lparr>saleNumber = JString ''S-10'', rc_customerName = JString ''Ana'',
      rc_items = [\<lparr>it_name = JString ''Battery'', it_product_name = JUndefined,
                   it_productName = JUndefined, it_serialNumbers = None, it_serial_numbers = None,
                   it_quantity = jn 1, it_price = jn 10, it_unitPrice = JUndefined\<rparr>],
      rc_totalAmount = jn 5, rc_paymentMethod = JString ''GCash'', tenderedAmount = JUndefined,
      changeAmount = JUndefined, address = JString ''San Fernando'', shippingOption = JString ''Delivery'',
      createdAt = JString ''2026-01-15''\<rparr>"

lemmas receipt_consts =
  margin_def FONT_SIZE_BODY_def FONT_SIZE_SMALL_def FONT_SIZE_HEADER_def LINE_HEIGHT_def
  SMALL_LINE_HEIGHT_def minRowHeight_def

text \<open>An order of thirty-eight items.\<close>

definition order_of_38 :: sale_order where
  "order_of_38 =
     \<lparr>order_id = jn 4, orderId = JString ''S-4'', customerName = JString ''Dan'', contact = JNull,
      orderDate = JNull, totalAmount = jn 3800, paymentMethod = JString ''Cash'',
      status = JString ''Completed'', itemCount = 38, calculatedTotal = Num 3800,
      items = replicate 38 \<lparr>productName = ''Battery'', brand = ''N/A'', quantity = jn 1,
                             unitPrice = jn 100, totalPrice = jn 100\<rparr>\<rparr>"

text \<open>Thirty-nine rows for each report: one more than fits on the first page.\<close>

definition order_of_39 :: sale_order where
  "order_of_39 =
     \<lparr>order_id = jn 5, orderId = JString ''S-5'', customerName = JString ''Eva'', contact = JNull,
      orderDate = JNull, totalAmount = jn 3900, paymentMethod = JString ''Cash'',
      status = JString ''Completed'', itemCount = 39, calculatedTotal = Num 3900,
      items = replicate 38 \<lparr>productName = ''Battery'', brand = ''N/A'', quantity = jn 1,
                              unitPrice = jn 100, totalPrice = jn 100\<rparr>
              @ [\<lparr>productName = ''Battery'', brand = ''N/A'', quantity = jn 1,
                  unitPrice = jn 100, totalPrice = jn 100\<rparr>]\<rparr>"

definition stock_of_39 :: "inventory_item list" where
  "stock_of_39 =
     replicate 38 \<lparr>inv_productName = ''Battery'', inv_category = ''Electrical'', inv_brand = ''N/A'',
                    inv_currentStock = 4, inv_stockStatus = ''In Stock''\<rparr>
     @ [\<lparr>inv_productName = ''Battery'', inv_category = ''Electrical'', inv_brand = ''N/A'',
         inv_currentStock = 4, inv_stockStatus = ''In Stock''\<rparr>]"

definition returns_of_39 :: "return_row list" where
  "returns_of_39 = replicate 38 sample_return @ [sample_return]"

text \<open>A receipt of twenty-four one-line items: the last one no longer fits the first page.\<close>

definition battery_line :: receipt_item where
  "battery_line =
     \<lparr>it_name = JString ''Battery'', it_product_name = JUndefined, it_productName = JUndefined,
      it_serialNumbers = None, it_serial_numbers = None,
      it_quantity = jn 1, it_price = jn 10, it_unitPrice = JUndefined\<rparr>"

definition receipt_of_24 :: receipt_args where
  "receipt_of_24 =
     \<lparr>saleNumber = JString ''S-24'', rc_customerName = JString ''Ana'',
      rc_items = replicate 23 battery_line @ [battery_line],
      rc_totalAmount = jn 240, rc_paymentMethod = JString ''GCash'', tenderedAmount = JUndefined,
      changeAmount = JUndefined, address = JString ''San Fernando'', shippingOption = JString ''Delivery'',
      createdAt = JString ''2026-01-15''\<rparr>"

text \<open>The strings a page shows.\<close>

fun labels_of :: "cmd \<Rightarrow> string list" where
  "labels_of (Text s x y a) = [s]"
| "labels_of (TextLines ls x y) = ls"
| "labels_of _ = []"

definition page_texts :: "cmd list \<Rightarrow> string list" where
  "page_texts p = concat (map labels_of p)"

text \<open>The column header block as redrawn on a new page of the inventory report.\<close>

definition inventoryHeaderCmds :: "runtime \<Rightarrow> cmd list" where
  "inventoryHeaderCmds rt =
     SetFont ''helvetica'' ''bold'' # inventoryLabelCmds 20 @ [Line 15 23 (pageWidth rt - 15) 23]"

section \<open>Properties of the drawing surface\<close>

lemma at_last_new [simp]: "at_last new_jsPDF"
  by (simp add: at_last_def new_jsPDF_def)

lemma pages_new [simp]: "pages new_jsPDF = [[]]"
  by (simp add: new_jsPDF_def)

lemma pages_emit:
  assumes "at_last d"
  shows "pages (emit c d) = butlast (pages d) @ [last (pages d) @ [c]]"
proof -
  from assms obtain ps p where ps: "pages d = ps @ [p]" and c: "cur d = length ps"
    by (cases "pages d" rule: rev_cases) (auto simp: at_last_def)
  then show ?thesis by (simp add: emit_def)
qed

lemma at_last_emit [simp]: "at_last d \<Longrightarrow> at_last (emit c d)"
  by (simp add: at_last_def emit_def)

lemma at_last_emits [simp]: "at_last d \<Longrightarrow> at_last (emits cs d)"
  unfolding emits_def by (induction cs arbitrary: d) simp_all

lemma pages_emits:
  "at_last d \<Longrightarrow> pages (emits cs d) = butlast (pages d) @ [last (pages d) @ cs]"
  unfolding emits_def
proof (induction cs arbitrary: d)
  case Nil
  then show ?case by (simp add: at_last_def)
next
  case (Cons c cs)
  then show ?case by (simp add: pages_emit)
qed

lemma pages_addPage [simp]: "pages (addPage d) = pages d @ [[]]"
  by (simp add: addPage_def)

lemma at_last_addPage [simp]: "at_last (addPage d)"
  by (simp add: at_last_def addPage_def)

lemma pages_nonempty: "at_last d \<Longrightarrow> pages d \<noteq> []"
  by (simp add: at_last_def)

lemma stream_emits: "at_last d \<Longrightarrow> stream (emits cs d) = stream d @ cs"
proof -
  assume a: "at_last d"
  then obtain ps p where ps: "pages d = ps @ [p]"
    by (cases "pages d" rule: rev_cases) (auto simp: at_last_def)
  with a show ?thesis by (simp add: stream_def pages_emits)
qed

lemma stream_emit: "at_last d \<Longrightarrow> stream (emit c d) = stream d @ [c]"
  using stream_emits [of d "[c]"] by (simp add: emits_def)

lemma stream_addPage [simp]: "stream (addPage d) = stream d"
  by (simp add: stream_def)

text \<open>The footer pass appends its block to every page.\<close>

lemma pages_setPage_emits:
  assumes "0 < i" "i \<le> length (pages d)"
  shows "pages (emits cs (setPage i d)) = (pages d)[i - 1 := pages d ! (i - 1) @ cs]"
    and "length (pages (emits cs (setPage i d))) = length (pages d)"
proof -
  have gen: "\<And>d. cur d < length (pages d) \<Longrightarrow>
     pages (fold emit cs d) = (pages d)[cur d := pages d ! cur d @ cs] \<and> cur (fold emit cs d) = cur d"
  proof (induction cs)
    case Nil
    then show ?case by simp
  next
    case (Cons c cs)
    have "cur (emit c d) < length (pages (emit c d))" using Cons.prems by (simp add: emit_def)
    from Cons.IH [OF this] show ?case using Cons.prems by (simp add: emit_def)
  qed
  have "cur (setPage i d) < length (pages (setPage i d))" using assms by (simp add: setPage_def)
  from gen [OF this] show "pages (emits cs (setPage i d)) = (pages d)[i - 1 := pages d ! (i - 1) @ cs]"
    by (simp add: emits_def setPage_def)
  then show "length (pages (emits cs (setPage i d))) = length (pages d)" by simp
qed

lemma upd_map_upt:
  "k < n \<Longrightarrow> (map (\<lambda>j. if j < k then f j else g j) [0 ..< n])[k := f k]
     = map (\<lambda>j. if j < Suc k then f j else g j) [0 ..< n]"
  by (auto simp: list_eq_iff_nth_eq nth_list_update less_Suc_eq)

lemma stamp_fold:
  "k \<le> length (pages d) \<Longrightarrow>
   pages (fold (\<lambda>i d. emits (F i) (setPage i d)) [1 ..< k + 1] d)
     = map (\<lambda>j. if j < k then pages d ! j @ F (Suc j) else pages d ! j) [0 ..< length (pages d)]"
proof (induction k)
  case 0
  then show ?case by (simp add: map_nth)
next
  case (Suc k)
  define e where "e = fold (\<lambda>i d. emits (F i) (setPage i d)) [1 ..< k + 1] d"
  have IH: "pages e = map (\<lambda>j. if j < k then pages d ! j @ F (Suc j) else pages d ! j) [0 ..< length (pages d)]"
    using Suc by (simp add: e_def)
  then have len: "length (pages e) = length (pages d)" by simp
  have k: "k < length (pages d)" using Suc.prems by simp
  have nth: "pages e ! k = pages d ! k" using k by (simp add: IH)
  have "pages (emits (F (Suc k)) (setPage (Suc k) e)) = (pages e)[k := pages e ! k @ F (Suc k)]"
    using pages_setPage_emits(1) [of "Suc k" e "F (Suc k)"] k len by simp
  also have "\<dots> = (pages e)[k := pages d ! k @ F (Suc k)]" by (simp only: nth)
  also have "\<dots> = map (\<lambda>j. if j < Suc k then pages d ! j @ F (Suc j) else pages d ! j) [0 ..< length (pages d)]"
    unfolding IH using upd_map_upt [OF k, of "\<lambda>j. pages d ! j @ F (Suc j)" "\<lambda>j. pages d ! j"] by simp
  finally have "pages (emits (F (Suc k)) (setPage (Suc k) e))
     = map (\<lambda>j. if j < Suc k then pages d ! j @ F (Suc j) else pages d ! j) [0 ..< length (pages d)]" .
  moreover have "fold (\<lambda>i d. emits (F i) (setPage i d)) [1 ..< Suc k + 1] d = emits (F (Suc k)) (setPage (Suc k) e)"
    by (simp add: e_def)
  ultimately show ?case by simp
qed

lemma pages_stampFooters:
  "pages (stampFooters rt a d)
     = map (\<lambda>j. pages d ! j @ footerCmds rt a (Suc j) (length (pages d))) [0 ..< length (pages d)]"
  unfolding stampFooters_def getNumberOfPages_def Let_def
  using stamp_fold [of "length (pages d)" d "\<lambda>i. footerCmds rt a i (length (pages d))"]
  by simp

section \<open>The best-selling product\<close>

lemma set_Object_keys: "set (Object_keys m) = fst ` set m"
  by (auto simp: Object_keys_def Let_def)

lemma count_of_key: "k \<in> set (Object_keys m) \<Longrightarrow> \<exists>q. count_of m k = Num q"
proof -
  assume "k \<in> set (Object_keys m)"
  then have "k \<in> fst ` set m" by (simp add: set_Object_keys)
  then have "map_of m k \<noteq> None" by (simp add: map_of_eq_None_iff)
  then show ?thesis by (auto simp: count_of_def)
qed

lemma reduce_step:
  fixes c :: "string \<Rightarrow> jsnum"
  assumes numks: "\<forall>k\<in>set ks. \<exists>q. c k = Num q" and qb: "c b = Num qb"
    and inv: "(\<exists>pre post. ks = pre @ r # post
                \<and> (\<forall>k\<in>set pre. \<not> js_gt (c k) (c r)) \<and> (\<forall>k\<in>set post. js_gt (c r) (c k)))
              \<or> (r = s \<and> (\<forall>k\<in>set ks. js_gt (c s) (c k)))"
    and r': "r' = (if js_gt (c r) (c b) then r else b)"
  shows "(\<exists>pre post. ks @ [b] = pre @ r' # post
            \<and> (\<forall>k\<in>set pre. \<not> js_gt (c k) (c r')) \<and> (\<forall>k\<in>set post. js_gt (c r') (c k)))
         \<or> (r' = s \<and> (\<forall>k\<in>set (ks @ [b]). js_gt (c s) (c k)))"
proof (cases "js_gt (c r) (c b)")
  case True
  then have res: "r' = r" using r' by simp
  from inv show ?thesis
  proof (elim disjE exE conjE)
    fix pre post
    assume ks: "ks = pre @ r # post" and A: "\<forall>k\<in>set pre. \<not> js_gt (c k) (c r)"
      and B: "\<forall>k\<in>set post. js_gt (c r) (c k)"
    have "ks @ [b] = pre @ r # (post @ [b])" using ks by simp
    moreover have "\<forall>k\<in>set (post @ [b]). js_gt (c r) (c k)" using B True by simp
    ultimately show ?thesis using A unfolding res by blast
  next
    assume "r = s" and "\<forall>k\<in>set ks. js_gt (c s) (c k)"
    then show ?thesis using True res by simp
  qed
next
  case False
  then have res: "r' = b" using r' by simp
  have below: "\<forall>k\<in>set ks. \<not> js_gt (c k) (c b)"
  proof
    fix k assume k: "k \<in> set ks"
    with numks obtain qk where qk: "c k = Num qk" by auto
    from inv show "\<not> js_gt (c k) (c b)"
    proof (elim disjE exE conjE)
      fix pre post
      assume ks: "ks = pre @ r # post" and A: "\<forall>k\<in>set pre. \<not> js_gt (c k) (c r)"
        and B: "\<forall>k\<in>set post. js_gt (c r) (c k)"
      have "r \<in> set ks" using ks by simp
      with numks obtain qr where qr: "c r = Num qr" by auto
      have le: "qr \<le> qb" using False qr qb by simp
      from k ks have "k \<in> set pre \<or> k = r \<or> k \<in> set post" by auto
      then have "qk \<le> qr"
      proof (elim disjE)
        assume "k \<in> set pre"
        with A have "\<not> js_gt (c k) (c r)" by blast
        then show ?thesis using qk qr by simp
      next
        assume "k = r"
        then show ?thesis using qk qr by simp
      next
        assume "k \<in> set post"
        with B have "js_gt (c r) (c k)" by blast
        then show ?thesis using qk qr by simp
      qed
      with le show ?thesis using qk qb by simp
    next
      assume rs: "r = s" and C: "\<forall>k\<in>set ks. js_gt (c s) (c k)"
      from C k have g: "js_gt (c s) (c k)" by blast
      then obtain qs where "c s = Num qs" "qk < qs" using qk by (cases "c s") auto
      then show ?thesis using False rs qb qk by simp
    qed
  qed
  have "ks @ [b] = ks @ b # []" by simp
  with below show ?thesis unfolding res by (metis empty_iff empty_set)
qed

lemma reduce_last_max:
  fixes c :: "string \<Rightarrow> jsnum"
  assumes num: "\<forall>k\<in>set ks. \<exists>q. c k = Num q"
    and r: "r = foldl (\<lambda>a b. if js_gt (c a) (c b) then a else b) s ks"
  shows "(\<exists>pre post. ks = pre @ r # post
            \<and> (\<forall>k\<in>set pre. \<not> js_gt (c k) (c r)) \<and> (\<forall>k\<in>set post. js_gt (c r) (c k)))
         \<or> (r = s \<and> (\<forall>k\<in>set ks. js_gt (c s) (c k)))"
  using num r
proof (induction ks arbitrary: r rule: rev_induct)
  case Nil
  then show ?case by simp
next
  case (snoc b ks)
  define r0 where "r0 = foldl (\<lambda>a b. if js_gt (c a) (c b) then a else b) s ks"
  from snoc.prems obtain qb where qb: "c b = Num qb" by auto
  from snoc.prems have numks: "\<forall>k\<in>set ks. \<exists>q. c k = Num q" by simp
  have inv: "(\<exists>pre post. ks = pre @ r0 # post
                \<and> (\<forall>k\<in>set pre. \<not> js_gt (c k) (c r0)) \<and> (\<forall>k\<in>set post. js_gt (c r0) (c k)))
              \<or> (r0 = s \<and> (\<forall>k\<in>set ks. js_gt (c s) (c k)))"
    using snoc.IH [OF numks r0_def] .
  have "r = (if js_gt (c r0) (c b) then r0 else b)" using snoc.prems(2) by (simp add: r0_def)
  from reduce_step [OF numks qb inv this] show ?case .
qed

lemma js_gt_irrefl: "\<not> js_gt a a"
  by (cases a) simp_all

text \<open>
  C2 (amended). The reduction keeps the accumulated key only while its tally is strictly
  greater than the next key's, so on a tie the later key replaces the earlier one: the
  reported best-selling product has the maximal tally, and every key after it in the
  iteration order of \<open>Object.keys\<close> has a strictly smaller tally. Among products tied for
  the maximum the one that comes last in iteration order is reported.
\<close>

theorem best_selling_is_last_maximum:
  assumes "m \<noteq> []"
  shows "\<exists>pre post. Object_keys m = pre @ bestSellingProduct m # post
           \<and> (\<forall>k\<in>set pre. \<not> js_gt (count_of m k) (count_of m (bestSellingProduct m)))
           \<and> (\<forall>k\<in>set post. js_gt (count_of m (bestSellingProduct m)) (count_of m k))"
proof -
  let ?ks = "Object_keys m"
  have ne: "?ks \<noteq> []" using assms by (metis set_Object_keys image_is_empty set_empty)
  have num: "\<forall>k\<in>set ?ks. \<exists>q. count_of m k = Num q" using count_of_key by blast
  have nonseed: "\<not> (\<forall>k\<in>set ?ks. js_gt (count_of m ''N/A'') (count_of m k))"
  proof (cases "map_of m ''N/A''")
    case None
    then have "count_of m ''N/A'' = NaN" by (simp add: count_of_def)
    moreover obtain k where "k \<in> set ?ks" using ne by (cases ?ks) auto
    ultimately show ?thesis by (metis js_gt.simps(2))
  next
    case (Some q)
    then have "''N/A'' \<in> fst ` set m" by (metis map_of_eq_None_iff option.distinct(1))
    then have "''N/A'' \<in> set ?ks" by (simp add: set_Object_keys)
    then show ?thesis using js_gt_irrefl by blast
  qed
  have r: "foldl (\<lambda>a b. if js_gt (count_of m a) (count_of m b) then a else b) ''N/A'' ?ks
             = bestSellingProduct m"
    by (simp add: bestSellingProduct_def)
  note d = reduce_last_max [OF num r [symmetric]]
  from d show ?thesis
  proof (elim disjE)
    assume "\<exists>pre post. Object_keys m = pre @ bestSellingProduct m # post
           \<and> (\<forall>k\<in>set pre. \<not> js_gt (count_of m k) (count_of m (bestSellingProduct m)))
           \<and> (\<forall>k\<in>set post. js_gt (count_of m (bestSellingProduct m)) (count_of m k))"
    then show ?thesis .
  next
    assume "bestSellingProduct m = ''N/A'' \<and> (\<forall>k\<in>set ?ks. js_gt (count_of m ''N/A'') (count_of m k))"
    with nonseed show ?thesis by simp
  qed
qed

theorem best_selling_tie_counterexample:
  "Object_keys (productCounts (flattenedData reference_runtime two_tied_products)) = [''Brake Pad'', ''Oil Filter'']
   \<and> count_of (productCounts (flattenedData reference_runtime two_tied_products)) ''Brake Pad'' = Num 5
   \<and> count_of (productCounts (flattenedData reference_runtime two_tied_products)) ''Oil Filter'' = Num 5
   \<and> bestSellingProduct (productCounts (flattenedData reference_runtime two_tied_products)) \<noteq> ''Brake Pad''"
  by code_simp

theorem best_selling_is_last_maximum_witness:
  "productCounts (flattenedData reference_runtime two_tied_products) \<noteq> []
   \<and> bestSellingProduct (productCounts (flattenedData reference_runtime two_tied_products)) = ''Oil Filter''
   \<and> (\<exists>pre post. Object_keys (productCounts (flattenedData reference_runtime two_tied_products))
          = pre @ ''Oil Filter'' # post
        \<and> (\<forall>k\<in>set pre. \<not> js_gt (count_of (productCounts (flattenedData reference_runtime two_tied_products)) k) (Num 5))
        \<and> (\<forall>k\<in>set post. js_gt (Num 5) (count_of (productCounts (flattenedData reference_runtime two_tied_products)) k)))"
proof -
  let ?m = "productCounts (flattenedData reference_runtime two_tied_products)"
  have ne: "?m \<noteq> []" by code_simp
  have b: "bestSellingProduct ?m = ''Oil Filter''" by code_simp
  have c: "count_of ?m ''Oil Filter'' = Num 5" by code_simp
  from best_selling_is_last_maximum [OF ne] show ?thesis
    unfolding b c using ne by blast
qed

section \<open>Fully returned items\<close>

lemma prepare_item_None: "prepare_item srt item = None \<longleftrightarrow> js_le (actualQty srt item) (Num 0)"
  by (simp add: prepare_item_def Let_def)

lemma prepare_items_filter:
  "prepare_items srt its
     = map (the \<circ> prepare_item srt) (filter (\<lambda>item. \<not> js_le (actualQty srt item) (Num 0)) its)"
proof (induction its)
  case Nil
  then show ?case by (simp add: prepare_items_def)
next
  case (Cons item its)
  then show ?case
    by (cases "prepare_item srt item") (auto simp: prepare_items_def prepare_item_None [symmetric])
qed

lemma prepare_items_idem:
  "prepare_items srt (filter (\<lambda>item. \<not> js_le (actualQty srt item) (Num 0)) its) = prepare_items srt its"
  by (simp add: prepare_items_filter)

lemma prepare_sale_without_returned:
  "status (prepare_sale srt (without_returned srt p)) = status (prepare_sale srt p)"
  "totalAmount (prepare_sale srt (without_returned srt p)) = totalAmount (prepare_sale srt p)"
  "orderId (prepare_sale srt (without_returned srt p)) = orderId (prepare_sale srt p)"
  "customerName (prepare_sale srt (without_returned srt p)) = customerName (prepare_sale srt p)"
  "orderDate (prepare_sale srt (without_returned srt p)) = orderDate (prepare_sale srt p)"
  "items (prepare_sale srt (without_returned srt p)) = items (prepare_sale srt p)"
  by (cases p; cases "snd p";
      simp add: prepare_sale_def without_returned_def prepare_items_idem)+

lemma flattenedData_without_returned:
  "flattenedData rt (map (prepare_sale srt \<circ> without_returned srt) sales)
     = flattenedData rt (map (prepare_sale srt) sales)"
  by (simp add: flattenedData_def prepare_sale_without_returned comp_def)

lemma foldl_filter_map_cong:
  assumes "\<And>x. x \<in> set xs \<Longrightarrow> P (g x) = P (g' x) \<and> h (g x) = h (g' x)"
  shows "foldl (\<lambda>sum order. sum + h order) (a::rat) (filter P (map g xs))
           = foldl (\<lambda>sum order. sum + h order) a (filter P (map g' xs))"
  using assms by (induction xs arbitrary: a) auto

lemma totalRevenue_without_returned:
  "totalRevenue rt (map (prepare_sale srt \<circ> without_returned srt) sales)
     = totalRevenue rt (map (prepare_sale srt) sales)"
  unfolding totalRevenue_def relevantOrders_def
  by (rule foldl_filter_map_cong) (simp add: prepare_sale_without_returned)

lemma totalTransactions_without_returned:
  "totalTransactions (map (prepare_sale srt \<circ> without_returned srt) sales)
     = totalTransactions (map (prepare_sale srt) sales)"
  unfolding totalTransactions_def relevantOrders_def
  by (induction sales) (simp_all add: prepare_sale_without_returned)

lemma sales_summary_cong:
  assumes "totalRevenue rt os = totalRevenue rt os'" "totalTransactions os = totalTransactions os'"
  shows "sales_summary rt os fl st = sales_summary rt os' fl st"
  using assms by (simp add: sales_summary_def avgTransactionValue_def)

text \<open>
  C7. The controller drops every sale item whose net quantity (ordered minus returned) is
  zero or negative while it prepares the report data: \<open>prepare_item\<close> yields null for it and
  the null entries are filtered out, so the prepared items are exactly the images of the
  items with a positive net quantity. The filtering precedes all layout: the document
  generated from the prepared sales is the document generated from the same sales with the
  fully returned items removed beforehand, so such an item appears in no row of any page
  and contributes to no total that the layout accumulates.
\<close>

theorem returned_items_dropped_before_layout:
  "prepare_items srt its
     = map (the \<circ> prepare_item srt) (filter (\<lambda>item. \<not> js_le (actualQty srt item) (Num 0)) its)
   \<and> (\<forall>item\<in>set its. js_le (actualQty srt item) (Num 0) \<longrightarrow> prepare_item srt item = None)
   \<and> generateSalesReportPDF rt (Some (map (prepare_sale srt) sales)) startDate endDate adminName rangeLabel
       = generateSalesReportPDF rt (Some (map (prepare_sale srt) (map (without_returned srt) sales)))
           startDate endDate adminName rangeLabel"
proof -
  have "sales_summary rt (map (prepare_sale srt \<circ> without_returned srt) sales) fl st
          = sales_summary rt (map (prepare_sale srt) sales) fl st" for fl st
    by (rule sales_summary_cong)
       (simp_all add: totalRevenue_without_returned totalTransactions_without_returned)
  then have "generateSalesReportPDF rt (Some (map (prepare_sale srt) sales)) startDate endDate adminName rangeLabel
       = generateSalesReportPDF rt (Some (map (prepare_sale srt) (map (without_returned srt) sales)))
           startDate endDate adminName rangeLabel"
    by (simp add: generateSalesReportPDF_def Let_def flattenedData_without_returned)
  then show ?thesis
    using prepare_items_filter [of srt its] by (simp add: prepare_item_None)
qed

theorem returned_items_dropped_before_layout_witness:
  "hd (the (snd returned_sale)) \<in> set (the (snd returned_sale))
   \<and> js_le (actualQty reference_server (hd (the (snd returned_sale)))) (Num 0)
   \<and> prepare_item reference_server (hd (the (snd returned_sale))) = None
   \<and> map productName (prepare_items reference_server (the (snd returned_sale))) = [''Wiper'']
   \<and> generateSalesReportPDF reference_runtime (Some (map (prepare_sale reference_server) [returned_sale]))
         JNull JNull ''admin'' ''Daily''
       = generateSalesReportPDF reference_runtime
           (Some (map (prepare_sale reference_server) (map (without_returned reference_server) [returned_sale])))
           JNull JNull ''admin'' ''Daily''"
proof -
  have a: "hd (the (snd returned_sale)) \<in> set (the (snd returned_sale))" by code_simp
  have b: "js_le (actualQty reference_server (hd (the (snd returned_sale)))) (Num 0)" by code_simp
  have c: "map productName (prepare_items reference_server (the (snd returned_sale))) = [''Wiper'']"
    by code_simp
  from returned_items_dropped_before_layout
         [of reference_server "the (snd returned_sale)" reference_runtime "[returned_sale]"
             JNull JNull "''admin''" "''Daily''"]
  show ?thesis using a b c by blast
qed

section \<open>Truncation of text fields\<close>

text \<open>
  C6 (amended). A text field longer than its column's limit is drawn as its first
  limit-many characters followed by \<open>...\<close>, and a field at or under the limit is drawn
  unchanged, with the limits 30 (product name, sales report), 35 (product name, inventory
  report), 20 (customer name) and 15 (return reason, returns report); except that in the
  returns report a customer name or reason that is missing or empty is drawn as \<open>N/A\<close>.
\<close>

theorem truncation_of_text_fields:
  "Text (if length (row_productName item) > 30
         then take 30 (row_productName item) @ ''...'' else row_productName item) 50 y AlignLeft
     \<in> set (sales_row_cmds rt index item y)
   \<and> Text (if length (inv_productName it) > 35
           then take 35 (inv_productName it) @ ''...'' else inv_productName it) 20 y AlignLeft
     \<in> set (inventory_row_cmds rt index it y)
   \<and> (\<forall>s. customer_name r = Some s \<and> s \<noteq> [] \<longrightarrow>
         Text (if length s > 20 then take 20 s @ ''...'' else s) 80 y AlignLeft
           \<in> set (returns_row_cmds rt index r y))
   \<and> (\<forall>s. return_reason r = Some s \<and> s \<noteq> [] \<longrightarrow>
         Text (if length s > 15 then take 15 s @ ''...'' else s) 150 y AlignLeft
           \<in> set (returns_row_cmds rt index r y))
   \<and> (customer_name r \<in> {None, Some []} \<longrightarrow>
         Text ''N/A'' 80 y AlignLeft \<in> set (returns_row_cmds rt index r y))
   \<and> (return_reason r \<in> {None, Some []} \<longrightarrow>
         Text ''N/A'' 150 y AlignLeft \<in> set (returns_row_cmds rt index r y))"
  by (auto simp: sales_row_cmds_def inventory_row_cmds_def returns_row_cmds_def
        truncateText_def truncate_or_na_def Let_def)

theorem truncation_of_text_fields_witness:
  "length (row_productName long_named_row) = 40
   \<and> Text ''Heavy Duty Ceramic Brake Pad S...'' 50 45 AlignLeft
       \<in> set (sales_row_cmds reference_runtime 0 long_named_row 45)
   \<and> customer_name sample_return = Some ''Maria Cristina Dela Cruz Jr''
   \<and> Text ''Maria Cristina Dela ...'' 80 45 AlignLeft
       \<in> set (returns_row_cmds reference_runtime 0 sample_return 45)
   \<and> return_reason sample_return = Some ''Changed mind''
   \<and> Text ''Changed mind'' 150 45 AlignLeft \<in> set (returns_row_cmds reference_runtime 0 sample_return 45)
   \<and> customer_name anonymous_return \<in> {None, Some []}
   \<and> Text ''N/A'' 80 45 AlignLeft \<in> set (returns_row_cmds reference_runtime 0 anonymous_return 45)"
  using truncation_of_text_fields [of long_named_row 45 reference_runtime 0 _ sample_return]
        truncation_of_text_fields [of _ 45 reference_runtime 0 _ anonymous_return]
  by (simp add: long_named_row_def sample_return_def anonymous_return_def)

theorem empty_field_not_unchanged_counterexample:
  "customer_name anonymous_return = Some []
   \<and> length ([] :: string) \<le> 20
   \<and> Text [] 80 45 AlignLeft \<notin> set (returns_row_cmds reference_runtime 0 anonymous_return 45)
   \<and> Text ''N/A'' 80 45 AlignLeft \<in> set (returns_row_cmds reference_runtime 0 anonymous_return 45)"
  by (simp add: returns_row_cmds_def anonymous_return_def truncate_or_na_def)

section \<open>Currency formatting\<close>



section \<open>Layout of the sales report\<close>

lemma new_jsPDF_mk: "new_jsPDF = mk_doc [] []"
  by (simp add: new_jsPDF_def mk_doc_def)

lemma emit_mk [simp]: "emit c (mk_doc ps p) = mk_doc ps (p @ [c])"
  by (simp add: emit_def mk_doc_def)

lemma emits_mk [simp]: "emits cs (mk_doc ps p) = mk_doc ps (p @ cs)"
  unfolding emits_def by (induction cs arbitrary: p) simp_all

lemma addPage_mk [simp]: "addPage (mk_doc ps p) = mk_doc (ps @ [p]) []"
  by (simp add: addPage_def mk_doc_def)

lemma pages_mk [simp]: "pages (mk_doc ps p) = ps @ [p]"
  by (simp add: mk_doc_def)

lemma stream_mk [simp]: "stream (mk_doc ps p) = concat ps @ p"
  by (simp add: stream_def)

lemma at_last_mk [simp]: "at_last (mk_doc ps p)"
  by (simp add: at_last_def mk_doc_def)

lemma at_last_is_mk: "at_last d \<Longrightarrow> \<exists>ps p. d = mk_doc ps p"
proof -
  assume a: "at_last d"
  then obtain ps p where "pages d = ps @ [p]"
    by (cases "pages d" rule: rev_cases) (auto simp: at_last_def)
  with a have "d = mk_doc ps p" by (simp add: mk_doc_def at_last_def)
  then show ?thesis by blast
qed

lemma mk_doc_eq [simp]: "mk_doc ps p = mk_doc qs q \<longleftrightarrow> ps = qs \<and> p = q"
  by (auto simp: mk_doc_def)

lemma extends_refl [simp]: "extends d d"
  by (simp add: extends_def)

lemma extends_trans: "extends a b \<Longrightarrow> extends b c \<Longrightarrow> extends a c"
  unfolding extends_def by (meson dual_order.trans less_le_trans prefix_order.order_trans)

lemma extends_mk:
  "extends (mk_doc ps p) (mk_doc (ps @ (p @ cs) # qs) q)"
  "extends (mk_doc ps p) (mk_doc ps (p @ cs))"
  by (auto simp: extends_def nth_append nth_Cons split: nat.splits)

lemma extends_stampFooters: "extends d (stampFooters rt a d)"
  by (simp add: extends_def pages_stampFooters)

lemma sales_page_break_mk:
  "sales_page_break rt (mk_doc ps p, y) =
     (if y > 270
      then (mk_doc (ps @ [p]) (tableHeaderCmds rt 20 @ [SetFont ''helvetica'' ''normal'', SetFontSize 8]), 28)
      else (mk_doc ps p, y))"
  by (simp add: sales_page_break_def drawTableHeaders_def)

lemma sales_row_step_mk:
  "sales_row_step rt i item (mk_doc ps p, y, g) =
     (if y > 270
      then (mk_doc (ps @ [p])
              (tableHeaderCmds rt 20 @ [SetFont ''helvetica'' ''normal'', SetFontSize 8]
                 @ sales_row_cmds rt i item 28),
            34, g + row_totalPrice item)
      else (mk_doc ps (p @ sales_row_cmds rt i item y), y + 6, g + row_totalPrice item))"
  by (simp add: sales_row_step_def sales_page_break_mk num_or_zero_def)

lemma sales_rows_shape:
  "\<exists>ps' p' c0 qs. fst (sales_rows rt i rows (mk_doc ps p, y, g)) = mk_doc ps' p'
      \<and> ps' @ [p'] = ps @ (p @ c0) # qs
      \<and> (\<forall>q\<in>set qs. prefix (tableHeaderCmds rt 20) q)"
proof (induction rows arbitrary: i ps p y g)
  case Nil
  have "ps @ [p] = ps @ (p @ []) # []" by simp
  then show ?case by (metis empty_iff empty_set fst_conv sales_rows.simps(1))
next
  case (Cons item rows)
  show ?case
  proof (cases "y > 270")
    case True
    let ?p1 = "tableHeaderCmds rt 20 @ [SetFont ''helvetica'' ''normal'', SetFontSize 8]
                 @ sales_row_cmds rt i item 28"
    from Cons.IH [of "Suc i" "ps @ [p]" ?p1 34 "g + row_totalPrice item"]
    obtain ps' p' c0 qs where
      d: "fst (sales_rows rt (Suc i) rows (mk_doc (ps @ [p]) ?p1, 34, g + row_totalPrice item)) = mk_doc ps' p'"
      and sh: "ps' @ [p'] = (ps @ [p]) @ (?p1 @ c0) # qs"
      and hd: "\<forall>q\<in>set qs. prefix (tableHeaderCmds rt 20) q"
      by blast
    have "ps' @ [p'] = ps @ (p @ []) # ((?p1 @ c0) # qs)" using sh by simp
    moreover have "\<forall>q\<in>set ((?p1 @ c0) # qs). prefix (tableHeaderCmds rt 20) q"
      using hd by simp
    moreover have "fst (sales_rows rt i (item # rows) (mk_doc ps p, y, g)) = mk_doc ps' p'"
      using d True by (simp add: sales_row_step_mk)
    ultimately show ?thesis by blast
  next
    case False
    from Cons.IH [of "Suc i" ps "p @ sales_row_cmds rt i item y" "y + 6" "g + row_totalPrice item"]
    obtain ps' p' c0 qs where
      d: "fst (sales_rows rt (Suc i) rows (mk_doc ps (p @ sales_row_cmds rt i item y), y + 6, g + row_totalPrice item)) = mk_doc ps' p'"
      and sh: "ps' @ [p'] = ps @ ((p @ sales_row_cmds rt i item y) @ c0) # qs"
      and hd: "\<forall>q\<in>set qs. prefix (tableHeaderCmds rt 20) q"
      by blast
    have "ps' @ [p'] = ps @ (p @ (sales_row_cmds rt i item y @ c0)) # qs" using sh by simp
    moreover have "fst (sales_rows rt i (item # rows) (mk_doc ps p, y, g)) = mk_doc ps' p'"
      using d False by (simp add: sales_row_step_mk)
    ultimately show ?thesis using hd by blast
  qed
qed

lemma formatCurrency_not_Total [simp]: "formatCurrency rt v \<noteq> ''Total''"
  by (simp add: formatCurrency_def Let_def)

lemma total_cell_header [simp]: "List.map_filter total_cell (tableHeaderCmds rt y) = []"
  by (simp add: tableHeaderCmds_def List.map_filter_simps)

lemma map_filter_append: "List.map_filter f (xs @ ys) = List.map_filter f xs @ List.map_filter f ys"
  by (simp add: List.map_filter_def)

lemma total_cell_row [simp]:
  "List.map_filter total_cell (sales_row_cmds rt i item y) = [formatCurrency rt (jn (row_totalPrice item))]"
  by (simp add: sales_row_cmds_def List.map_filter_simps map_filter_append num_or_zero_def)


lemma baseline_simps [simp]:
  "baseline_at_most l (Text s x y a) = (y \<le> l)"
  "baseline_at_most l (TextLines ls x y)"
  "baseline_at_most l (Line x1 y1 x2 y2)"
  "baseline_at_most l (Rect x y w h)"
  "baseline_at_most l (AddImage x y w h)"
  "baseline_at_most l (SetFont f st)"
  "baseline_at_most l (SetFontSize z)"
  "baseline_at_most l (SetLineWidth z)"
  "baseline_at_most l (SetTextColor cs)"
  "baseline_at_most l (SetFillColor r g b)"
  "baseline_at_most l (SetDrawColor r g b)"
  by (simp_all add: baseline_at_most_def)

lemma baseline_header: "c \<in> set (tableHeaderCmds rt 20) \<Longrightarrow> baseline_at_most 270 c"
  by (auto simp: tableHeaderCmds_def)

lemma baseline_row: "y \<le> 270 \<Longrightarrow> c \<in> set (sales_row_cmds rt i item y) \<Longrightarrow> baseline_at_most 270 c"
  by (auto simp: sales_row_cmds_def split: if_splits)

lemma sales_rows_baseline:
  assumes "\<forall>c\<in>set (concat ps @ p). baseline_at_most 270 c"
  shows "\<forall>c\<in>set (stream (fst (sales_rows rt i rows (mk_doc ps p, y, g)))). baseline_at_most 270 c"
  using assms
proof (induction rows arbitrary: i ps p y g)
  case Nil
  then show ?case by simp
next
  case (Cons item rows)
  show ?case
  proof (cases "y > 270")
    case True
    let ?p1 = "tableHeaderCmds rt 20 @ [SetFont ''helvetica'' ''normal'', SetFontSize 8]
                 @ sales_row_cmds rt i item 28"
    have "\<forall>c\<in>set (concat (ps @ [p]) @ ?p1). baseline_at_most 270 c"
      using Cons.prems baseline_row [of 28 _ rt i item] baseline_header [of _ rt]
      by auto
    from Cons.IH [OF this, of "Suc i" 34 "g + row_totalPrice item"] True
    show ?thesis by (simp add: sales_row_step_mk)
  next
    case False
    have "\<forall>c\<in>set (concat ps @ p @ sales_row_cmds rt i item y). baseline_at_most 270 c"
      using Cons.prems baseline_row [of y _ rt i item] False by auto
    from Cons.IH [of ps "p @ sales_row_cmds rt i item y" "Suc i" "y + 6" "g + row_totalPrice item"] this False
    show ?thesis by (simp add: sales_row_step_mk)
  qed
qed

section \<open>Totals and the empty report\<close>

lemma sales_title_mk:
  "sales_title rt sd ed l =
     (mk_doc []
        ((if logoDataUrl rt then [AddImage ((pageWidth rt - 30) / 2) 20 30 22] else [])
         @ [SetFontSize 18, SetFont ''helvetica'' ''bold'',
            Text ''Sales Report'' (pageWidth rt / 2) (report_top rt) AlignCenter,
            SetFontSize 10, SetFont ''helvetica'' ''normal'',
            Text (''Period: '' @ formatPeriodText rt sd ed l) (pageWidth rt / 2) (report_top rt + 7) AlignCenter]),
      report_top rt + 17)"
  by (simp add: sales_title_def new_jsPDF_mk report_top_def Let_def)

lemma sales_table_mk:
  "sales_table rt rows sd ed l =
     sales_rows rt 0 rows (mk_doc [] (salesFirstPage rt sd ed l), report_top rt + 25, 0)"
  by (simp add: sales_table_def sales_title_mk drawTableHeaders_def salesFirstPage_def Let_def ac_simps)

lemma sales_grand_total_mk:
  "sales_grand_total rt (mk_doc ps p, y, g) =
     (if y > 265 then (mk_doc (ps @ [p]) (grandTotalCmds rt 20 g), 38)
      else (mk_doc ps (p @ grandTotalCmds rt y g), y + 18))"
  by (simp add: sales_grand_total_def grandTotalCmds_def Let_def)

lemma sales_summary_mk:
  "sales_summary rt os fl (mk_doc ps p, y) =
     (if y + 35 > 280 then mk_doc (ps @ [p]) (summaryCmds rt os fl 30)
      else mk_doc ps (p @ summaryCmds rt os fl y))"
  by (simp add: sales_summary_def summaryCmds_def Let_def add.assoc)

lemma report_top_bounds: "20 \<le> report_top rt" "report_top rt \<le> 47"
  by (simp_all add: report_top_def)

lemma pages_stampFooters_single:
  "pages (stampFooters rt a (mk_doc [] p)) = [p @ footerCmds rt a 1 1]"
  by (simp add: pages_stampFooters)

lemma empty_report_pages:
  assumes "flattenedData rt (case salesData of None \<Rightarrow> [] | Some os \<Rightarrow> os) = []"
  shows "pages (generateSalesReportPDF rt salesData sd ed adminName l)
           = [salesFirstPage rt sd ed l
              @ grandTotalCmds rt (report_top rt + 25) 0
              @ summaryCmds rt (case salesData of None \<Rightarrow> [] | Some os \<Rightarrow> os) [] (report_top rt + 43)
              @ footerCmds rt adminName 1 1]"
proof -
  have a: "\<not> report_top rt + 25 > 265" "\<not> report_top rt + 25 + 18 + 35 > 280"
    using report_top_bounds [of rt] by simp_all
  show ?thesis
    using a assms
    by (simp add: generateSalesReportPDF_def Let_def sales_table_mk sales_grand_total_mk
          sales_summary_mk pages_stampFooters_single add.assoc)
qed








lemma reference_two_decimals:
  "two_decimals 0 = ''0.00''" "two_decimals 100 = ''100.00''"
  "two_decimals (501 / 2) = ''250.50''" "two_decimals (701 / 2) = ''350.50''"
  by code_simp+

lemma reference_formatCurrency: "formatCurrency reference_runtime (jn q) = ''PHP '' @ two_decimals q"
  by (simp add: formatCurrency_def reference_runtime_def)



text \<open>
  C5 (amended). When the flattened row set is empty, \<open>generateSalesReportPDF\<close> produces
  exactly one page, which holds the title block, the column header, the Grand Total row
  showing the formatted value zero, the summary panel with \<open>Total Items Sold\<close> zero and
  \<open>Best Selling Product: N/A\<close>, and the footer \<open>Page 1 of 1\<close>. Total revenue, average
  transaction value and transaction count are computed from the orders with an allowed
  status, whether or not they have items; they are zero when there is no such order.
\<close>

theorem empty_sales_report:
  assumes "flattenedData rt (case salesData of None \<Rightarrow> [] | Some orders \<Rightarrow> orders) = []"
    and "filteredOrders = (case salesData of None \<Rightarrow> [] | Some orders \<Rightarrow> orders)"
    and "t = (if logoDataUrl rt then 47 else 20)"
  shows "pages (generateSalesReportPDF rt salesData startDate endDate adminName rangeLabel)
           = [(if logoDataUrl rt then [AddImage ((pageWidth rt - 30) / 2) 20 30 22] else [])
              @ [SetFontSize 18, SetFont ''helvetica'' ''bold'',
                 Text ''Sales Report'' (pageWidth rt / 2) t AlignCenter,
                 SetFontSize 10, SetFont ''helvetica'' ''normal'',
                 Text (''Period: '' @ formatPeriodText rt startDate endDate rangeLabel)
                      (pageWidth rt / 2) (t + 7) AlignCenter,
                 SetFontSize 9, SetFont ''helvetica'' ''bold'',
                 SetFont ''helvetica'' ''bold'',
                 Text ''Date'' 15 (t + 17) AlignLeft,
                 Text ''Product Name'' 50 (t + 17) AlignLeft,
                 Text ''Qty'' 110 (t + 17) AlignLeft,
                 Text ''Unit Price'' 130 (t + 17) AlignLeft,
                 Text ''Total'' 160 (t + 17) AlignLeft,
                 SetLineWidth (1 / 2),
                 Line 15 (t + 20) (pageWidth rt - 15) (t + 20),
                 SetFont ''helvetica'' ''normal'', SetFontSize 8,
                 SetLineWidth (1 / 2),
                 Line 15 (t + 27) (pageWidth rt - 15) (t + 27),
                 SetFont ''helvetica'' ''bold'', SetFontSize 9,
                 Text ''Grand Total:'' 130 (t + 33) AlignLeft,
                 Text (formatCurrency rt (jn 0)) 160 (t + 33) AlignLeft,
                 SetFillColor 240 240 240,
                 Rect 15 (t + 38) (pageWidth rt - 30) 8,
                 SetFontSize 10, SetFont ''helvetica'' ''bold'',
                 Text ''Sales Summary'' (pageWidth rt / 2) (t + 43) AlignCenter,
                 SetFont ''helvetica'' ''normal'', SetFontSize 9,
                 Text (''Total Revenue: '' @ formatCurrency rt (jn (totalRevenue rt filteredOrders)))
                      20 (t + 51) AlignLeft,
                 Text (''Avg Transaction Value: ''
                         @ formatCurrency rt (jn (avgTransactionValue rt filteredOrders)))
                      (pageWidth rt / 2 + 10) (t + 51) AlignLeft,
                 Text (''Total Items Sold: '' @ numberToString rt (Num 0)) 20 (t + 57) AlignLeft,
                 Text ''Best Selling Product: N/A'' (pageWidth rt / 2 + 10) (t + 57) AlignLeft,
                 Text (''Total Transactions: ''
                         @ numberToString rt (Num (of_nat (totalTransactions filteredOrders))))
                      20 (t + 63) AlignLeft,
                 SetFontSize 7, SetFont ''helvetica'' ''normal'', SetTextColor [100],
                 Text (''Generated by: '' @ adminName) 15 285 AlignLeft,
                 Text (''Report Generated: '' @ formatDate rt (JString (today rt))) 15 289 AlignLeft,
                 Text (''Page '' @ numberToString rt (Num 1) @ '' of '' @ numberToString rt (Num 1))
                      (pageWidth rt - 15) 285 AlignRight]]
         \<and> (relevantOrders filteredOrders = [] \<longrightarrow>
               totalRevenue rt filteredOrders = 0 \<and> avgTransactionValue rt filteredOrders = 0
               \<and> totalTransactions filteredOrders = 0)"
proof -
  have "relevantOrders filteredOrders = [] \<longrightarrow>
               totalRevenue rt filteredOrders = 0 \<and> avgTransactionValue rt filteredOrders = 0
               \<and> totalTransactions filteredOrders = 0"
    by (simp add: totalRevenue_def avgTransactionValue_def totalTransactions_def)
  moreover have "report_top rt = t" using assms(3) by (simp add: report_top_def)
  ultimately show ?thesis
    using empty_report_pages [OF assms(1), of startDate endDate adminName rangeLabel] assms(2)
    by (simp add: salesFirstPage_def tableHeaderCmds_def grandTotalCmds_def summaryCmds_def
          footerCmds_def productCounts_def bestSellingProduct_def Object_keys_def totalItems_def
          Let_def)
qed

lemma reference_decimal_string:
  "decimal_string (Num 0) = ''0''" "decimal_string (Num 1) = ''1''" "decimal_string (Num 2) = ''2''"
  by code_simp+

lemma reference_fields:
  "logoDataUrl reference_runtime = False"
  "numberToString reference_runtime = decimal_string"
  "today reference_runtime = ''2026-01-15''"
  "toLocaleDateString reference_runtime (JString s) = s"
  "formatPeriodText reference_runtime a b l = l"
  by (simp_all add: reference_runtime_def)

theorem empty_sales_report_witness:
  "flattenedData reference_runtime (case Some [] of None \<Rightarrow> [] | Some orders \<Rightarrow> orders) = []
   \<and> relevantOrders [] = []
   \<and> length (pages (generateSalesReportPDF reference_runtime (Some []) JNull JNull ''admin'' ''Daily'')) = 1
   \<and> Text ''Grand Total:'' 130 53 AlignLeft
         \<in> set (hd (pages (generateSalesReportPDF reference_runtime (Some []) JNull JNull ''admin'' ''Daily'')))
   \<and> Text ''PHP 0.00'' 160 53 AlignLeft
         \<in> set (hd (pages (generateSalesReportPDF reference_runtime (Some []) JNull JNull ''admin'' ''Daily'')))
   \<and> Text ''Total Revenue: PHP 0.00'' 20 71 AlignLeft
         \<in> set (hd (pages (generateSalesReportPDF reference_runtime (Some []) JNull JNull ''admin'' ''Daily'')))
   \<and> Text ''Total Items Sold: 0'' 20 77 AlignLeft
         \<in> set (hd (pages (generateSalesReportPDF reference_runtime (Some []) JNull JNull ''admin'' ''Daily'')))
   \<and> Text ''Best Selling Product: N/A'' (pageWidth reference_runtime / 2 + 10) 77 AlignLeft
         \<in> set (hd (pages (generateSalesReportPDF reference_runtime (Some []) JNull JNull ''admin'' ''Daily'')))
   \<and> Text ''Total Transactions: 0'' 20 83 AlignLeft
         \<in> set (hd (pages (generateSalesReportPDF reference_runtime (Some []) JNull JNull ''admin'' ''Daily'')))
   \<and> Text ''Page 1 of 1'' (pageWidth reference_runtime - 15) 285 AlignRight
         \<in> set (hd (pages (generateSalesReportPDF reference_runtime (Some []) JNull JNull ''admin'' ''Daily'')))"
proof -
  have e: "flattenedData reference_runtime (case Some [] of None \<Rightarrow> [] | Some orders \<Rightarrow> orders) = []"
    by (simp add: flattenedData_def)
  have r: "relevantOrders [] = []" by (simp add: relevantOrders_def)
  have t: "(20::rat) = (if logoDataUrl reference_runtime then 47 else 20)"
    by (simp add: reference_fields)
  have f: "[] = (case Some [] of None \<Rightarrow> [] | Some (orders :: sale_order list) \<Rightarrow> orders)" by simp
  note inst = empty_sales_report [OF e f t, of JNull JNull "''admin''" "''Daily''"]
  from inst r have z: "totalRevenue reference_runtime [] = 0" "avgTransactionValue reference_runtime [] = 0"
    "totalTransactions [] = 0" by simp_all
  from inst show ?thesis
    unfolding z using e r
    by (simp add: reference_fields reference_formatCurrency reference_two_decimals
          reference_decimal_string)
qed

theorem empty_rows_nonzero_revenue_counterexample:
  "flattenedData reference_runtime [order_without_items] = []
   \<and> Text ''Total Revenue: PHP 100.00'' 20 71 AlignLeft
         \<in> set (hd (pages (generateSalesReportPDF reference_runtime (Some [order_without_items])
                             JNull JNull ''admin'' ''Daily'')))
   \<and> Text ''Total Transactions: 1'' 20 83 AlignLeft
         \<in> set (hd (pages (generateSalesReportPDF reference_runtime (Some [order_without_items])
                             JNull JNull ''admin'' ''Daily'')))"
proof -
  have e: "flattenedData reference_runtime (case Some [order_without_items] of None \<Rightarrow> [] | Some orders \<Rightarrow> orders) = []"
    by (simp add: flattenedData_def order_without_items_def)
  have r: "totalRevenue reference_runtime [order_without_items] = 100"
    "totalTransactions [order_without_items] = 1"
    by (simp_all add: totalRevenue_def totalTransactions_def relevantOrders_def order_without_items_def
          js_includes_def allowedStatuses_def num_or_zero_def)
  have t: "report_top reference_runtime = 20" by (simp add: report_top_def reference_fields)
  from empty_report_pages [OF e, of JNull JNull "''admin''" "''Daily''"] show ?thesis
    using e
    by (simp add: summaryCmds_def r t reference_fields reference_formatCurrency reference_two_decimals
          reference_decimal_string)
qed

section \<open>Structure of the receipt\<close>

lemma receipt_head_mk:
  "receipt_head rt args pm = (mk_doc [] (receiptHeadCmds rt args pm), receipt_table_top rt args)"
  by (simp add: receipt_head_def receiptHeadCmds_def receiptPanelCmds_def receipt_table_top_def
        receipt_info_top_def receipt_address_def new_jsPDF_mk receipt_consts contentWidth_def Let_def
        ac_simps)

lemma receipt_totals_mk:
  "receipt_totals rt args pm (mk_doc ps p, y) = mk_doc ps (p @ receiptTotalsCmds rt args pm y)"
  by (simp add: receipt_totals_def receiptTotalsCmds_def receipt_consts Let_def ac_simps)

lemma receipt_page_break_mk:
  "receipt_page_break (mk_doc ps p, y) = (if y > 750 then (mk_doc (ps @ [p]) [], 40) else (mk_doc ps p, y))"
  by (simp add: receipt_page_break_def margin_def)

lemma receipt_row_step_mk:
  "receipt_row_step rt it (mk_doc ps p, y) =
     (if y > 750 then (mk_doc (ps @ [p]) (receipt_row_cmds rt it 40), 40 + rowHeight rt it)
      else (mk_doc ps (p @ receipt_row_cmds rt it y), y + rowHeight rt it))"
  by (simp add: receipt_row_step_def receipt_page_break_mk)

lemma shape_extends:
  "ps' @ [p'] = ps @ (p @ c0) # qs \<Longrightarrow> extends (mk_doc ps p) (mk_doc ps' p')"
  by (auto simp: extends_def nth_append nth_Cons split: nat.splits)

lemma receipt_rows_shape:
  "\<exists>ps' p' y' c0 qs. receipt_rows rt its (mk_doc ps p, y) = (mk_doc ps' p', y')
      \<and> ps' @ [p'] = ps @ (p @ c0) # qs"
proof (induction its arbitrary: ps p y)
  case Nil
  have "ps @ [p] = ps @ (p @ []) # []" by simp
  then show ?case by (metis receipt_rows.simps(1))
next
  case (Cons it its)
  show ?case
  proof (cases "y > 750")
    case True
    from Cons.IH [of "ps @ [p]" "receipt_row_cmds rt it 40" "40 + rowHeight rt it"]
    obtain ps' p' y' c0 qs where
      d: "receipt_rows rt its (mk_doc (ps @ [p]) (receipt_row_cmds rt it 40), 40 + rowHeight rt it) = (mk_doc ps' p', y')"
      and sh: "ps' @ [p'] = (ps @ [p]) @ (receipt_row_cmds rt it 40 @ c0) # qs"
      by blast
    have "ps' @ [p'] = ps @ (p @ []) # ((receipt_row_cmds rt it 40 @ c0) # qs)" using sh by simp
    moreover have "receipt_rows rt (it # its) (mk_doc ps p, y) = (mk_doc ps' p', y')"
      using d True by (simp add: receipt_row_step_mk)
    ultimately show ?thesis by blast
  next
    case False
    from Cons.IH [of ps "p @ receipt_row_cmds rt it y" "y + rowHeight rt it"]
    obtain ps' p' y' c0 qs where
      d: "receipt_rows rt its (mk_doc ps (p @ receipt_row_cmds rt it y), y + rowHeight rt it) = (mk_doc ps' p', y')"
      and sh: "ps' @ [p'] = ps @ ((p @ receipt_row_cmds rt it y) @ c0) # qs"
      by blast
    have "ps' @ [p'] = ps @ (p @ (receipt_row_cmds rt it y @ c0)) # qs" using sh by simp
    moreover have "receipt_rows rt (it # its) (mk_doc ps p, y) = (mk_doc ps' p', y')"
      using d False by (simp add: receipt_row_step_mk)
    ultimately show ?thesis by blast
  qed
qed

lemma receipt_pages:
  assumes "generateSaleReceipt rt args = Inr d"
  obtains pm ps p y where "default_to (rc_paymentMethod args) (JString ''Cash'') = JString pm"
    and "d = mk_doc ps (p @ receiptTotalsCmds rt args pm y)"
    and "prefix (receiptHeadCmds rt args pm @ receiptHeaderCmds rt (receipt_table_top rt args))
                (hd (pages d))"
proof -
  from assms obtain pm where pm: "default_to (rc_paymentMethod args) (JString ''Cash'') = JString pm"
    and d: "d = receipt_totals rt args pm (receipt_table rt args pm)"
    by (auto simp: generateSaleReceipt_def split: jsval.splits)
  let ?p0 = "receiptHeadCmds rt args pm @ receiptHeaderCmds rt (receipt_table_top rt args)
              @ [SetFont ''helvetica'' ''normal'', SetFontSize FONT_SIZE_BODY]"
  have t: "receipt_table rt args pm
             = receipt_rows rt (rc_items args) (mk_doc [] ?p0, receipt_table_top rt args + 20)"
    by (simp add: receipt_table_def receipt_head_mk Let_def)
  from receipt_rows_shape [of rt "rc_items args" "[]" ?p0 "receipt_table_top rt args + 20"]
  obtain ps p y c0 qs where
    r: "receipt_rows rt (rc_items args) (mk_doc [] ?p0, receipt_table_top rt args + 20) = (mk_doc ps p, y)"
    and sh: "ps @ [p] = [] @ (?p0 @ c0) # qs"
    by blast
  have dd: "d = mk_doc ps (p @ receiptTotalsCmds rt args pm y)"
    using d t r by (simp add: receipt_totals_mk)
  have "hd (ps @ [p @ receiptTotalsCmds rt args pm y])
          = (if qs = [] then ?p0 @ c0 @ receiptTotalsCmds rt args pm y else ?p0 @ c0)"
  proof (cases qs rule: rev_cases)
    case Nil
    with sh have "ps = []" "p = ?p0 @ c0" by simp_all
    then show ?thesis using Nil by simp
  next
    case (snoc qs' q)
    with sh have "ps = (?p0 @ c0) # qs'" by simp
    then show ?thesis using snoc by simp
  qed
  then have "prefix (receiptHeadCmds rt args pm @ receiptHeaderCmds rt (receipt_table_top rt args))
                     (hd (pages d))"
    unfolding dd by (simp add: prefix_def)
  with pm dd show ?thesis by (rule that)
qed

lemma receipt_head_contents:
  assumes "generateSaleReceipt rt args = Inr d"
  shows "Text (js_String rt (js_or (rc_customerName args) (JString ''N/A''))) 110 (receipt_info_top rt + 12) AlignLeft
           \<in> set (hd (pages d))"
    and "TextLines (splitTextToSize rt (receipt_address rt args) (contentWidth rt / 2 - 10 - 70))
                   110 (receipt_info_top rt + 24) \<in> set (hd (pages d))"
proof -
  obtain pm ps p y where "default_to (rc_paymentMethod args) (JString ''Cash'') = JString pm"
    and "d = mk_doc ps (p @ receiptTotalsCmds rt args pm y)"
    and p: "prefix (receiptHeadCmds rt args pm @ receiptHeaderCmds rt (receipt_table_top rt args))
                (hd (pages d))"
    by (rule receipt_pages [OF assms])
  from p obtain zs where
    "hd (pages d) = (receiptHeadCmds rt args pm @ receiptHeaderCmds rt (receipt_table_top rt args)) @ zs"
    unfolding prefix_def by blast
  then have "set (receiptHeadCmds rt args pm) \<subseteq> set (hd (pages d))"
    by (simp only: set_append) blast
  moreover have "set (receiptPanelCmds rt args (receipt_info_top rt)) \<subseteq> set (receiptHeadCmds rt args pm)"
    unfolding receiptHeadCmds_def Let_def set_append by blast
  ultimately have sub: "set (receiptPanelCmds rt args (receipt_info_top rt)) \<subseteq> set (hd (pages d))"
    by blast
  have "Text (js_String rt (js_or (rc_customerName args) (JString ''N/A''))) 110 (receipt_info_top rt + 12) AlignLeft
           \<in> set (receiptPanelCmds rt args (receipt_info_top rt))"
    unfolding receiptPanelCmds_def by (simp only: list.set insert_iff simp_thms)
  with sub show "Text (js_String rt (js_or (rc_customerName args) (JString ''N/A''))) 110 (receipt_info_top rt + 12) AlignLeft
           \<in> set (hd (pages d))" by blast
  have "TextLines (splitTextToSize rt (receipt_address rt args) (contentWidth rt / 2 - 10 - 70))
                   110 (receipt_info_top rt + 24) \<in> set (receiptPanelCmds rt args (receipt_info_top rt))"
    unfolding receiptPanelCmds_def by (simp only: list.set insert_iff simp_thms)
  with sub show "TextLines (splitTextToSize rt (receipt_address rt args) (contentWidth rt / 2 - 10 - 70))
                   110 (receipt_info_top rt + 24) \<in> set (hd (pages d))" by blast
qed

lemma reference_receipt_fields:
  "splitTextToSize reference_runtime s w = [s]"
  "pageWidthPt reference_runtime = 59528 / 100"
  "username reference_runtime = None"
  "toLocaleDateTime reference_runtime (JString s) = s"
  "toLocaleString reference_runtime q l = two_decimals q"
  by (simp_all add: reference_runtime_def)

section \<open>Totals of the receipt\<close>


lemma receipt_row_amount:
  "Text (peso rt (JNumber (js_times (it_unit rt it) (it_qty rt it)))) (colAmt_Right rt) (y + 16) AlignRight
     \<in> set (receipt_row_cmds rt it y)"
  by (simp add: receipt_row_cmds_def it_sub_def Let_def)

lemma reference_two_decimals_more:
  "two_decimals 10 = ''10.00''" "two_decimals 5 = ''5.00''"
  by code_simp+

lemma reference_peso: "peso reference_runtime (jn q) = ''PHP '' @ two_decimals q"
  by (simp add: peso_def reference_runtime_def)




section \<open>Page breaks\<close>

lemma sales_rows_append:
  "sales_rows rt i (xs @ ys) st = sales_rows rt (i + length xs) ys (sales_rows rt i xs st)"
  by (induction xs arbitrary: i st) simp_all

lemma sales_rows_no_break:
  "y + 6 * of_nat (length rows) \<le> 276 \<Longrightarrow>
   \<exists>c. sales_rows rt i rows (mk_doc ps p, y, g)
         = (mk_doc ps (p @ c), y + 6 * of_nat (length rows), g + sum_list (map row_totalPrice rows))"
proof (induction rows arbitrary: i p y g)
  case Nil
  then show ?case by simp
next
  case (Cons item rows)
  have y: "\<not> y > 270" using Cons.prems by simp
  have "y + 6 + 6 * of_nat (length rows) \<le> 276" using Cons.prems by (simp add: algebra_simps)
  from Cons.IH [OF this, of "Suc i" "p @ sales_row_cmds rt i item y" "g + row_totalPrice item"]
  obtain c where
    "sales_rows rt (Suc i) rows (mk_doc ps ((p @ sales_row_cmds rt i item y)), y + 6, g + row_totalPrice item)
       = (mk_doc ps ((p @ sales_row_cmds rt i item y) @ c), y + 6 + 6 * of_nat (length rows),
          g + row_totalPrice item + sum_list (map row_totalPrice rows))"
    by blast
  then have "sales_rows rt i (item # rows) (mk_doc ps p, y, g)
         = (mk_doc ps (p @ (sales_row_cmds rt i item y @ c)), y + 6 * of_nat (length (item # rows)),
            g + sum_list (map row_totalPrice (item # rows)))"
    using y by (simp add: sales_row_step_mk algebra_simps)
  then show ?case by blast
qed

lemma extends_mk_new: "extends (mk_doc ps p) (mk_doc (ps @ [p]) q)"
  using shape_extends [of "ps @ [p]" q ps p "[]" "[q]"] by simp

text \<open>The finished sales report keeps every page of the table, possibly continued.\<close>

lemma sales_report_extends:
  assumes "rows = flattenedData rt (case salesData of None \<Rightarrow> [] | Some orders \<Rightarrow> orders)"
  shows "extends (fst (sales_table rt rows sd ed l)) (generateSalesReportPDF rt salesData sd ed a l)"
proof -
  let ?os = "case salesData of None \<Rightarrow> [] | Some orders \<Rightarrow> orders"
  from sales_rows_shape [of rt 0 rows "[]" "salesFirstPage rt sd ed l" "report_top rt + 25" 0]
  obtain ps p where f: "fst (sales_table rt rows sd ed l) = mk_doc ps p"
    by (auto simp: sales_table_mk)
  then obtain y g where t: "sales_table rt rows sd ed l = (mk_doc ps p, y, g)"
    by (metis prod.collapse)
  obtain ps1 p1 y1 where
    g: "sales_grand_total rt (mk_doc ps p, y, g) = (mk_doc ps1 p1, y1)"
    and e1: "extends (mk_doc ps p) (mk_doc ps1 p1)"
    by (cases "y > 265") (simp_all add: sales_grand_total_mk extends_mk extends_mk_new)
  obtain ps2 p2 where
    s: "sales_summary rt ?os rows (mk_doc ps1 p1, y1) = mk_doc ps2 p2"
    and e2: "extends (mk_doc ps1 p1) (mk_doc ps2 p2)"
    by (cases "y1 + 35 > 280") (simp_all add: sales_summary_mk extends_mk extends_mk_new)
  have "generateSalesReportPDF rt salesData sd ed a l = stampFooters rt a (mk_doc ps2 p2)"
    using t g s assms by (simp add: generateSalesReportPDF_def Let_def)
  then show ?thesis
    unfolding f using e1 e2 extends_stampFooters [of "mk_doc ps2 p2" rt a]
    by (metis extends_trans)
qed

lemma extends_hd_subset:
  assumes "extends d d'" "pages d \<noteq> []"
  shows "set (hd (pages d)) \<subseteq> set (hd (pages d'))"
proof -
  from assms have "prefix (pages d ! 0) (pages d' ! 0)" and "pages d' \<noteq> []"
    by (auto simp: extends_def)
  then show ?thesis using assms(2) by (auto simp: hd_conv_nth prefix_def)
qed

lemma flattened_order_of_38:
  "flattenedData reference_runtime [order_of_38]
     = replicate 38 \<lparr>row_orderId = JString ''S-4'', row_customerName = JString ''Dan'',
                      row_orderDate = ''N/A'', row_productName = ''Battery'',
                      row_quantity = 1, row_unitPrice = 100, row_totalPrice = 100\<rparr>"
  by (simp add: flattenedData_def order_of_38_def js_includes_def allowedStatuses_def num_or_zero_def
        formatDate_def)

theorem row_reaches_below_threshold_counterexample:
  "length (flattenedData reference_runtime [order_of_38]) = 38
   \<and> Text ''Battery'' 50 267 AlignLeft
       \<in> set (hd (pages (generateSalesReportPDF reference_runtime (Some [order_of_38])
                           JNull JNull ''admin'' ''Daily'')))
   \<and> \<not> (267 + 6 \<le> (270::rat))"
proof -
  let ?r = "\<lparr>row_orderId = JString ''S-4'', row_customerName = JString ''Dan'',
                      row_orderDate = ''N/A'', row_productName = ''Battery'',
                      row_quantity = 1, row_unitPrice = 100, row_totalPrice = 100\<rparr>"
  let ?rows = "flattenedData reference_runtime [order_of_38]"
  let ?P = "salesFirstPage reference_runtime JNull JNull ''Daily''"
  have "replicate 38 ?r = replicate 37 ?r @ replicate 1 ?r"
    using replicate_add [of 37 1 ?r] by simp
  then have rows: "?rows = replicate 37 ?r @ [?r]"
    by (simp add: flattened_order_of_38)
  have top: "report_top reference_runtime + 25 = 45" by (simp add: report_top_def reference_fields)
  from sales_rows_no_break [of 45 "replicate 37 ?r" reference_runtime 0 "[]" ?P 0]
  obtain c where c: "sales_rows reference_runtime 0 (replicate 37 ?r) (mk_doc [] ?P, 45, 0)
         = (mk_doc [] (?P @ c), 267, 0 + sum_list (map row_totalPrice (replicate 37 ?r)))"
    by auto
  have "fst (sales_table reference_runtime ?rows JNull JNull ''Daily'')
          = mk_doc [] (?P @ c @ sales_row_cmds reference_runtime 37 ?r 267)"
    unfolding sales_table_mk top rows sales_rows_append c
    by (simp add: sales_row_step_mk)
  moreover have "Text ''Battery'' 50 267 AlignLeft \<in> set (sales_row_cmds reference_runtime 37 ?r 267)"
    by (simp add: sales_row_cmds_def truncateText_def)
  ultimately have "Text ''Battery'' 50 267 AlignLeft
       \<in> set (hd (pages (fst (sales_table reference_runtime ?rows JNull JNull ''Daily''))))"
    by simp
  moreover have "extends (fst (sales_table reference_runtime ?rows JNull JNull ''Daily''))
           (generateSalesReportPDF reference_runtime (Some [order_of_38]) JNull JNull ''admin'' ''Daily'')"
    by (rule sales_report_extends) simp
  moreover have "pages (fst (sales_table reference_runtime ?rows JNull JNull ''Daily'')) \<noteq> []"
    using \<open>fst (sales_table reference_runtime ?rows JNull JNull ''Daily'')
          = mk_doc [] (?P @ c @ sales_row_cmds reference_runtime 37 ?r 267)\<close> by simp
  ultimately have "Text ''Battery'' 50 267 AlignLeft
       \<in> set (hd (pages (generateSalesReportPDF reference_runtime (Some [order_of_38])
                           JNull JNull ''admin'' ''Daily'')))"
    using extends_hd_subset by blast
  then show ?thesis by (simp add: flattened_order_of_38)
qed

lemma baseline_receipt_row:
  "y \<le> 750 \<Longrightarrow> c \<in> set (receipt_row_cmds rt it y) \<Longrightarrow> baseline_at_most 766 c"
  by (auto simp: receipt_row_cmds_def Let_def split: if_splits)

lemma receipt_rows_baseline:
  assumes "\<forall>c\<in>set (concat ps @ p). baseline_at_most 766 c"
  shows "\<forall>c\<in>set (stream (fst (receipt_rows rt its (mk_doc ps p, y)))). baseline_at_most 766 c"
  using assms
proof (induction its arbitrary: ps p y)
  case Nil
  then show ?case by simp
next
  case (Cons it its)
  show ?case
  proof (cases "y > 750")
    case True
    have "\<forall>c\<in>set (concat (ps @ [p]) @ receipt_row_cmds rt it 40). baseline_at_most 766 c"
      using Cons.prems baseline_receipt_row [of 40 _ rt it] by auto
    from Cons.IH [OF this, of "40 + rowHeight rt it"] True
    show ?thesis by (simp add: receipt_row_step_mk)
  next
    case False
    have "\<forall>c\<in>set (concat ps @ p @ receipt_row_cmds rt it y). baseline_at_most 766 c"
      using Cons.prems baseline_receipt_row [of y _ rt it] False by auto
    from Cons.IH [of ps "p @ receipt_row_cmds rt it y" "y + rowHeight rt it"] this False
    show ?thesis by (simp add: receipt_row_step_mk)
  qed
qed

lemma pages_emits_length: "at_last d \<Longrightarrow> length (pages (emits cs d)) = length (pages d)"
  by (simp add: pages_emits at_last_def)

text \<open>
  C1 (amended). The page-break test at the head of each row looks at the cursor alone: a
  new page is started (and the cursor reset to the top, 20 plus the header block in the
  sales report, 40 on the receipt) exactly when the cursor exceeds the threshold, 270 in
  the sales report and 750 on the receipt; the height of the row to be drawn does not
  enter the test. Consequently every row is drawn with its cursor at or above the
  threshold: every text the sales row loop draws has a baseline of at most 270 (so a row,
  6 high, ends at most at 276), and every quantity, unit price and amount the receipt
  row loop draws has a baseline, cursor plus 16, of at most 766.
\<close>

theorem rows_start_at_or_above_threshold:
  "snd (sales_page_break rt (d, y)) = (if y > 270 then 28 else y)
   \<and> (at_last d \<longrightarrow>
        length (pages (fst (sales_page_break rt (d, y)))) = (if y > 270 then Suc (length (pages d)) else length (pages d)))
   \<and> receipt_page_break (d, y) = (if y > 750 then (addPage d, 40) else (d, y))
   \<and> (\<forall>c\<in>set (stream (fst (sales_rows rt i rows (new_jsPDF, y, g)))). baseline_at_most 270 c)
   \<and> (\<forall>c\<in>set (stream (fst (receipt_rows rt its (new_jsPDF, y)))). baseline_at_most 766 c)"
proof -
  have 1: "snd (sales_page_break rt (d, y)) = (if y > 270 then 28 else y)"
    by (simp add: sales_page_break_def)
  have 2: "at_last d \<longrightarrow>
        length (pages (fst (sales_page_break rt (d, y)))) = (if y > 270 then Suc (length (pages d)) else length (pages d))"
    by (simp add: sales_page_break_def drawTableHeaders_def pages_emits_length)
  have 3: "receipt_page_break (d, y) = (if y > 750 then (addPage d, 40) else (d, y))"
    by (simp add: receipt_page_break_def margin_def)
  have 4: "\<forall>c\<in>set (stream (fst (sales_rows rt i rows (new_jsPDF, y, g)))). baseline_at_most 270 c"
    unfolding new_jsPDF_mk by (rule sales_rows_baseline) simp
  have 5: "\<forall>c\<in>set (stream (fst (receipt_rows rt its (new_jsPDF, y)))). baseline_at_most 766 c"
    unfolding new_jsPDF_mk by (rule receipt_rows_baseline) simp
  from 1 2 3 4 5 show ?thesis by blast
qed

theorem rows_start_at_or_above_threshold_witness:
  "at_last new_jsPDF
   \<and> snd (sales_page_break reference_runtime (new_jsPDF, 273)) = 28
   \<and> length (pages (fst (sales_page_break reference_runtime (new_jsPDF, 273)))) = 2
   \<and> Text ''Heavy Duty Ceramic Brake Pad S...'' 50 28 AlignLeft
       \<in> set (stream (fst (sales_rows reference_runtime 0 [long_named_row] (new_jsPDF, 273, 0))))
   \<and> baseline_at_most 270 (Text ''Heavy Duty Ceramic Brake Pad S...'' 50 28 AlignLeft)
   \<and> Text ''PHP 10.00'' (colAmt_Right reference_runtime) 56 AlignRight
       \<in> set (stream (fst (receipt_rows reference_runtime (rc_items mismatched_receipt) (new_jsPDF, 770))))
   \<and> baseline_at_most 766 (Text ''PHP 10.00'' (colAmt_Right reference_runtime) 56 AlignRight)"
proof -
  note inst = rows_start_at_or_above_threshold
                [of reference_runtime new_jsPDF 273 0 "[long_named_row]" 0 "rc_items mismatched_receipt"]
  note inst2 = rows_start_at_or_above_threshold
                [of reference_runtime new_jsPDF 770 0 "[]" 0 "rc_items mismatched_receipt"]
  have a: "Text ''Heavy Duty Ceramic Brake Pad S...'' 50 28 AlignLeft
       \<in> set (stream (fst (sales_rows reference_runtime 0 [long_named_row] (new_jsPDF, 273, 0))))"
    by (simp add: new_jsPDF_mk sales_row_step_mk sales_row_cmds_def truncateText_def long_named_row_def)
  have its: "rc_items mismatched_receipt = [hd (rc_items mismatched_receipt)]"
    by (simp add: mismatched_receipt_def)
  have sub: "it_sub reference_runtime (hd (rc_items mismatched_receipt)) = Num 10"
    by (simp add: it_sub_def it_unit_def it_qty_def mismatched_receipt_def js_or_def)
  have "Text ''PHP 10.00'' (colAmt_Right reference_runtime) 56 AlignRight
             \<in> set (receipt_row_cmds reference_runtime (hd (rc_items mismatched_receipt)) 40)"
    using receipt_row_amount [of reference_runtime "hd (rc_items mismatched_receipt)" 40] sub
    by (simp add: it_sub_def reference_peso reference_two_decimals_more)
  then have b: "Text ''PHP 10.00'' (colAmt_Right reference_runtime) 56 AlignRight
       \<in> set (stream (fst (receipt_rows reference_runtime (rc_items mismatched_receipt) (new_jsPDF, 770))))"
    by (subst its) (simp add: new_jsPDF_mk receipt_row_step_mk)
  from inst a have "baseline_at_most 270 (Text ''Heavy Duty Ceramic Brake Pad S...'' 50 28 AlignLeft)"
    by blast
  moreover from inst2 b have "baseline_at_most 766 (Text ''PHP 10.00'' (colAmt_Right reference_runtime) 56 AlignRight)"
    by blast
  moreover from inst have "snd (sales_page_break reference_runtime (new_jsPDF, 273)) = 28"
    "length (pages (fst (sales_page_break reference_runtime (new_jsPDF, 273)))) = 2"
    by simp_all
  ultimately show ?thesis using a b by simp
qed

section \<open>Column headers on later pages\<close>

lemma extends_mk_cont [simp]:
  "extends (mk_doc ps p) (mk_doc (ps @ [p @ c]) q)"
  "extends (mk_doc ps p) (mk_doc ps (p @ c))"
  "extends (mk_doc ps p) (mk_doc (ps @ [p]) q)"
  using shape_extends [of "ps @ [p @ c]" q ps p c "[q]"] shape_extends [of ps "p @ c" ps p c "[]"]
        extends_mk_new [of ps p q]
  by simp_all

lemma extends_nth_prefix:
  "extends T D \<Longrightarrow> i < length (pages T) \<Longrightarrow> prefix H (pages T ! i) \<Longrightarrow> prefix H (pages D ! i)"
  unfolding extends_def using prefix_order.order_trans by blast

lemma report_title_mk:
  "\<exists>cs. report_title rt title sd ed = (mk_doc [] cs, report_top rt + 17)"
  by (simp add: report_title_def new_jsPDF_mk report_top_def Let_def)

subsection \<open>Inventory\<close>

lemma inventory_page_break_mk:
  "inventory_page_break rt (mk_doc ps p, y) =
     (if y > 270
      then (mk_doc (ps @ [p]) (inventoryHeaderCmds rt @ [SetFont ''helvetica'' ''normal'', SetFontSize 8]), 28)
      else (mk_doc ps p, y))"
  by (simp add: inventory_page_break_def inventoryHeaderCmds_def Let_def)

lemma inventory_row_step_mk:
  "inventory_row_step rt i item (mk_doc ps p, y) =
     (if y > 270
      then (mk_doc (ps @ [p])
              (inventoryHeaderCmds rt @ [SetFont ''helvetica'' ''normal'', SetFontSize 8]
                 @ inventory_row_cmds rt i item 28), 34)
      else (mk_doc ps (p @ inventory_row_cmds rt i item y), y + 6))"
  by (simp add: inventory_row_step_def inventory_page_break_mk)

lemma inventory_rows_shape:
  "\<exists>ps' p' y' c0 qs. inventory_rows rt i rows (mk_doc ps p, y) = (mk_doc ps' p', y')
      \<and> ps' @ [p'] = ps @ (p @ c0) # qs
      \<and> (\<forall>q\<in>set qs. prefix (inventoryHeaderCmds rt) q)"
proof (induction rows arbitrary: i ps p y)
  case Nil
  have "ps @ [p] = ps @ (p @ []) # []" by simp
  then show ?case by (metis empty_iff empty_set inventory_rows.simps(1))
next
  case (Cons item rows)
  show ?case
  proof (cases "y > 270")
    case True
    let ?p1 = "inventoryHeaderCmds rt @ [SetFont ''helvetica'' ''normal'', SetFontSize 8]
                 @ inventory_row_cmds rt i item 28"
    from Cons.IH [of "Suc i" "ps @ [p]" ?p1 34]
    obtain ps' p' y' c0 qs where
      d: "inventory_rows rt (Suc i) rows (mk_doc (ps @ [p]) ?p1, 34) = (mk_doc ps' p', y')"
      and sh: "ps' @ [p'] = (ps @ [p]) @ (?p1 @ c0) # qs"
      and hd: "\<forall>q\<in>set qs. prefix (inventoryHeaderCmds rt) q"
      by blast
    have "ps' @ [p'] = ps @ (p @ []) # ((?p1 @ c0) # qs)" using sh by simp
    moreover have "\<forall>q\<in>set ((?p1 @ c0) # qs). prefix (inventoryHeaderCmds rt) q"
      using hd by simp
    moreover have "inventory_rows rt i (item # rows) (mk_doc ps p, y) = (mk_doc ps' p', y')"
      using d True by (simp add: inventory_row_step_mk)
    ultimately show ?thesis by blast
  next
    case False
    from Cons.IH [of "Suc i" ps "p @ inventory_row_cmds rt i item y" "y + 6"]
    obtain ps' p' y' c0 qs where
      d: "inventory_rows rt (Suc i) rows (mk_doc ps (p @ inventory_row_cmds rt i item y), y + 6) = (mk_doc ps' p', y')"
      and sh: "ps' @ [p'] = ps @ ((p @ inventory_row_cmds rt i item y) @ c0) # qs"
      and hd: "\<forall>q\<in>set qs. prefix (inventoryHeaderCmds rt) q"
      by blast
    have "ps' @ [p'] = ps @ (p @ (inventory_row_cmds rt i item y @ c0)) # qs" using sh by simp
    moreover have "inventory_rows rt i (item # rows) (mk_doc ps p, y) = (mk_doc ps' p', y')"
      using d False by (simp add: inventory_row_step_mk)
    ultimately show ?thesis using hd by blast
  qed
qed

lemma inventory_summary_extends:
  "extends (mk_doc ps p) (inventory_summary rt stock (mk_doc ps p, y))"
  by (simp add: inventory_summary_def Let_def)

lemma inventory_report_pages:
  obtains ps p y cs c0 qs where
    "inventory_table rt stock sd ed = (mk_doc ps p, y)"
    "ps @ [p] = ((cs @ inventoryLabelCmds (report_top rt + 17)
                   @ [SetLineWidth (1 / 2),
                      Line 15 (report_top rt + 20) (pageWidth rt - 15) (report_top rt + 20)]) @ c0) # qs"
    "\<forall>q\<in>set qs. prefix (inventoryHeaderCmds rt) q"
    "extends (mk_doc ps p) (generateInventoryReportPDF rt stock sd ed a)"
proof -
  obtain cs where t: "report_title rt ''Inventory Report'' sd ed = (mk_doc [] cs, report_top rt + 17)"
    using report_title_mk by blast
  let ?p0 = "(cs @ [SetFont ''helvetica'' ''bold'', SetFontSize 9]) @ inventoryLabelCmds (report_top rt + 17)
                   @ [SetLineWidth (1 / 2),
                      Line 15 (report_top rt + 20) (pageWidth rt - 15) (report_top rt + 20)]"
  have tab: "inventory_table rt stock sd ed
          = inventory_rows rt 0 stock (mk_doc [] (?p0 @ [SetFont ''helvetica'' ''normal'', SetFontSize 8]),
                                      report_top rt + 25)"
    by (simp add: inventory_table_def t Let_def ac_simps)
  from inventory_rows_shape [of rt 0 stock "[]" "?p0 @ [SetFont ''helvetica'' ''normal'', SetFontSize 8]" "report_top rt + 25"]
  obtain ps p y c0 qs where
    r: "inventory_table rt stock sd ed = (mk_doc ps p, y)"
    and sh: "ps @ [p] = [] @ ((?p0 @ [SetFont ''helvetica'' ''normal'', SetFontSize 8]) @ c0) # qs"
    and hd: "\<forall>q\<in>set qs. prefix (inventoryHeaderCmds rt) q"
    unfolding tab by blast
  have sh': "ps @ [p] = (((cs @ [SetFont ''helvetica'' ''bold'', SetFontSize 9]) @ inventoryLabelCmds (report_top rt + 17)
                   @ [SetLineWidth (1 / 2),
                      Line 15 (report_top rt + 20) (pageWidth rt - 15) (report_top rt + 20)])
                 @ ([SetFont ''helvetica'' ''normal'', SetFontSize 8] @ c0)) # qs"
    using sh by simp
  have "extends (mk_doc ps p) (generateInventoryReportPDF rt stock sd ed a)"
    unfolding generateInventoryReportPDF_def r
    using inventory_summary_extends [of ps p rt stock y]
          extends_stampFooters [of "inventory_summary rt stock (mk_doc ps p, y)" rt a]
    by (rule extends_trans)
  with r sh' hd show ?thesis by (rule that)
qed

subsection \<open>Returns\<close>

lemma returns_page_break_mk:
  "returns_page_break rt (mk_doc ps p, y) =
     (if y > 270
      then (mk_doc (ps @ [p]) (returnsHeaderCmds rt 20 @ [SetFont ''helvetica'' ''normal'', SetFontSize 8]), 28)
      else (mk_doc ps p, y))"
  by (simp add: returns_page_break_def)

lemma returns_row_step_mk:
  "returns_row_step rt i item (mk_doc ps p, y, g) =
     (if y > 270
      then (mk_doc (ps @ [p])
              (returnsHeaderCmds rt 20 @ [SetFont ''helvetica'' ''normal'', SetFontSize 8]
                 @ returns_row_cmds rt i item 28), 34, g + num_or_zero rt (refund_amount item))
      else (mk_doc ps (p @ returns_row_cmds rt i item y), y + 6, g + num_or_zero rt (refund_amount item)))"
  by (simp add: returns_row_step_def returns_page_break_mk)

lemma returns_rows_shape:
  "\<exists>ps' p' y' g' c0 qs. returns_rows rt i rows (mk_doc ps p, y, g) = (mk_doc ps' p', y', g')
      \<and> ps' @ [p'] = ps @ (p @ c0) # qs
      \<and> (\<forall>q\<in>set qs. prefix (returnsHeaderCmds rt 20) q)"
proof (induction rows arbitrary: i ps p y g)
  case Nil
  have "ps @ [p] = ps @ (p @ []) # []" by simp
  then show ?case by (metis empty_iff empty_set returns_rows.simps(1))
next
  case (Cons item rows)
  show ?case
  proof (cases "y > 270")
    case True
    let ?p1 = "returnsHeaderCmds rt 20 @ [SetFont ''helvetica'' ''normal'', SetFontSize 8]
                 @ returns_row_cmds rt i item 28"
    from Cons.IH [of "Suc i" "ps @ [p]" ?p1 34 "g + num_or_zero rt (refund_amount item)"]
    obtain ps' p' y' g' c0 qs where
      d: "returns_rows rt (Suc i) rows (mk_doc (ps @ [p]) ?p1, 34, g + num_or_zero rt (refund_amount item))
            = (mk_doc ps' p', y', g')"
      and sh: "ps' @ [p'] = (ps @ [p]) @ (?p1 @ c0) # qs"
      and hd: "\<forall>q\<in>set qs. prefix (returnsHeaderCmds rt 20) q"
      by blast
    have "ps' @ [p'] = ps @ (p @ []) # ((?p1 @ c0) # qs)" using sh by simp
    moreover have "\<forall>q\<in>set ((?p1 @ c0) # qs). prefix (returnsHeaderCmds rt 20) q"
      using hd by simp
    moreover have "returns_rows rt i (item # rows) (mk_doc ps p, y, g) = (mk_doc ps' p', y', g')"
      using d True by (simp add: returns_row_step_mk)
    ultimately show ?thesis by blast
  next
    case False
    from Cons.IH [of "Suc i" ps "p @ returns_row_cmds rt i item y" "y + 6" "g + num_or_zero rt (refund_amount item)"]
    obtain ps' p' y' g' c0 qs where
      d: "returns_rows rt (Suc i) rows (mk_doc ps (p @ returns_row_cmds rt i item y), y + 6,
                                        g + num_or_zero rt (refund_amount item))
            = (mk_doc ps' p', y', g')"
      and sh: "ps' @ [p'] = ps @ ((p @ returns_row_cmds rt i item y) @ c0) # qs"
      and hd: "\<forall>q\<in>set qs. prefix (returnsHeaderCmds rt 20) q"
      by blast
    have "ps' @ [p'] = ps @ (p @ (returns_row_cmds rt i item y @ c0)) # qs" using sh by simp
    moreover have "returns_rows rt i (item # rows) (mk_doc ps p, y, g) = (mk_doc ps' p', y', g')"
      using d False by (simp add: returns_row_step_mk)
    ultimately show ?thesis using hd by blast
  qed
qed

lemma returns_summary_extends:
  "extends (mk_doc ps p) (returns_summary rt rows (mk_doc ps p, y, g))"
  by (simp add: returns_summary_def Let_def)

lemma returns_report_pages:
  obtains ps p y g cs c0 qs where
    "returns_table rt rows sd ed = (mk_doc ps p, y, g)"
    "ps @ [p] = ((cs @ returnsHeaderCmds rt (report_top rt + 17)) @ c0) # qs"
    "\<forall>q\<in>set qs. prefix (returnsHeaderCmds rt 20) q"
    "extends (mk_doc ps p) (generateReturnsReportPDF rt rows sd ed a)"
proof -
  obtain cs where t: "report_title rt ''Returns Report'' sd ed = (mk_doc [] cs, report_top rt + 17)"
    using report_title_mk by blast
  let ?p0 = "cs @ returnsHeaderCmds rt (report_top rt + 17)"
  have tab: "returns_table rt rows sd ed
          = returns_rows rt 0 rows (mk_doc [] (?p0 @ [SetFont ''helvetica'' ''normal'', SetFontSize 8]),
                                    report_top rt + 25, 0)"
    by (simp add: returns_table_def t Let_def ac_simps)
  from returns_rows_shape [of rt 0 rows "[]" "?p0 @ [SetFont ''helvetica'' ''normal'', SetFontSize 8]" "report_top rt + 25" 0]
  obtain ps p y g c0 qs where
    r: "returns_table rt rows sd ed = (mk_doc ps p, y, g)"
    and sh: "ps @ [p] = [] @ ((?p0 @ [SetFont ''helvetica'' ''normal'', SetFontSize 8]) @ c0) # qs"
    and hd: "\<forall>q\<in>set qs. prefix (returnsHeaderCmds rt 20) q"
    unfolding tab by blast
  have sh': "ps @ [p] = ((cs @ returnsHeaderCmds rt (report_top rt + 17))
                 @ ([SetFont ''helvetica'' ''normal'', SetFontSize 8] @ c0)) # qs"
    using sh by simp
  have "extends (mk_doc ps p) (generateReturnsReportPDF rt rows sd ed a)"
    unfolding generateReturnsReportPDF_def r
    using returns_summary_extends [of ps p rt rows y g]
          extends_stampFooters [of "returns_summary rt rows (mk_doc ps p, y, g)" rt a]
    by (rule extends_trans)
  with r sh' hd show ?thesis by (rule that)
qed

subsection \<open>Sales\<close>

lemma sales_report_pages:
  assumes "rows = flattenedData rt (case salesData of None \<Rightarrow> [] | Some orders \<Rightarrow> orders)"
  obtains ps p cs c0 qs where
    "fst (sales_table rt rows sd ed l) = mk_doc ps p"
    "ps @ [p] = ((cs @ tableHeaderCmds rt (report_top rt + 17)) @ c0) # qs"
    "\<forall>q\<in>set qs. prefix (tableHeaderCmds rt 20) q"
    "extends (mk_doc ps p) (generateSalesReportPDF rt salesData sd ed a l)"
proof -
  let ?cs = "(if logoDataUrl rt then [AddImage ((pageWidth rt - 30) / 2) 20 30 22] else [])
     @ [SetFontSize 18, SetFont ''helvetica'' ''bold'',
        Text ''Sales Report'' (pageWidth rt / 2) (report_top rt) AlignCenter,
        SetFontSize 10, SetFont ''helvetica'' ''normal'',
        Text (''Period: '' @ formatPeriodText rt sd ed l)
             (pageWidth rt / 2) (report_top rt + 7) AlignCenter,
        SetFontSize 9, SetFont ''helvetica'' ''bold'']"
  have P: "salesFirstPage rt sd ed l
             = (?cs @ tableHeaderCmds rt (report_top rt + 17)) @ [SetFont ''helvetica'' ''normal'', SetFontSize 8]"
    by (simp add: salesFirstPage_def)
  from sales_rows_shape [of rt 0 rows "[]" "salesFirstPage rt sd ed l" "report_top rt + 25" 0]
  obtain ps p c0 qs where
    f: "fst (sales_table rt rows sd ed l) = mk_doc ps p"
    and sh: "ps @ [p] = [] @ (salesFirstPage rt sd ed l @ c0) # qs"
    and hd: "\<forall>q\<in>set qs. prefix (tableHeaderCmds rt 20) q"
    by (auto simp: sales_table_mk)
  have sh': "ps @ [p] = ((?cs @ tableHeaderCmds rt (report_top rt + 17))
                          @ ([SetFont ''helvetica'' ''normal'', SetFontSize 8] @ c0)) # qs"
    using sh unfolding P by simp
  have "extends (mk_doc ps p) (generateSalesReportPDF rt salesData sd ed a l)"
    using sales_report_extends [OF assms, of sd ed l a] unfolding f .
  with f sh' hd show ?thesis by (rule that)
qed

subsection \<open>Pages of a finished report\<close>

lemma report_later_pages:
  assumes "ps @ [p] = (P0 @ c0) # qs" "\<forall>q\<in>set qs. prefix H q" "extends (mk_doc ps p) D"
    and "0 < i" "i < length (pages (mk_doc ps p))"
  shows "prefix H (pages D ! i)"
proof -
  have "pages (mk_doc ps p) ! i = qs ! (i - 1)" "i - 1 < length qs"
    using assms(1,4,5) by (auto simp: nth_Cons split: nat.splits)
  then have "prefix H (pages (mk_doc ps p) ! i)" using assms(2) by simp
  with assms(3,5) show ?thesis by (rule extends_nth_prefix)
qed

lemma report_first_page:
  assumes "ps @ [p] = (P0 @ c0) # qs" "extends (mk_doc ps p) D"
  shows "\<exists>post. pages D ! 0 = P0 @ post"
proof -
  have "pages (mk_doc ps p) ! 0 = P0 @ c0" "0 < length (pages (mk_doc ps p))"
    using assms(1) by simp_all
  with assms(2) have "prefix (P0 @ c0) (pages D ! 0)"
    unfolding extends_def by metis
  then show ?thesis by (auto simp: prefix_def)
qed

text \<open>
  C3 (amended). In the sales, inventory and returns reports, every page that the row loop
  starts (pages \<open>1\<close> up to the last page of the table) begins with a redrawn column-header
  block: the same labels at the same column x-positions as on page 1, with the separator
  beneath, drawn at \<open>y = 20\<close>. Page 1 carries the same block below the title, at
  \<open>report_top + 17\<close>. (Pages started after the table, for the Grand Total row or the summary
  panel, carry no column header, and the receipt draws its column header once only.)
\<close>

theorem table_pages_begin_with_column_header:
  "(rows = flattenedData rt (case salesData of None \<Rightarrow> [] | Some orders \<Rightarrow> orders)
      \<and> 0 < i \<and> i < length (pages (fst (sales_table rt rows sd ed l)))
      \<longrightarrow> prefix (tableHeaderCmds rt 20) (pages (generateSalesReportPDF rt salesData sd ed a l) ! i))
   \<and> (\<exists>pre post. pages (generateSalesReportPDF rt salesData sd ed a l) ! 0
          = pre @ tableHeaderCmds rt (report_top rt + 17) @ post)
   \<and> (0 < i \<and> i < length (pages (fst (inventory_table rt stock sd ed)))
      \<longrightarrow> prefix (SetFont ''helvetica'' ''bold'' # inventoryLabelCmds 20 @ [Line 15 23 (pageWidth rt - 15) 23])
                 (pages (generateInventoryReportPDF rt stock sd ed a) ! i))
   \<and> (\<exists>pre post. pages (generateInventoryReportPDF rt stock sd ed a) ! 0
          = pre @ inventoryLabelCmds (report_top rt + 17)
              @ [SetLineWidth (1 / 2),
                 Line 15 (report_top rt + 20) (pageWidth rt - 15) (report_top rt + 20)] @ post)
   \<and> (0 < i \<and> i < length (pages (fst (returns_table rt returns sd ed)))
      \<longrightarrow> prefix (returnsHeaderCmds rt 20) (pages (generateReturnsReportPDF rt returns sd ed a) ! i))
   \<and> (\<exists>pre post. pages (generateReturnsReportPDF rt returns sd ed a) ! 0
          = pre @ returnsHeaderCmds rt (report_top rt + 17) @ post)"
proof -
  let ?os = "case salesData of None \<Rightarrow> [] | Some orders \<Rightarrow> orders"
  have s1: "rows = flattenedData rt ?os \<and> 0 < i \<and> i < length (pages (fst (sales_table rt rows sd ed l)))
      \<longrightarrow> prefix (tableHeaderCmds rt 20) (pages (generateSalesReportPDF rt salesData sd ed a l) ! i)"
  proof (intro impI, elim conjE)
    assume r: "rows = flattenedData rt ?os" and i: "0 < i" "i < length (pages (fst (sales_table rt rows sd ed l)))"
    obtain ps p cs c0 qs where
      f: "fst (sales_table rt rows sd ed l) = mk_doc ps p"
      and sh: "ps @ [p] = ((cs @ tableHeaderCmds rt (report_top rt + 17)) @ c0) # qs"
      and hd: "\<forall>q\<in>set qs. prefix (tableHeaderCmds rt 20) q"
      and e: "extends (mk_doc ps p) (generateSalesReportPDF rt salesData sd ed a l)"
      by (rule sales_report_pages [OF r])
    from sh hd e i(1) i(2) [unfolded f]
    show "prefix (tableHeaderCmds rt 20) (pages (generateSalesReportPDF rt salesData sd ed a l) ! i)"
      by (rule report_later_pages)
  qed
  have s0: "\<exists>pre post. pages (generateSalesReportPDF rt salesData sd ed a l) ! 0
          = pre @ tableHeaderCmds rt (report_top rt + 17) @ post"
  proof -
    obtain ps p cs c0 qs where
      sh: "ps @ [p] = ((cs @ tableHeaderCmds rt (report_top rt + 17)) @ c0) # qs"
      and e: "extends (mk_doc ps p) (generateSalesReportPDF rt salesData sd ed a l)"
      by (rule sales_report_pages [OF refl, of rt salesData sd ed l a])
    from report_first_page [OF sh e] show ?thesis by (metis append.assoc)
  qed
  have i1: "0 < i \<and> i < length (pages (fst (inventory_table rt stock sd ed)))
      \<longrightarrow> prefix (SetFont ''helvetica'' ''bold'' # inventoryLabelCmds 20 @ [Line 15 23 (pageWidth rt - 15) 23])
                 (pages (generateInventoryReportPDF rt stock sd ed a) ! i)"
  proof (intro impI, elim conjE)
    assume i: "0 < i" "i < length (pages (fst (inventory_table rt stock sd ed)))"
    obtain ps p y cs c0 qs where
      f: "inventory_table rt stock sd ed = (mk_doc ps p, y)"
      and sh: "ps @ [p] = ((cs @ inventoryLabelCmds (report_top rt + 17)
                   @ [SetLineWidth (1 / 2),
                      Line 15 (report_top rt + 20) (pageWidth rt - 15) (report_top rt + 20)]) @ c0) # qs"
      and hd: "\<forall>q\<in>set qs. prefix (inventoryHeaderCmds rt) q"
      and e: "extends (mk_doc ps p) (generateInventoryReportPDF rt stock sd ed a)"
      by (rule inventory_report_pages)
    have i2: "i < length (pages (mk_doc ps p))" using i(2) f by simp
    from sh hd e i(1) i2
    have "prefix (inventoryHeaderCmds rt) (pages (generateInventoryReportPDF rt stock sd ed a) ! i)"
      by (rule report_later_pages)
    then show "prefix (SetFont ''helvetica'' ''bold'' # inventoryLabelCmds 20 @ [Line 15 23 (pageWidth rt - 15) 23])
                 (pages (generateInventoryReportPDF rt stock sd ed a) ! i)"
      by (simp only: inventoryHeaderCmds_def)
  qed
  have i0: "\<exists>pre post. pages (generateInventoryReportPDF rt stock sd ed a) ! 0
          = pre @ inventoryLabelCmds (report_top rt + 17)
              @ [SetLineWidth (1 / 2),
                 Line 15 (report_top rt + 20) (pageWidth rt - 15) (report_top rt + 20)] @ post"
  proof -
    obtain ps p cs c0 qs where
      sh: "ps @ [p] = ((cs @ inventoryLabelCmds (report_top rt + 17)
                   @ [SetLineWidth (1 / 2),
                      Line 15 (report_top rt + 20) (pageWidth rt - 15) (report_top rt + 20)]) @ c0) # qs"
      and e: "extends (mk_doc ps p) (generateInventoryReportPDF rt stock sd ed a)"
      by (rule inventory_report_pages [of rt stock sd ed a])
    from report_first_page [OF sh e] show ?thesis by (metis append.assoc)
  qed
  have r1: "0 < i \<and> i < length (pages (fst (returns_table rt returns sd ed)))
      \<longrightarrow> prefix (returnsHeaderCmds rt 20) (pages (generateReturnsReportPDF rt returns sd ed a) ! i)"
  proof (intro impI, elim conjE)
    assume i: "0 < i" "i < length (pages (fst (returns_table rt returns sd ed)))"
    obtain ps p y g cs c0 qs where
      f: "returns_table rt returns sd ed = (mk_doc ps p, y, g)"
      and sh: "ps @ [p] = ((cs @ returnsHeaderCmds rt (report_top rt + 17)) @ c0) # qs"
      and hd: "\<forall>q\<in>set qs. prefix (returnsHeaderCmds rt 20) q"
      and e: "extends (mk_doc ps p) (generateReturnsReportPDF rt returns sd ed a)"
      by (rule returns_report_pages)
    have i2: "i < length (pages (mk_doc ps p))" using i(2) f by simp
    from sh hd e i(1) i2
    show "prefix (returnsHeaderCmds rt 20) (pages (generateReturnsReportPDF rt returns sd ed a) ! i)"
      by (rule report_later_pages)
  qed
  have r0: "\<exists>pre post. pages (generateReturnsReportPDF rt returns sd ed a) ! 0
          = pre @ returnsHeaderCmds rt (report_top rt + 17) @ post"
  proof -
    obtain ps p cs c0 qs where
      sh: "ps @ [p] = ((cs @ returnsHeaderCmds rt (report_top rt + 17)) @ c0) # qs"
      and e: "extends (mk_doc ps p) (generateReturnsReportPDF rt returns sd ed a)"
      by (rule returns_report_pages [of rt returns sd ed a])
    from report_first_page [OF sh e] show ?thesis by (metis append.assoc)
  qed
  from s1 s0 i1 i0 r1 r0 show ?thesis by (intro conjI)
qed

subsection \<open>A table of two pages\<close>

lemma inventory_rows_append:
  "inventory_rows rt i (xs @ ys) st = inventory_rows rt (i + length xs) ys (inventory_rows rt i xs st)"
  by (induction xs arbitrary: i st) simp_all

lemma inventory_rows_no_break:
  "y + 6 * of_nat (length rows) \<le> 276 \<Longrightarrow>
   \<exists>c. inventory_rows rt i rows (mk_doc ps p, y) = (mk_doc ps (p @ c), y + 6 * of_nat (length rows))"
proof (induction rows arbitrary: i p y)
  case Nil
  then show ?case by simp
next
  case (Cons item rows)
  have y: "\<not> y > 270" using Cons.prems by simp
  have "y + 6 + 6 * of_nat (length rows) \<le> 276" using Cons.prems by (simp add: algebra_simps)
  from Cons.IH [OF this, of "Suc i" "p @ inventory_row_cmds rt i item y"]
  obtain c where
    "inventory_rows rt (Suc i) rows (mk_doc ps ((p @ inventory_row_cmds rt i item y)), y + 6)
       = (mk_doc ps ((p @ inventory_row_cmds rt i item y) @ c), y + 6 + 6 * of_nat (length rows))"
    by blast
  then have "inventory_rows rt i (item # rows) (mk_doc ps p, y)
         = (mk_doc ps (p @ (inventory_row_cmds rt i item y @ c)), y + 6 * of_nat (length (item # rows)))"
    using y by (simp add: inventory_row_step_mk algebra_simps)
  then show ?case by blast
qed

lemma returns_rows_append:
  "returns_rows rt i (xs @ ys) st = returns_rows rt (i + length xs) ys (returns_rows rt i xs st)"
  by (induction xs arbitrary: i st) simp_all

lemma returns_rows_no_break:
  "y + 6 * of_nat (length rows) \<le> 276 \<Longrightarrow>
   \<exists>c g'. returns_rows rt i rows (mk_doc ps p, y, g) = (mk_doc ps (p @ c), y + 6 * of_nat (length rows), g')"
proof (induction rows arbitrary: i p y g)
  case Nil
  then show ?case by simp
next
  case (Cons item rows)
  have y: "\<not> y > 270" using Cons.prems by simp
  have "y + 6 + 6 * of_nat (length rows) \<le> 276" using Cons.prems by (simp add: algebra_simps)
  from Cons.IH [OF this, of "Suc i" "p @ returns_row_cmds rt i item y" "g + num_or_zero rt (refund_amount item)"]
  obtain c g' where
    "returns_rows rt (Suc i) rows (mk_doc ps ((p @ returns_row_cmds rt i item y)), y + 6,
                                   g + num_or_zero rt (refund_amount item))
       = (mk_doc ps ((p @ returns_row_cmds rt i item y) @ c), y + 6 + 6 * of_nat (length rows), g')"
    by blast
  then have "returns_rows rt i (item # rows) (mk_doc ps p, y, g)
         = (mk_doc ps (p @ (returns_row_cmds rt i item y @ c)), y + 6 * of_nat (length (item # rows)), g')"
    using y by (simp add: returns_row_step_mk algebra_simps)
  then show ?case by blast
qed

lemma sales_table_two_pages:
  assumes "report_top rt + 25 + 6 * of_nat (length rows) \<le> 276"
    and "270 < report_top rt + 25 + 6 * of_nat (length rows)"
  shows "length (pages (fst (sales_table rt (rows @ [r]) sd ed l))) = 2"
proof -
  from sales_rows_no_break [OF assms(1), of rt 0 "[]" "salesFirstPage rt sd ed l" 0]
  obtain c where
    "sales_rows rt 0 rows (mk_doc [] (salesFirstPage rt sd ed l), report_top rt + 25, 0)
       = (mk_doc [] (salesFirstPage rt sd ed l @ c), report_top rt + 25 + 6 * of_nat (length rows),
          0 + sum_list (map row_totalPrice rows))"
    by blast
  then show ?thesis
    unfolding sales_table_mk sales_rows_append using assms(2) by (simp add: sales_row_step_mk)
qed

lemma inventory_table_two_pages:
  assumes "report_top rt + 25 + 6 * of_nat (length rows) \<le> 276"
    and "270 < report_top rt + 25 + 6 * of_nat (length rows)"
  shows "length (pages (fst (inventory_table rt (rows @ [r]) sd ed))) = 2"
proof -
  obtain cs where t: "report_title rt ''Inventory Report'' sd ed = (mk_doc [] cs, report_top rt + 17)"
    using report_title_mk by blast
  obtain P where tab: "inventory_table rt (rows @ [r]) sd ed
          = inventory_rows rt 0 (rows @ [r]) (mk_doc [] P, report_top rt + 25)"
    by (simp add: inventory_table_def t Let_def ac_simps)
  from inventory_rows_no_break [OF assms(1), of rt 0 "[]" P]
  obtain c where
    "inventory_rows rt 0 rows (mk_doc [] P, report_top rt + 25)
       = (mk_doc [] (P @ c), report_top rt + 25 + 6 * of_nat (length rows))"
    by blast
  then show ?thesis
    unfolding tab inventory_rows_append using assms(2) by (simp add: inventory_row_step_mk)
qed

lemma returns_table_two_pages:
  assumes "report_top rt + 25 + 6 * of_nat (length rows) \<le> 276"
    and "270 < report_top rt + 25 + 6 * of_nat (length rows)"
  shows "length (pages (fst (returns_table rt (rows @ [r]) sd ed))) = 2"
proof -
  obtain cs where t: "report_title rt ''Returns Report'' sd ed = (mk_doc [] cs, report_top rt + 17)"
    using report_title_mk by blast
  obtain P where tab: "returns_table rt (rows @ [r]) sd ed
          = returns_rows rt 0 (rows @ [r]) (mk_doc [] P, report_top rt + 25, 0)"
    by (simp add: returns_table_def t Let_def ac_simps)
  from returns_rows_no_break [OF assms(1), of rt 0 "[]" P 0]
  obtain c g' where
    "returns_rows rt 0 rows (mk_doc [] P, report_top rt + 25, 0)
       = (mk_doc [] (P @ c), report_top rt + 25 + 6 * of_nat (length rows), g')"
    by blast
  then show ?thesis
    unfolding tab returns_rows_append using assms(2) by (simp add: returns_row_step_mk)
qed

lemma flattened_order_of_39:
  "flattenedData reference_runtime [order_of_39]
     = replicate 38 \<lparr>row_orderId = JString ''S-5'', row_customerName = JString ''Eva'',
                      row_orderDate = ''N/A'', row_productName = ''Battery'',
                      row_quantity = 1, row_unitPrice = 100, row_totalPrice = 100\<rparr>
       @ [\<lparr>row_orderId = JString ''S-5'', row_customerName = JString ''Eva'',
                      row_orderDate = ''N/A'', row_productName = ''Battery'',
                      row_quantity = 1, row_unitPrice = 100, row_totalPrice = 100\<rparr>]"
  by (simp add: flattenedData_def order_of_39_def js_includes_def allowedStatuses_def num_or_zero_def
        formatDate_def)

theorem table_pages_begin_with_column_header_witness:
  "length (pages (fst (sales_table reference_runtime (flattenedData reference_runtime [order_of_39])
                         JNull JNull ''Daily''))) = 2
   \<and> prefix (tableHeaderCmds reference_runtime 20)
        (pages (generateSalesReportPDF reference_runtime (Some [order_of_39]) JNull JNull ''admin'' ''Daily'') ! 1)
   \<and> length (pages (fst (inventory_table reference_runtime stock_of_39 JNull JNull))) = 2
   \<and> prefix (SetFont ''helvetica'' ''bold'' # inventoryLabelCmds 20
                @ [Line 15 23 (pageWidth reference_runtime - 15) 23])
        (pages (generateInventoryReportPDF reference_runtime stock_of_39 JNull JNull ''admin'') ! 1)
   \<and> length (pages (fst (returns_table reference_runtime returns_of_39 JNull JNull))) = 2
   \<and> prefix (returnsHeaderCmds reference_runtime 20)
        (pages (generateReturnsReportPDF reference_runtime returns_of_39 JNull JNull ''admin'') ! 1)"
proof -
  have top: "report_top reference_runtime = 20" by (simp add: report_top_def reference_fields)
  have s: "length (pages (fst (sales_table reference_runtime (flattenedData reference_runtime [order_of_39])
                         JNull JNull ''Daily''))) = 2"
    unfolding flattened_order_of_39 by (rule sales_table_two_pages) (simp_all add: top)
  have i: "length (pages (fst (inventory_table reference_runtime stock_of_39 JNull JNull))) = 2"
    unfolding stock_of_39_def by (rule inventory_table_two_pages) (simp_all add: top)
  have r: "length (pages (fst (returns_table reference_runtime returns_of_39 JNull JNull))) = 2"
    unfolding returns_of_39_def by (rule returns_table_two_pages) (simp_all add: top)
  from table_pages_begin_with_column_header
         [of "flattenedData reference_runtime [order_of_39]" reference_runtime "Some [order_of_39]" 1
             JNull JNull "''Daily''" "''admin''" stock_of_39 returns_of_39]
  show ?thesis using s i r by simp
qed

subsection \<open>The receipt's second page\<close>

lemma rowHeight_ge: "25 \<le> rowHeight rt it"
  by (simp add: rowHeight_def minRowHeight_def Let_def)

lemma receipt_rows_append:
  "receipt_rows rt (xs @ ys) st = receipt_rows rt ys (receipt_rows rt xs st)"
  by (induction xs arbitrary: st) simp_all

lemma receipt_rows_no_break:
  "y + of_nat n * rowHeight rt it \<le> 750 + rowHeight rt it \<Longrightarrow>
   \<exists>c. receipt_rows rt (replicate n it) (mk_doc ps p, y) = (mk_doc ps (p @ c), y + of_nat n * rowHeight rt it)"
proof (induction n arbitrary: p y)
  case 0
  then show ?case by simp
next
  case (Suc n)
  have h: "0 \<le> of_nat n * rowHeight rt it"
    using rowHeight_ge [of rt it] by simp
  have y: "\<not> y > 750" using Suc.prems h by (simp add: algebra_simps)
  have "(y + rowHeight rt it) + of_nat n * rowHeight rt it \<le> 750 + rowHeight rt it"
    using Suc.prems by (simp add: algebra_simps)
  from Suc.IH [OF this, of "p @ receipt_row_cmds rt it y"]
  obtain c where
    "receipt_rows rt (replicate n it) (mk_doc ps (p @ receipt_row_cmds rt it y), y + rowHeight rt it)
       = (mk_doc ps ((p @ receipt_row_cmds rt it y) @ c), y + rowHeight rt it + of_nat n * rowHeight rt it)"
    by blast
  then have "receipt_rows rt (replicate (Suc n) it) (mk_doc ps p, y)
         = (mk_doc ps (p @ (receipt_row_cmds rt it y @ c)), y + of_nat (Suc n) * rowHeight rt it)"
    using y by (simp add: receipt_row_step_mk algebra_simps)
  then show ?case by blast
qed

lemma page_texts_append [simp]: "page_texts (p @ q) = page_texts p @ page_texts q"
  by (simp add: page_texts_def)

theorem receipt_second_page_without_header_counterexample:
  "length (rc_items receipt_of_24) = 24
   \<and> \<not> isl (generateSaleReceipt reference_runtime receipt_of_24)
   \<and> length (pages (projr (generateSaleReceipt reference_runtime receipt_of_24))) = 2
   \<and> ''Item Description''
       \<in> set (page_texts (pages (projr (generateSaleReceipt reference_runtime receipt_of_24)) ! 0))
   \<and> pages (projr (generateSaleReceipt reference_runtime receipt_of_24)) ! 1
       = receipt_row_cmds reference_runtime battery_line 40
         @ receiptTotalsCmds reference_runtime receipt_of_24 ''GCash'' 65
   \<and> ''Item Description''
       \<notin> set (page_texts (pages (projr (generateSaleReceipt reference_runtime receipt_of_24)) ! 1))"
proof -
  let ?rt = reference_runtime
  let ?P = "receiptHeadCmds ?rt receipt_of_24 ''GCash'' @ receiptHeaderCmds ?rt 175
              @ [SetFont ''helvetica'' ''normal'', SetFontSize FONT_SIZE_BODY]"
  have top: "receipt_table_top ?rt receipt_of_24 = 175"
    by (simp add: receipt_table_top_def receipt_info_top_def reference_fields reference_receipt_fields)
  have h: "rowHeight ?rt battery_line = 25"
    by (simp add: rowHeight_def nameHeight_def nameLines_def serialLines_def battery_line_def
          reference_receipt_fields receipt_consts Let_def)
  have its: "rc_items receipt_of_24 = replicate 23 battery_line @ [battery_line]"
    by (simp add: receipt_of_24_def)
  have pm: "default_to (rc_paymentMethod receipt_of_24) (JString ''Cash'') = JString ''GCash''"
    by (simp add: receipt_of_24_def default_to_def)
  from receipt_rows_no_break [of 195 23 ?rt battery_line "[]" ?P]
  obtain c where c: "receipt_rows ?rt (replicate 23 battery_line) (mk_doc [] ?P, 195)
                       = (mk_doc [] (?P @ c), 770)"
    by (auto simp: h)
  have rows: "receipt_rows ?rt (rc_items receipt_of_24) (mk_doc [] ?P, 195)
                = (mk_doc [?P @ c] (receipt_row_cmds ?rt battery_line 40), 65)"
    unfolding its receipt_rows_append c by (simp add: receipt_row_step_mk h)
  have d: "generateSaleReceipt ?rt receipt_of_24
             = Inr (mk_doc [?P @ c] (receipt_row_cmds ?rt battery_line 40
                                      @ receiptTotalsCmds ?rt receipt_of_24 ''GCash'' 65))"
    using rows
    by (simp add: generateSaleReceipt_def pm receipt_table_def receipt_head_mk top receipt_totals_mk Let_def)
  have p0: "''Item Description'' \<in> set (page_texts (?P @ c))"
    by (simp add: receiptHeaderCmds_def page_texts_def)
  have q: "numberToString ?rt (it_qty ?rt battery_line) = ''1''"
    by (simp add: it_qty_def battery_line_def js_or_def reference_fields reference_decimal_string)
  have nl: "nameLines ?rt battery_line = [''Battery'']" "serialLines ?rt battery_line = []"
    by (simp_all add: nameLines_def serialLines_def battery_line_def js_or_def reference_receipt_fields)
  have r1: "''Item Description'' \<notin> set (page_texts (receipt_row_cmds ?rt battery_line 40))"
    by (simp add: page_texts_def receipt_row_cmds_def Let_def q nl peso_def)
  have lc: "toLowerCase ''GCash'' \<noteq> ''cash''"
    by (simp add: toLowerCase_def)
  have r2: "''Item Description'' \<notin> set (page_texts (receiptTotalsCmds ?rt receipt_of_24 ''GCash'' 65))"
    by (simp add: page_texts_def receiptTotalsCmds_def Let_def lc peso_def)
  have p1: "''Item Description'' \<notin> set (page_texts (receipt_row_cmds ?rt battery_line 40
                                      @ receiptTotalsCmds ?rt receipt_of_24 ''GCash'' 65))"
    using r1 r2 by simp
  have n: "length (rc_items receipt_of_24) = 24" by (simp add: its)
  show ?thesis
    unfolding d using p0 p1 n by simp
qed

section \<open>Fallback literals in the returns report\<close>

lemma extends_page_subset:
  assumes "extends d d'" "q \<in> set (pages d)"
  shows "\<exists>q'. q' \<in> set (pages d') \<and> set q \<subseteq> set q'"
proof -
  from assms(2) obtain i where i: "i < length (pages d)" "pages d ! i = q"
    by (auto simp: in_set_conv_nth)
  with assms(1) have "prefix q (pages d' ! i)" "i < length (pages d')"
    by (auto simp: extends_def)
  then show ?thesis using set_mono_prefix nth_mem by blast
qed

lemma returns_rows_contains:
  "r \<in> set rows \<Longrightarrow>
   \<exists>i y q. q \<in> set (pages (fst (returns_rows rt i0 rows (mk_doc ps p, y0, g))))
           \<and> set (returns_row_cmds rt i r y) \<subseteq> set q"
proof (induction rows arbitrary: i0 ps p y0 g)
  case Nil
  then show ?case by simp
next
  case (Cons item rows)
  obtain ps1 p1 y1 g1 y where
    st: "returns_row_step rt i0 item (mk_doc ps p, y0, g) = (mk_doc ps1 p1, y1, g1)"
    and sub: "set (returns_row_cmds rt i0 item y) \<subseteq> set p1"
    by (cases "y0 > 270") (auto simp: returns_row_step_mk)
  show ?case
  proof (cases "r = item")
    case True
    from returns_rows_shape [of rt "Suc i0" rows ps1 p1 y1 g1]
    obtain ps' p' y' g' c0 qs where
      f: "returns_rows rt (Suc i0) rows (mk_doc ps1 p1, y1, g1) = (mk_doc ps' p', y', g')"
      and sh: "ps' @ [p'] = ps1 @ (p1 @ c0) # qs"
      by blast
    have "p1 @ c0 \<in> set (pages (fst (returns_rows rt i0 (item # rows) (mk_doc ps p, y0, g))))"
      using f sh by (simp add: st)
    moreover have "set (returns_row_cmds rt i0 r y) \<subseteq> set (p1 @ c0)"
      using sub True by auto
    ultimately show ?thesis by blast
  next
    case False
    with Cons.prems have "r \<in> set rows" by simp
    from Cons.IH [OF this, of "Suc i0" ps1 p1 y1 g1]
    show ?thesis by (simp add: st)
  qed
qed

lemma returns_table_rows:
  "\<exists>P. returns_table rt rows sd ed = returns_rows rt 0 rows (mk_doc [] P, report_top rt + 25, 0)"
proof -
  obtain cs where t: "report_title rt ''Returns Report'' sd ed = (mk_doc [] cs, report_top rt + 17)"
    using report_title_mk by blast
  have "returns_table rt rows sd ed
          = returns_rows rt 0 rows
              (mk_doc [] (cs @ returnsHeaderCmds rt (report_top rt + 17)
                            @ [SetFont ''helvetica'' ''normal'', SetFontSize 8]),
               report_top rt + 25, 0)"
    by (simp add: returns_table_def t Let_def ac_simps)
  then show ?thesis by blast
qed

text \<open>Every row of the input is drawn on some page of the finished returns report.\<close>

lemma returns_report_contains:
  assumes "r \<in> set rows"
  shows "\<exists>i y q. q \<in> set (pages (generateReturnsReportPDF rt rows sd ed a))
           \<and> set (returns_row_cmds rt i r y) \<subseteq> set q"
proof -
  obtain P where tab: "returns_table rt rows sd ed = returns_rows rt 0 rows (mk_doc [] P, report_top rt + 25, 0)"
    using returns_table_rows by blast
  from returns_rows_contains [OF assms, of rt 0 "[]" P "report_top rt + 25" 0]
  obtain i y q where q: "q \<in> set (pages (fst (returns_table rt rows sd ed)))"
    and sub: "set (returns_row_cmds rt i r y) \<subseteq> set q"
    unfolding tab by blast
  obtain ps p y' g where f: "returns_table rt rows sd ed = (mk_doc ps p, y', g)"
    and e: "extends (mk_doc ps p) (generateReturnsReportPDF rt rows sd ed a)"
    by (rule returns_report_pages [of rt rows sd ed a])
  from q f have "q \<in> set (pages (mk_doc ps p))" by simp
  from extends_page_subset [OF e this] sub show ?thesis by blast
qed

text \<open>
  C8. A missing optional field is rendered as the documented fallback literal. In the
  document produced by \<open>generateReturnsReportPDF\<close>, every input row whose customer name is
  undefined, null or the empty string has, on some page and on the baseline of its own
  return id, the text \<open>N/A\<close> in the customer column (\<open>x = 80\<close>); likewise \<open>N/A\<close> in the reason
  column (\<open>x = 150\<close>) for a missing return reason. On the receipt a customer name that is
  undefined, null or empty is drawn as \<open>N/A\<close>, and an address that is undefined, null or
  empty is drawn as \<open>In-Store Pickup\<close> (as wrapped by jsPDF to the panel width) when the
  shipping option is in-store pickup, which is also its default.
\<close>

theorem missing_fields_fall_back:
  "(r \<in> set returnsData \<and> customer_name r \<in> {None, Some []} \<longrightarrow>
      (\<exists>q y. q \<in> set (pages (generateReturnsReportPDF rt returnsData startDate endDate adminName))
             \<and> Text (return_id r) 15 y AlignLeft \<in> set q \<and> Text ''N/A'' 80 y AlignLeft \<in> set q))
   \<and> (r \<in> set returnsData \<and> return_reason r \<in> {None, Some []} \<longrightarrow>
      (\<exists>q y. q \<in> set (pages (generateReturnsReportPDF rt returnsData startDate endDate adminName))
             \<and> Text (return_id r) 15 y AlignLeft \<in> set q \<and> Text ''N/A'' 150 y AlignLeft \<in> set q))
   \<and> (generateSaleReceipt rt args = Inr d \<and> rc_customerName args \<in> {JUndefined, JNull, JString []} \<longrightarrow>
      Text ''N/A'' 110 (receipt_info_top rt + 12) AlignLeft \<in> set (hd (pages d)))
   \<and> (generateSaleReceipt rt args = Inr d \<and> address args \<in> {JUndefined, JNull, JString []}
        \<and> shippingOption args \<in> {JUndefined, JString ''In-Store Pickup''} \<longrightarrow>
      TextLines (splitTextToSize rt ''In-Store Pickup'' (contentWidth rt / 2 - 10 - 70))
                110 (receipt_info_top rt + 24) \<in> set (hd (pages d)))"
proof -
  have row: "Text (return_id r) 15 y AlignLeft \<in> set (returns_row_cmds rt i r y)" for i y
    by (simp add: returns_row_cmds_def Let_def)
  have c: "customer_name r \<in> {None, Some []} \<Longrightarrow>
      Text ''N/A'' 80 y AlignLeft \<in> set (returns_row_cmds rt i r y)" for i y
    by (auto simp: returns_row_cmds_def truncate_or_na_def Let_def)
  have n: "return_reason r \<in> {None, Some []} \<Longrightarrow>
      Text ''N/A'' 150 y AlignLeft \<in> set (returns_row_cmds rt i r y)" for i y
    by (auto simp: returns_row_cmds_def truncate_or_na_def Let_def)
  have 1: "r \<in> set returnsData \<and> customer_name r \<in> {None, Some []} \<longrightarrow>
      (\<exists>q y. q \<in> set (pages (generateReturnsReportPDF rt returnsData startDate endDate adminName))
             \<and> Text (return_id r) 15 y AlignLeft \<in> set q \<and> Text ''N/A'' 80 y AlignLeft \<in> set q)"
  proof (intro impI, elim conjE)
    assume r: "r \<in> set returnsData" and m: "customer_name r \<in> {None, Some []}"
    from returns_report_contains [OF r, of rt startDate endDate adminName]
    obtain i y q where q: "q \<in> set (pages (generateReturnsReportPDF rt returnsData startDate endDate adminName))"
      and sub: "set (returns_row_cmds rt i r y) \<subseteq> set q"
      by blast
    from sub row [of y i] c [OF m, of y i]
    have "Text (return_id r) 15 y AlignLeft \<in> set q" "Text ''N/A'' 80 y AlignLeft \<in> set q"
      by blast+
    with q show "\<exists>q y. q \<in> set (pages (generateReturnsReportPDF rt returnsData startDate endDate adminName))
             \<and> Text (return_id r) 15 y AlignLeft \<in> set q \<and> Text ''N/A'' 80 y AlignLeft \<in> set q"
      by blast
  qed
  have 2: "r \<in> set returnsData \<and> return_reason r \<in> {None, Some []} \<longrightarrow>
      (\<exists>q y. q \<in> set (pages (generateReturnsReportPDF rt returnsData startDate endDate adminName))
             \<and> Text (return_id r) 15 y AlignLeft \<in> set q \<and> Text ''N/A'' 150 y AlignLeft \<in> set q)"
  proof (intro impI, elim conjE)
    assume r: "r \<in> set returnsData" and m: "return_reason r \<in> {None, Some []}"
    from returns_report_contains [OF r, of rt startDate endDate adminName]
    obtain i y q where q: "q \<in> set (pages (generateReturnsReportPDF rt returnsData startDate endDate adminName))"
      and sub: "set (returns_row_cmds rt i r y) \<subseteq> set q"
      by blast
    from sub row [of y i] n [OF m, of y i]
    have "Text (return_id r) 15 y AlignLeft \<in> set q" "Text ''N/A'' 150 y AlignLeft \<in> set q"
      by blast+
    with q show "\<exists>q y. q \<in> set (pages (generateReturnsReportPDF rt returnsData startDate endDate adminName))
             \<and> Text (return_id r) 15 y AlignLeft \<in> set q \<and> Text ''N/A'' 150 y AlignLeft \<in> set q"
      by blast
  qed
  have 3: "generateSaleReceipt rt args = Inr d \<and> rc_customerName args \<in> {JUndefined, JNull, JString []} \<longrightarrow>
      Text ''N/A'' 110 (receipt_info_top rt + 12) AlignLeft \<in> set (hd (pages d))"
    using receipt_head_contents(1) [of rt args d] by (auto simp: js_or_def)
  have 4: "generateSaleReceipt rt args = Inr d \<and> address args \<in> {JUndefined, JNull, JString []}
        \<and> shippingOption args \<in> {JUndefined, JString ''In-Store Pickup''} \<longrightarrow>
      TextLines (splitTextToSize rt ''In-Store Pickup'' (contentWidth rt / 2 - 10 - 70))
                110 (receipt_info_top rt + 24) \<in> set (hd (pages d))"
    using receipt_head_contents(2) [of rt args d]
    by (auto simp: receipt_address_def js_or_def default_to_def)
  from 1 2 3 4 show ?thesis by (intro conjI)
qed

theorem missing_fields_fall_back_witness:
  "anonymous_return \<in> set [sample_return, anonymous_return]
   \<and> customer_name anonymous_return \<in> {None, Some []}
   \<and> return_reason anonymous_return \<in> {None, Some []}
   \<and> (\<exists>q y. q \<in> set (pages (generateReturnsReportPDF reference_runtime [sample_return, anonymous_return]
                                JNull JNull ''admin''))
           \<and> Text ''R-2'' 15 y AlignLeft \<in> set q \<and> Text ''N/A'' 80 y AlignLeft \<in> set q)
   \<and> (\<exists>q y. q \<in> set (pages (generateReturnsReportPDF reference_runtime [sample_return, anonymous_return]
                                JNull JNull ''admin''))
           \<and> Text ''R-2'' 15 y AlignLeft \<in> set q \<and> Text ''N/A'' 150 y AlignLeft \<in> set q)
   \<and> rc_customerName walk_in_receipt \<in> {JUndefined, JNull, JString []}
   \<and> address walk_in_receipt \<in> {JUndefined, JNull, JString []}
   \<and> shippingOption walk_in_receipt \<in> {JUndefined, JString ''In-Store Pickup''}
   \<and> (case generateSaleReceipt reference_runtime walk_in_receipt of
         Inl e \<Rightarrow> False
       | Inr d \<Rightarrow> Text ''N/A'' 110 131 AlignLeft \<in> set (hd (pages d))
                 \<and> TextLines [''In-Store Pickup''] 110 143 \<in> set (hd (pages d)))"
proof -
  obtain d where d: "generateSaleReceipt reference_runtime walk_in_receipt = Inr d"
    by (simp add: generateSaleReceipt_def walk_in_receipt_def default_to_def)
  have a0: "customer_name anonymous_return = Some []" "return_reason anonymous_return = None"
    "return_id anonymous_return = ''R-2''"
    by (simp_all add: anonymous_return_def)
  have w0: "rc_customerName walk_in_receipt = JNull" "address walk_in_receipt = JUndefined"
    "shippingOption walk_in_receipt = JUndefined"
    by (simp_all add: walk_in_receipt_def)
  have a: "customer_name anonymous_return \<in> {None, Some []}"
          "return_reason anonymous_return \<in> {None, Some []}"
          "anonymous_return \<in> set [sample_return, anonymous_return]"
    by (simp_all add: a0)
  have w: "rc_customerName walk_in_receipt \<in> {JUndefined, JNull, JString []}"
          "address walk_in_receipt \<in> {JUndefined, JNull, JString []}"
          "shippingOption walk_in_receipt \<in> {JUndefined, JString ''In-Store Pickup''}"
    by (simp_all add: w0)
  have t: "receipt_info_top reference_runtime = 119"
    by (simp add: receipt_info_top_def reference_fields)
  note inst = missing_fields_fall_back
         [of anonymous_return "[sample_return, anonymous_return]" reference_runtime JNull JNull "''admin''"
             walk_in_receipt d]
  from inst a
  have r1: "\<exists>q y. q \<in> set (pages (generateReturnsReportPDF reference_runtime [sample_return, anonymous_return]
                                JNull JNull ''admin''))
           \<and> Text ''R-2'' 15 y AlignLeft \<in> set q \<and> Text ''N/A'' 80 y AlignLeft \<in> set q"
    and r2: "\<exists>q y. q \<in> set (pages (generateReturnsReportPDF reference_runtime [sample_return, anonymous_return]
                                JNull JNull ''admin''))
           \<and> Text ''R-2'' 15 y AlignLeft \<in> set q \<and> Text ''N/A'' 150 y AlignLeft \<in> set q"
    unfolding a0(3) [symmetric] by blast+
  from inst w0 d
  have "Text ''N/A'' 110 131 AlignLeft \<in> set (hd (pages d))"
    "TextLines [''In-Store Pickup''] 110 143 \<in> set (hd (pages d))"
    by (simp_all add: t reference_receipt_fields)
  with a w d r1 r2 show ?thesis by simp
qed

end
